(* ===== verification/Prelude.thy ===== *)
theory Prelude
  imports Complex_Main "HOL-Library.List_Lexorder" "HOL-Library.Char_ord" "HOL-Library.Product_Lexorder"
begin

text \<open>
  What every component shares: JavaScript strings and the operations the source calls on them,
  tables as lists of rows with the statements the repositories issue against them, and the
  collections of simplification rules the component theories feed.

  A string is a list of code units below 256, which is where \<open>trim\<close>, \<open>toLowerCase\<close>,
  \<open>codePointAt\<close> and the UTF-8 encoder are modelled exactly; \<open>length\<close> counts code units as
  JavaScript does. A \<open>Date\<close> is the number of milliseconds since the epoch.
\<close>

named_theorems table_simps \<open>how the table statements act on a row\<close>
named_theorems row_intros \<open>introduction rules of the table invariants\<close>

type_synonym uuid = string
type_synonym date = int

section \<open>JavaScript strings\<close>

abbreviation code_unit :: "char \<Rightarrow> nat" where
  "code_unit c \<equiv> of_char c"

definition is_js_space :: "char \<Rightarrow> bool" where
  "is_js_space c \<longleftrightarrow> code_unit c \<in> {9, 10, 11, 12, 13, 32, 160}"

definition trim_start :: "string \<Rightarrow> string" where
  "trim_start s = dropWhile is_js_space s"

definition trim :: "string \<Rightarrow> string" where
  "trim s = rev (trim_start (rev (trim_start s)))"

definition lower_char :: "char \<Rightarrow> char" where
  "lower_char c =
     (let n = code_unit c in
      if 65 \<le> n \<and> n \<le> 90 \<or> 192 \<le> n \<and> n \<le> 222 \<and> n \<noteq> 215 then char_of (n + 32) else c)"

definition toLowerCase :: "string \<Rightarrow> string" where
  "toLowerCase s = map lower_char s"

text \<open>\<open>split\<close> on a single-character separator: always at least one part.\<close>

fun split_on :: "(char \<Rightarrow> bool) \<Rightarrow> string \<Rightarrow> string list" where
  "split_on p [] = [[]]"
| "split_on p (c # cs) =
     (if p c then [] # split_on p cs
      else (case split_on p cs of [] \<Rightarrow> [[c]] | w # ws \<Rightarrow> (c # w) # ws))"

definition starts_with :: "string \<Rightarrow> string \<Rightarrow> bool" where
  "starts_with pre s \<longleftrightarrow> take (length pre) s = pre"

fun join_with :: "string \<Rightarrow> string list \<Rightarrow> string" where
  "join_with sep [] = []"
| "join_with sep [w] = w"
| "join_with sep (w # ws) = w @ sep @ join_with sep ws"

text \<open>\<open>String(n)\<close> of a natural number.\<close>

fun show_nat :: "nat \<Rightarrow> string" where
  "show_nat n = (if n < 10 then [char_of (48 + n)] else show_nat (n div 10) @ [char_of (48 + n mod 10)])"

declare show_nat.simps [simp del]

text \<open>UTF-8 bytes of a string, as \<open>Buffer.from(s, 'utf8')\<close> yields them.\<close>

definition utf8_char :: "char \<Rightarrow> nat list" where
  "utf8_char c =
     (let n = code_unit c in if n < 128 then [n] else [192 + n div 64, 128 + n mod 64])"

definition utf8 :: "string \<Rightarrow> nat list" where
  "utf8 s = concat (map utf8_char s)"

section \<open>Tables\<close>

text \<open>
  A table is the list of its rows. \<open>UPDATE ... WHERE\<close>, \<open>DELETE ... WHERE\<close>, \<open>SELECT\<close>,
  \<open>count\<close> and Prisma's \<open>createMany\<close> with \<open>skipDuplicates\<close> are the functions below; the
  affected-row count of a statement is the length of the selection it starts from.
\<close>

definition update_where :: "('r \<Rightarrow> bool) \<Rightarrow> ('r \<Rightarrow> 'r) \<Rightarrow> 'r list \<Rightarrow> 'r list" where
  "update_where p f rows = map (\<lambda>r. if p r then f r else r) rows"

definition delete_where :: "('r \<Rightarrow> bool) \<Rightarrow> 'r list \<Rightarrow> 'r list" where
  "delete_where p rows = filter (\<lambda>r. \<not> p r) rows"

definition count_where :: "('r \<Rightarrow> bool) \<Rightarrow> 'r list \<Rightarrow> nat" where
  "count_where p rows = length (filter p rows)"

definition insert_skip :: "('r \<Rightarrow> 'k) \<Rightarrow> 'r \<Rightarrow> 'r list \<Rightarrow> 'r list \<times> nat" where
  "insert_skip key r rows = (if key r \<in> key ` set rows then (rows, 0) else (rows @ [r], 1))"

definition order_by :: "('r \<Rightarrow> 'k::linorder) \<Rightarrow> 'r list \<Rightarrow> 'r list" where
  "order_by key rows = sort_key key rows"

definition unique_on :: "('r \<Rightarrow> 'k) \<Rightarrow> 'r list \<Rightarrow> bool" where
  "unique_on key rows \<longleftrightarrow> distinct (map key rows)"

section \<open>Lemmas on strings\<close>

lemma is_js_space_lower [simp]: "is_js_space (lower_char c) = is_js_space c"
proof -
  have "code_unit c < 256" by simp
  then show ?thesis
    by (auto simp: is_js_space_def lower_char_def Let_def)
qed

lemma trim_idem: "trim (trim s) = trim s"
proof -
  have drop_idem: "dropWhile P (dropWhile P xs) = dropWhile P xs" for P :: "char \<Rightarrow> bool" and xs
    by (induction xs) auto
  have keep: "\<not> P (hd xs) \<Longrightarrow> dropWhile P xs = xs" for P :: "char \<Rightarrow> bool" and xs
    by (cases xs) auto
  let ?a = "dropWhile is_js_space s"
  let ?b = "rev (dropWhile is_js_space (rev ?a))"
  have "dropWhile is_js_space ?b = ?b"
  proof (cases "?b = []")
    case True
    then show ?thesis by (simp only: dropWhile.simps)
  next
    case False
    obtain ys where ys: "rev ?a = ys @ dropWhile is_js_space (rev ?a)"
      by (metis takeWhile_dropWhile_id)
    then have "?a = ?b @ rev ys"
      by (metis rev_append rev_rev_ident)
    with False have hd: "hd ?b = hd ?a" and ne: "?a \<noteq> []"
      by (metis hd_append2, metis append_is_Nil_conv)
    have "\<not> is_js_space (hd ?a)"
      using ne by (rule hd_dropWhile)
    with hd show ?thesis by (simp add: keep)
  qed
  then show ?thesis by (simp add: trim_def trim_start_def drop_idem)
qed

lemma length_trim_le: "length (trim s) \<le> length s"
proof -
  have "length (trim s) \<le> length (dropWhile is_js_space s)"
    by (metis length_dropWhile_le length_rev trim_def trim_start_def)
  then show ?thesis using length_dropWhile_le le_trans by blast
qed

lemma trim_ends: "trim s \<noteq> [] \<Longrightarrow> \<not> is_js_space (hd (trim s)) \<and> \<not> is_js_space (last (trim s))"
proof -
  assume ne: "trim s \<noteq> []"
  have "hd (trim s) \<in> set (trim s)" using ne by simp
  have tt: "dropWhile is_js_space (trim s) = trim s"
  proof -
    have "length (trim (trim s)) = length (trim s)" by (simp add: trim_idem)
    moreover have "length (trim (trim s)) \<le> length (dropWhile is_js_space (trim s))"
      by (metis length_dropWhile_le length_rev trim_def trim_start_def)
    ultimately have "length (dropWhile is_js_space (trim s)) = length (trim s)"
      using length_dropWhile_le [of is_js_space "trim s"] by linarith
    then show ?thesis
      by (metis append_Nil length_append length_0_conv add_cancel_left_left takeWhile_dropWhile_id)
  qed
  have h: "\<not> is_js_space (hd (trim s))"
    using ne tt by (metis hd_dropWhile)
  have "last (trim s) = hd (dropWhile is_js_space (rev (dropWhile is_js_space s)))"
    using ne by (simp add: trim_def trim_start_def last_rev)
  then have "\<not> is_js_space (last (trim s))"
    using ne by (metis hd_dropWhile rev.simps(1) trim_def trim_start_def)
  with h show ?thesis by simp
qed

lemma trim_id: "\<not> (\<exists>c \<in> set s. is_js_space c) \<Longrightarrow> trim s = s"
proof -
  assume a: "\<not> (\<exists>c \<in> set s. is_js_space c)"
  have "dropWhile is_js_space xs = xs" if "set xs \<subseteq> set s" for xs
    using a that by (cases xs) auto
  then show ?thesis by (simp add: trim_def trim_start_def)
qed

lemma set_trim_subset: "set (trim s) \<subseteq> set s"
  unfolding trim_def trim_start_def by (metis set_dropWhileD set_rev subsetI)

lemma length_toLowerCase [simp]: "length (toLowerCase s) = length s"
  by (simp add: toLowerCase_def)

lemma split_on_nonempty [simp]: "split_on p s \<noteq> []"
  by (induction s) (auto split: list.splits)

lemma split_on_no_sep: "w \<in> set (split_on p s) \<Longrightarrow> \<forall>c \<in> set w. \<not> p c"
proof (induction s arbitrary: w)
  case Nil
  then show ?case by simp
next
  case (Cons a s)
  obtain v vs where "split_on p s = v # vs" by (cases "split_on p s") auto
  with Cons show ?case by (auto split: if_splits) fastforce
qed

lemma split_on_single: "\<forall>c \<in> set s. \<not> p c \<Longrightarrow> split_on p s = [s]"
  by (induction s) auto

lemma hd_split_on: "hd (split_on p s) = takeWhile (\<lambda>c. \<not> p c) s"
  by (induction s) (auto split: list.splits)

lemma utf8_char_cases: "utf8_char c = (if code_unit c < 128 then [code_unit c] else [192 + code_unit c div 64, 128 + code_unit c mod 64])"
  by (simp add: utf8_char_def Let_def)

lemma utf8_inj: "utf8 a = utf8 b \<Longrightarrow> a = b"
proof (induction a arbitrary: b)
  case Nil
  then show ?case
    by (cases b) (auto simp: utf8_def utf8_char_cases split: if_splits)
next
  case (Cons x xs)
  then obtain y ys where b: "b = y # ys"
    by (cases b) (auto simp: utf8_def utf8_char_cases split: if_splits)
  have bx: "code_unit x < 256" and by': "code_unit y < 256" by simp_all
  from Cons.prems b have eq: "utf8_char x @ utf8 xs = utf8_char y @ utf8 ys"
    by (simp add: utf8_def)
  have "code_unit x = code_unit y \<and> utf8 xs = utf8 ys"
  proof (cases "code_unit x < 128")
    case True
    then show ?thesis using eq by (auto simp: utf8_char_cases split: if_splits)
  next
    case False
    with eq have "code_unit x div 64 = code_unit y div 64" "code_unit x mod 64 = code_unit y mod 64"
      and tl: "utf8 xs = utf8 ys"
      by (auto simp: utf8_char_cases split: if_splits)
    then have "code_unit x = code_unit y" by (metis div_mult_mod_eq)
    with tl show ?thesis by simp
  qed
  then have "x = y" and "utf8 xs = utf8 ys" by simp_all
  with Cons.IH b show ?case by simp
qed

section \<open>Lemmas on tables\<close>

lemma set_update_where [table_simps]:
  "set (update_where p f rows) = (\<lambda>r. if p r then f r else r) ` set rows"
  by (simp add: update_where_def)

lemma set_delete_where [table_simps]: "set (delete_where p rows) = {r \<in> set rows. \<not> p r}"
  by (auto simp: delete_where_def)

lemma update_where_none: "\<forall>r \<in> set rows. \<not> p r \<Longrightarrow> update_where p f rows = rows"
  by (simp add: update_where_def map_idI)

lemma map_update_where [table_simps]:
  "(\<And>r. key (f r) = key r) \<Longrightarrow> map key (update_where p f rows) = map key rows"
  by (simp add: update_where_def)

lemma image_update_where: "(\<And>r. key (f r) = key r) \<Longrightarrow> key ` set (update_where p f rows) = key ` set rows"
  by (metis list.set_map map_update_where)

lemma find_update_where:
  assumes "\<And>r. key (f r) = key r"
  shows "find (\<lambda>r. key r = k) (update_where p f rows)
    = map_option (\<lambda>r. if p r then f r else r) (find (\<lambda>r. key r = k) rows)"
  using assms by (induction rows) (auto simp: update_where_def)

lemma length_update_where [simp]: "length (update_where p f rows) = length rows"
  by (simp add: update_where_def)

lemma count_where_zero: "count_where p rows = 0 \<longleftrightarrow> (\<forall>r \<in> set rows. \<not> p r)"
  by (auto simp: count_where_def filter_empty_conv)

lemma count_where_pos: "0 < count_where p rows \<longleftrightarrow> (\<exists>r \<in> set rows. p r)"
  using count_where_zero [of p rows] by auto

lemma unique_on_update [row_intros]:
  "unique_on key rows \<Longrightarrow> (\<And>r. key (f r) = key r) \<Longrightarrow> unique_on key (update_where p f rows)"
  by (simp add: unique_on_def map_update_where)

lemma unique_on_delete [row_intros]: "unique_on key rows \<Longrightarrow> unique_on key (delete_where p rows)"
  by (simp add: unique_on_def delete_where_def distinct_map_filter)

lemma unique_on_append:
  "unique_on key (rows @ [r]) \<longleftrightarrow> unique_on key rows \<and> key r \<notin> key ` set rows"
  by (auto simp: unique_on_def)

lemma unique_onD: "unique_on key rows \<Longrightarrow> r \<in> set rows \<Longrightarrow> r' \<in> set rows \<Longrightarrow> key r = key r' \<Longrightarrow> r = r'"
  by (auto simp: unique_on_def distinct_map dest: inj_onD)

lemma find_unique:
  assumes "unique_on key rows" and "r \<in> set rows"
  shows "find (\<lambda>x. key x = key r) rows = Some r"
proof (cases "find (\<lambda>x. key x = key r) rows")
  case None
  then show ?thesis using assms(2) by (auto simp: find_None_iff)
next
  case (Some r')
  then have "r' \<in> set rows" "key r' = key r" by (auto simp: find_Some_iff)
  then show ?thesis using Some unique_onD [OF assms(1) _ assms(2)] by simp
qed

lemma find_snoc: "\<forall>x \<in> set xs. \<not> p x \<Longrightarrow> find p (xs @ [y]) = (if p y then Some y else None)"
  by (induction xs) auto

lemma find_unique_where:
  assumes "unique_on key rows" and "r \<in> set rows" and "p r" and "\<And>x. p x \<Longrightarrow> key x = key r"
  shows "find p rows = Some r"
proof (cases "find p rows")
  case None
  then show ?thesis using assms(2,3) by (auto simp: find_None_iff)
next
  case (Some r')
  then have "r' \<in> set rows" "p r'" by (auto simp: find_Some_iff)
  then show ?thesis using Some unique_onD [OF assms(1) _ assms(2)] assms(4) by simp
qed

lemma count_where_unique:
  assumes "unique_on key rows" and "r \<in> set rows" and "p r" and "\<And>x. p x \<Longrightarrow> key x = key r"
  shows "count_where p rows = 1"
proof -
  have "x = r" if "x \<in> set rows" "p x" for x
    by (rule unique_onD [OF assms(1) that(1) assms(2) assms(4) [OF that(2)]])
  then have "set (filter p rows) = {r}" unfolding set_filter using assms(2,3) by blast
  moreover have "distinct (filter p rows)" using assms(1) by (auto simp: unique_on_def distinct_map)
  ultimately have "length (filter p rows) = card {r}" by (metis distinct_card)
  then show ?thesis by (simp add: count_where_def)
qed

lemma insert_skip_cases:
  "insert_skip key r rows = (rows', n) \<Longrightarrow>
     (n = 1 \<and> rows' = rows @ [r] \<and> key r \<notin> key ` set rows) \<or> (n = 0 \<and> rows' = rows \<and> key r \<in> key ` set rows)"
  by (auto simp: insert_skip_def split: if_splits)

lemma unique_on_insert_skip [row_intros]:
  "unique_on key rows \<Longrightarrow> unique_on key (fst (insert_skip key r rows))"
  by (simp add: insert_skip_def unique_on_append)

lemma set_order_by [simp]: "set (order_by key rows) = set rows"
  by (simp add: order_by_def)

lemma length_order_by [simp]: "length (order_by key rows) = length rows"
  by (simp add: order_by_def)

lemma filter_order_by_distinct: "distinct rows \<Longrightarrow> distinct (order_by key rows)"
  by (simp add: order_by_def)

text \<open>The first \<open>n\<close> rows in an order are below every row that is left out.\<close>

lemma take_order_by_least:
  assumes "r \<in> set (take n (order_by key rows))"
    and "r' \<in> set (drop n (order_by key rows))"
  shows "key r \<le> key r'"
proof -
  have "sorted (map key (take n (order_by key rows)) @ map key (drop n (order_by key rows)))"
    by (simp add: order_by_def flip: map_append)
  then show ?thesis using assms by (simp only: sorted_append) auto
qed

end
