(* ===== verification/Errors.thy ===== *)
theory Errors
  imports Prelude
begin

text \<open>
  The error vocabulary (\<open>src/src/shared/errors\<close>): the codes of \<open>error-codes.ts\<close> with the
  strings they have on the wire, the catalog of \<open>error-catalog.ts\<close>, and \<open>DomainException\<close> with
  its factory \<open>DomainErrors\<close>. Every \<open>throw\<close> of the program is a value of \<open>failure\<close>, so that
  an operation returns \<open>failure + 'a\<close>.
\<close>

datatype error_code =
    MALFORMED_REQUEST
  | VALIDATION_FAILED
  | NOT_FOUND
  | CONFLICT
  | FORBIDDEN
  | UNAUTHENTICATED
  | RATE_LIMITED
  | REQUEST_TIMEOUT
  | PAYLOAD_TOO_LARGE
  | UNSUPPORTED_MEDIA_TYPE
  | INTERNAL_ERROR
  | SERVICE_UNAVAILABLE
  | CURSOR_MALFORMED
  | USER_NOT_FOUND
  | USER_PROFILE_NOT_FOUND
  | DISPLAY_NAME_INVALID
  | USER_ROLE_INVALID
  | ORGANIZATION_INVALID
  | ORGANIZATION_NOT_FOUND
  | ORGANIZATION_ACCESS_DENIED
  | INVITATION_INVALID
  | INVITATION_NOT_FOUND
  | MEMBER_NOT_FOUND
  | LAST_OWNER
  | UPLOAD_NOT_FOUND
  | UPLOAD_ALREADY_CONFIRMED
  | UPLOAD_SIZE_EXCEEDED
  | UPLOAD_MIME_NOT_ALLOWED
  | UPLOAD_OBJECT_MISSING
  | UPLOAD_CONTENT_MISMATCH
  | UPLOAD_FILENAME_INVALID
  | AUDIT_ENTRY_INVALID

primrec wire_code :: "error_code \<Rightarrow> string" where
  "wire_code MALFORMED_REQUEST = ''malformed_request''"
| "wire_code VALIDATION_FAILED = ''validation_failed''"
| "wire_code NOT_FOUND = ''not_found''"
| "wire_code CONFLICT = ''conflict''"
| "wire_code FORBIDDEN = ''forbidden''"
| "wire_code UNAUTHENTICATED = ''unauthenticated''"
| "wire_code RATE_LIMITED = ''rate_limited''"
| "wire_code REQUEST_TIMEOUT = ''request_timeout''"
| "wire_code PAYLOAD_TOO_LARGE = ''payload_too_large''"
| "wire_code UNSUPPORTED_MEDIA_TYPE = ''unsupported_media_type''"
| "wire_code INTERNAL_ERROR = ''internal_error''"
| "wire_code SERVICE_UNAVAILABLE = ''service_unavailable''"
| "wire_code CURSOR_MALFORMED = ''cursor_malformed''"
| "wire_code USER_NOT_FOUND = ''user_not_found''"
| "wire_code USER_PROFILE_NOT_FOUND = ''user_profile_not_found''"
| "wire_code DISPLAY_NAME_INVALID = ''display_name_invalid''"
| "wire_code USER_ROLE_INVALID = ''user_role_invalid''"
| "wire_code ORGANIZATION_INVALID = ''organization_invalid''"
| "wire_code ORGANIZATION_NOT_FOUND = ''organization_not_found''"
| "wire_code ORGANIZATION_ACCESS_DENIED = ''organization_access_denied''"
| "wire_code INVITATION_INVALID = ''invitation_invalid''"
| "wire_code INVITATION_NOT_FOUND = ''invitation_not_found''"
| "wire_code MEMBER_NOT_FOUND = ''member_not_found''"
| "wire_code LAST_OWNER = ''last_owner''"
| "wire_code UPLOAD_NOT_FOUND = ''upload_not_found''"
| "wire_code UPLOAD_ALREADY_CONFIRMED = ''upload_already_confirmed''"
| "wire_code UPLOAD_SIZE_EXCEEDED = ''upload_size_exceeded''"
| "wire_code UPLOAD_MIME_NOT_ALLOWED = ''upload_mime_not_allowed''"
| "wire_code UPLOAD_OBJECT_MISSING = ''upload_object_missing''"
| "wire_code UPLOAD_CONTENT_MISMATCH = ''upload_content_mismatch''"
| "wire_code UPLOAD_FILENAME_INVALID = ''upload_filename_invalid''"
| "wire_code AUDIT_ENTRY_INVALID = ''audit_entry_invalid''"

record error_catalog_entry =
  summary :: string
  clientAction :: string

text \<open>\<open>ERROR_CATALOG\<close>, read through \<open>describeErrorCode\<close>.\<close>

primrec describeErrorCode :: "error_code \<Rightarrow> error_catalog_entry" where
  "describeErrorCode MALFORMED_REQUEST =
     \<lparr>summary = ''The request could not be parsed.'',
      clientAction = ''Fix the request shape. Retrying it unchanged will fail again.''\<rparr>"
| "describeErrorCode VALIDATION_FAILED =
     \<lparr>summary = ''One or more fields broke a rule the client can fix.'',
      clientAction = ''Read errors[] and correct the named fields.''\<rparr>"
| "describeErrorCode NOT_FOUND =
     \<lparr>summary = ''The resource is absent, or the caller may not learn it exists.'',
      clientAction = ''Do not retry with the same identifier.''\<rparr>"
| "describeErrorCode CONFLICT =
     \<lparr>summary = ''The request collided with the current state.'',
      clientAction = ''Re-read the resource and decide again; a later attempt may win.''\<rparr>"
| "describeErrorCode FORBIDDEN =
     \<lparr>summary = ''Authenticated, but not permitted.'',
      clientAction = ''Do not retry. Request access.''\<rparr>"
| "describeErrorCode UNAUTHENTICATED =
     \<lparr>summary = ''No valid session.'',
      clientAction = ''Sign in, then retry.''\<rparr>"
| "describeErrorCode RATE_LIMITED =
     \<lparr>summary = ''The caller exceeded its request budget.'',
      clientAction = ''Back off for the number of seconds in Retry-After.''\<rparr>"
| "describeErrorCode REQUEST_TIMEOUT =
     \<lparr>summary = ''The request took longer than the server is willing to wait.'',
      clientAction = ''Retry with backoff. The work may still have completed.''\<rparr>"
| "describeErrorCode PAYLOAD_TOO_LARGE =
     \<lparr>summary = ''The body or file exceeded the configured limit.'',
      clientAction = ''Send less. The limit is in the API documentation.''\<rparr>"
| "describeErrorCode UNSUPPORTED_MEDIA_TYPE =
     \<lparr>summary = ''No parser is registered for that Content-Type.'',
      clientAction = ''Send application/json, or multipart on upload routes.''\<rparr>"
| "describeErrorCode INTERNAL_ERROR =
     \<lparr>summary = ''The server failed for a reason it will not disclose.'',
      clientAction = ''Retry with backoff, and quote requestId in a bug report.''\<rparr>"
| "describeErrorCode SERVICE_UNAVAILABLE =
     \<lparr>summary = ''A dependency is degraded and the request cannot be served now.'',
      clientAction = ''Back off for the number of seconds in Retry-After.''\<rparr>"
| "describeErrorCode CURSOR_MALFORMED =
     \<lparr>summary = ''The pagination cursor did not decode.'',
      clientAction = ''Restart the listing without a cursor.''\<rparr>"
| "describeErrorCode USER_NOT_FOUND =
     \<lparr>summary = ''No identity exists for that id.'',
      clientAction = ''Do not retry with the same id.''\<rparr>"
| "describeErrorCode USER_PROFILE_NOT_FOUND =
     \<lparr>summary = ''The identity exists but has no profile yet.'',
      clientAction = ''Retry shortly: the profile is created asynchronously after sign-up.''\<rparr>"
| "describeErrorCode DISPLAY_NAME_INVALID =
     \<lparr>summary = ''The display name broke a length or character rule.'',
      clientAction = ''Send a name of 2 to 80 printable characters.''\<rparr>"
| "describeErrorCode USER_ROLE_INVALID =
     \<lparr>summary = ''The role is not one this system recognises.'',
      clientAction = ''Do not retry. Roles are assigned server-side.''\<rparr>"
| "describeErrorCode ORGANIZATION_INVALID =
     \<lparr>summary = ''The organization name or slug is invalid.'',
      clientAction = ''Use a unique lowercase slug and a name between 2 and 160 characters.''\<rparr>"
| "describeErrorCode ORGANIZATION_NOT_FOUND =
     \<lparr>summary = ''The organization does not exist or is not visible to the caller.'',
      clientAction = ''Choose an organization returned by the membership endpoint.''\<rparr>"
| "describeErrorCode ORGANIZATION_ACCESS_DENIED =
     \<lparr>summary = ''The caller does not have the required organization permission.'',
      clientAction = ''Request a suitable organization role.''\<rparr>"
| "describeErrorCode INVITATION_INVALID =
     \<lparr>summary = ''The invitation could not be issued as asked.'',
      clientAction = ''Check the address and the role, then send it again.''\<rparr>"
| "describeErrorCode INVITATION_NOT_FOUND =
     \<lparr>summary = ''The invitation is unknown, already used, or past its expiry.'',
      clientAction = ''Ask the organization for a fresh invitation.''\<rparr>"
| "describeErrorCode MEMBER_NOT_FOUND =
     \<lparr>summary = ''That person is not a member of this organization.'',
      clientAction = ''Re-read the member list before repeating the change.''\<rparr>"
| "describeErrorCode LAST_OWNER =
     \<lparr>summary = ''The change would leave the organization with no owner.'',
      clientAction = ''Promote another member to owner first, then repeat this.''\<rparr>"
| "describeErrorCode UPLOAD_NOT_FOUND =
     \<lparr>summary = ''No upload with that id belongs to the caller.'',
      clientAction = ''Presign again.''\<rparr>"
| "describeErrorCode UPLOAD_ALREADY_CONFIRMED =
     \<lparr>summary = ''The upload was confirmed by an earlier request.'',
      clientAction = ''Treat it as success and use the file.''\<rparr>"
| "describeErrorCode UPLOAD_SIZE_EXCEEDED =
     \<lparr>summary = ''The declared size is outside the accepted range.'',
      clientAction = ''Send a smaller file.''\<rparr>"
| "describeErrorCode UPLOAD_MIME_NOT_ALLOWED =
     \<lparr>summary = ''The type is not on the allow-list, declared or detected.'',
      clientAction = ''Upload an accepted file type.''\<rparr>"
| "describeErrorCode UPLOAD_OBJECT_MISSING =
     \<lparr>summary = ''Confirm ran but no object was stored under the issued key.'',
      clientAction = ''Upload the bytes with the policy, then confirm.''\<rparr>"
| "describeErrorCode UPLOAD_CONTENT_MISMATCH =
     \<lparr>summary = ''The stored bytes do not match what was declared.'',
      clientAction = ''Presign again with the real size and type.''\<rparr>"
| "describeErrorCode UPLOAD_FILENAME_INVALID =
     \<lparr>summary = ''The filename is empty after sanitisation.'',
      clientAction = ''Send a filename with at least one usable character.''\<rparr>"
| "describeErrorCode AUDIT_ENTRY_INVALID =
     \<lparr>summary = ''An audit entry did not match the published contract.'',
      clientAction = ''None: this is a server-side contract failure.''\<rparr>"

section \<open>Domain exceptions\<close>

datatype domain_error_kind = Malformed | Validation | NotFound | Conflict | Forbidden

record field_error =
  fe_path :: string
  fe_code :: string
  fe_message :: string
  fe_rule :: "string option"

record domain_exception =
  de_kind :: domain_error_kind
  de_code :: error_code
  de_detail :: "string option"
  de_errors :: "field_error list"
  de_permanent :: bool

text \<open>The constructor's defaults: no field errors, permanent unless told otherwise.\<close>

definition DomainException ::
  "domain_error_kind \<Rightarrow> error_code \<Rightarrow> string option \<Rightarrow> field_error list option \<Rightarrow> bool option \<Rightarrow> domain_exception"
where
  "DomainException kind code detail errors permanent =
     \<lparr>de_kind = kind, de_code = code, de_detail = detail,
      de_errors = (case errors of None \<Rightarrow> [] | Some es \<Rightarrow> es),
      de_permanent = (case permanent of None \<Rightarrow> True | Some p \<Rightarrow> p)\<rparr>"

text \<open>\<open>Error.message\<close> of a domain exception: the detail, else the code.\<close>

definition exception_message :: "domain_exception \<Rightarrow> string" where
  "exception_message e = (case de_detail e of Some d \<Rightarrow> d | None \<Rightarrow> wire_code (de_code e))"

datatype failure =
    DomainFailure domain_exception
  | PlainError string
  | HttpFailure nat string

definition isDomainException :: "failure \<Rightarrow> bool" where
  "isDomainException e = (case e of DomainFailure _ \<Rightarrow> True | _ \<Rightarrow> False)"

text \<open>The factory \<open>DomainErrors\<close>.\<close>

definition malformed :: "error_code \<Rightarrow> string \<Rightarrow> failure" where
  "malformed code detail = DomainFailure (DomainException Malformed code (Some detail) None None)"

definition validation_with :: "error_code \<Rightarrow> string \<Rightarrow> field_error list \<Rightarrow> failure" where
  "validation_with code detail errors =
     DomainFailure (DomainException Validation code (Some detail) (Some errors) None)"

abbreviation validation :: "error_code \<Rightarrow> string \<Rightarrow> failure" where
  "validation code detail \<equiv> validation_with code detail []"

definition notFound :: "error_code \<Rightarrow> string \<Rightarrow> failure" where
  "notFound code detail = DomainFailure (DomainException NotFound code (Some detail) None None)"

definition conflict :: "error_code \<Rightarrow> string \<Rightarrow> bool \<Rightarrow> failure" where
  "conflict code detail permanent =
     DomainFailure (DomainException Conflict code (Some detail) None (Some permanent))"

definition forbidden :: "error_code \<Rightarrow> string \<Rightarrow> failure" where
  "forbidden code detail = DomainFailure (DomainException Forbidden code (Some detail) None None)"

lemmas domain_errors =
  malformed_def validation_with_def notFound_def conflict_def forbidden_def DomainException_def

definition permanent :: "failure \<Rightarrow> bool" where
  "permanent e = (case e of DomainFailure d \<Rightarrow> de_permanent d | _ \<Rightarrow> False)"

definition code_of :: "failure \<Rightarrow> error_code option" where
  "code_of e = (case e of DomainFailure d \<Rightarrow> Some (de_code d) | _ \<Rightarrow> None)"

lemma code_of_domain_errors [simp]:
  "code_of (malformed c d) = Some c" "code_of (validation_with c d es) = Some c"
  "code_of (notFound c d) = Some c" "code_of (conflict c d p) = Some c" "code_of (forbidden c d) = Some c"
  by (simp_all add: code_of_def domain_errors)

lemma permanent_domain_errors [simp]:
  "permanent (malformed c d)" "permanent (validation_with c d es)" "permanent (notFound c d)"
  "permanent (conflict c d p) = p" "permanent (forbidden c d)"
  by (simp_all add: permanent_def domain_errors)

lemma isDomainException_domain_errors [simp]:
  "isDomainException (malformed c d)" "isDomainException (validation_with c d es)"
  "isDomainException (notFound c d)" "isDomainException (conflict c d p)" "isDomainException (forbidden c d)"
  by (simp_all add: isDomainException_def domain_errors)

end
