(* ===== verification/Js_Date.thy ===== *)
theory Js_Date
  imports Prelude
begin

text \<open>
  \<open>Date.prototype.toISOString\<close> and \<open>new Date(string)\<close> on the ISO date-time format, over dates as
  milliseconds since the epoch. Serialised timestamps (cursors, event envelopes, response views)
  are built from these two, and \<open>date_parse_toISOString\<close> is the round trip they rely on.
\<close>

definition ms_per_day :: int where
  "ms_per_day = 86400000"

definition civil_from_days :: "int \<Rightarrow> int \<times> int \<times> int" where
  "civil_from_days z =
     (let z' = z + 719468; era = z' div 146097; doe = z' mod 146097;
          yoe = (doe - doe div 1460 + doe div 36524 - doe div 146096) div 365;
          doy = doe - (365 * yoe + yoe div 4 - yoe div 100);
          mp = (5 * doy + 2) div 153;
          d = doy - (153 * mp + 2) div 5 + 1;
          m = (if mp < 10 then mp + 3 else mp - 9)
      in (yoe + era * 400 + (if m \<le> 2 then 1 else 0), m, d))"

definition days_from_civil :: "int \<Rightarrow> int \<Rightarrow> int \<Rightarrow> int" where
  "days_from_civil y m d =
     (let y' = (if m \<le> 2 then y - 1 else y); era = y' div 400; yoe = y' mod 400;
          mp = (m + 9) mod 12; doy = (153 * mp + 2) div 5 + d - 1
      in era * 146097 + (yoe * 365 + yoe div 4 - yoe div 100 + doy) - 719468)"

fun pad :: "nat \<Rightarrow> nat \<Rightarrow> string" where
  "pad 0 n = []"
| "pad (Suc k) n = pad k (n div 10) @ [char_of (48 + n mod 10)]"

definition iso_year :: "int \<Rightarrow> string" where
  "iso_year y =
     (if 0 \<le> y \<and> y \<le> 9999 then pad 4 (nat y)
      else if y < 0 then ''-'' @ pad 6 (nat (- y)) else ''+'' @ pad 6 (nat y))"

definition toISOString :: "date \<Rightarrow> string" where
  "toISOString t =
     (let (y, m, d) = civil_from_days (t div ms_per_day); tod = nat (t mod ms_per_day)
      in iso_year y @ ''-'' @ pad 2 (nat m) @ ''-'' @ pad 2 (nat d) @ ''T''
         @ pad 2 (tod div 3600000) @ '':'' @ pad 2 (tod div 60000 mod 60) @ '':''
         @ pad 2 (tod div 1000 mod 60) @ ''.'' @ pad 3 (tod mod 1000) @ ''Z'')"

fun num_acc :: "nat \<Rightarrow> string \<Rightarrow> nat option" where
  "num_acc acc [] = Some acc"
| "num_acc acc (c # cs) =
     (if 48 \<le> code_unit c \<and> code_unit c \<le> 57 then num_acc (acc * 10 + (code_unit c - 48)) cs else None)"

definition num :: "string \<Rightarrow> nat option" where
  "num s = (if s = [] then None else num_acc 0 s)"

text \<open>The fraction of a second: its first three digits count.\<close>

definition fraction_ms :: "string \<Rightarrow> nat option" where
  "fraction_ms r =
     (if r = ''Z'' then Some 0
      else if r \<noteq> [] \<and> hd r = CHR ''.'' \<and> last r = CHR ''Z''
      then map_option (\<lambda>_. the (num (take 3 (butlast (tl r) @ ''00'')))) (num (butlast (tl r)))
      else None)"

definition date_fields :: "int \<Rightarrow> string \<Rightarrow> date option" where
  "date_fields y r =
     (if take 1 r = ''-'' \<and> take 1 (drop 3 r) = ''-'' \<and> take 1 (drop 6 r) = ''T''
         \<and> take 1 (drop 9 r) = '':'' \<and> take 1 (drop 12 r) = '':'' then
        (case (num (take 2 (drop 1 r)), num (take 2 (drop 4 r)), num (take 2 (drop 7 r)),
               num (take 2 (drop 10 r)), num (take 2 (drop 13 r)), fraction_ms (drop 15 r)) of
           (Some mo, Some da, Some h, Some mi, Some s, Some ms) \<Rightarrow>
             if 1 \<le> mo \<and> mo \<le> 12 \<and> 1 \<le> da \<and> da \<le> 31 \<and> h \<le> 23 \<and> mi \<le> 59 \<and> s \<le> 59
             then Some (days_from_civil y (int mo) (int da) * ms_per_day
                        + int (((h * 60 + mi) * 60 + s) * 1000 + ms))
             else None
         | _ \<Rightarrow> None)
      else None)"

definition date_parse :: "string \<Rightarrow> date option" where
  "date_parse s =
     (if take 1 s = ''-'' then
        (case num (take 6 (drop 1 s)) of Some y \<Rightarrow> date_fields (- int y) (drop 7 s) | None \<Rightarrow> None)
      else if take 1 s = ''+'' then
        (case num (take 6 (drop 1 s)) of Some y \<Rightarrow> date_fields (int y) (drop 7 s) | None \<Rightarrow> None)
      else (case num (take 4 s) of Some y \<Rightarrow> date_fields (int y) (drop 4 s) | None \<Rightarrow> None))"

text \<open>The range of an ECMAScript time value.\<close>

definition valid_date :: "date \<Rightarrow> bool" where
  "valid_date t \<longleftrightarrow> \<bar>t\<bar> \<le> 8640000000000000"

section \<open>The calendar round trip\<close>

lemma year_of_era_bounds:
  fixes doe :: int
  assumes "0 \<le> doe" "doe < 146097"
  defines "yoe \<equiv> (doe - doe div 1460 + doe div 36524 - doe div 146096) div 365"
  shows "0 \<le> yoe \<and> yoe \<le> 399 \<and> 0 \<le> doe - (365 * yoe + yoe div 4 - yoe div 100)
     \<and> doe - (365 * yoe + yoe div 4 - yoe div 100) \<le> 365"
proof -
  define a b c where "a = doe div 1460" and "b = doe div 36524" and "c = doe div 146096"
  have a: "1460 * a \<le> doe" "doe < 1460 * a + 1460" unfolding a_def by linarith+
  have b: "36524 * b \<le> doe" "doe < 36524 * b + 36524" unfolding b_def by linarith+
  have c: "146096 * c \<le> doe" "doe < 146096 * c + 146096" unfolding c_def by linarith+
  have y: "365 * yoe \<le> doe - a + b - c" "doe - a + b - c < 365 * yoe + 365"
    unfolding yoe_def a_def b_def c_def by linarith+
  define p q where "p = yoe div 4" and "q = yoe div 100"
  have p: "4 * p \<le> yoe" "yoe < 4 * p + 4" unfolding p_def by linarith+
  have q: "100 * q \<le> yoe" "yoe < 100 * q + 100" unfolding q_def by linarith+
  have b5: "b \<in> {0,1,2,3,4}" using b assms(1,2) by auto
  have c2: "c \<in> {0,1}" using c assms(1,2) by auto
  have yb: "0 \<le> yoe" "yoe \<le> 399" using y a b c b5 c2 assms(1,2) by auto
  have pa: "p \<le> a" using y(1) a b c p b5 c2 by (elim insertE emptyE) auto
  have "b - c \<le> q" using y(2) a b q b5 c2 c yb by (elim insertE emptyE) auto
  then have lo: "0 \<le> doe - (365 * yoe + p - q)" using y pa by linarith
  have "q \<le> b - c" using y(1) a b q b5 c2 c yb by (elim insertE emptyE) auto
  moreover have "a \<le> p + 1" using y(2) a b p b5 c2 c yb by (elim insertE emptyE) auto
  ultimately have "doe - (365 * yoe + p - q) \<le> 365" using y(2) by linarith
  with lo show ?thesis using yb by (simp add: p_def q_def)
qed

lemma civil_from_days_props:
  assumes "civil_from_days z = (y, m, d)"
  shows "days_from_civil y m d = z" and "1 \<le> m \<and> m \<le> 12" and "1 \<le> d \<and> d \<le> 31"
    and "400 * ((z + 719468) div 146097) \<le> y \<and> y \<le> 400 * ((z + 719468) div 146097) + 400"
proof -
  define doe era where "doe = (z + 719468) mod 146097" and "era = (z + 719468) div 146097"
  define yoe where "yoe = (doe - doe div 1460 + doe div 36524 - doe div 146096) div 365"
  define doy where "doy = doe - (365 * yoe + yoe div 4 - yoe div 100)"
  define mp where "mp = (5 * doy + 2) div 153"
  have z: "z = era * 146097 + doe - 719468" unfolding doe_def era_def by simp
  have bounds: "0 \<le> yoe" "yoe \<le> 399" "0 \<le> doy" "doy \<le> 365"
  proof -
    have "0 \<le> doe" "doe < 146097" unfolding doe_def by simp_all
    then show "0 \<le> yoe" "yoe \<le> 399" "0 \<le> doy" "doy \<le> 365"
      using year_of_era_bounds [of doe, folded yoe_def, folded doy_def] by blast+
  qed
  have mp: "0 \<le> mp" "mp \<le> 11" "153 * mp \<le> 5 * doy + 2" "5 * doy + 2 < 153 * mp + 153"
  proof -
    have "0 \<le> 5 * doy + 2" "5 * doy + 2 < 153 * 12" using bounds(3,4) by linarith+
    moreover show "153 * mp \<le> 5 * doy + 2" "5 * doy + 2 < 153 * mp + 153" unfolding mp_def by linarith+
    ultimately show "0 \<le> mp" "mp \<le> 11" by linarith+
  qed
  have raw: "yoe + era * 400 + (if (if mp < 10 then mp + 3 else mp - 9) \<le> 2 then 1 else 0) = y"
    "(if mp < 10 then mp + 3 else mp - 9) = m" "doy - (153 * mp + 2) div 5 + 1 = d"
    using assms unfolding civil_from_days_def Let_def prod.inject
    unfolding doe_def [symmetric] era_def [symmetric]
    unfolding yoe_def [symmetric] unfolding doy_def [symmetric] unfolding mp_def [symmetric]
    by blast+
  have eqs: "y = yoe + era * 400 + (if m \<le> 2 then 1 else 0)" "m = (if mp < 10 then mp + 3 else mp - 9)"
    "d = doy - (153 * mp + 2) div 5 + 1"
    by (simp_all only: raw(2) raw(3) raw(1) [unfolded raw(2), symmetric])
  show "1 \<le> m \<and> m \<le> 12" using eqs(2) mp(1,2) by (simp split: if_splits)
  have "5 * ((153 * mp + 2) div 5) \<le> 153 * mp + 2" "153 * mp + 2 < 5 * ((153 * mp + 2) div 5) + 5" by linarith+
  then show "1 \<le> d \<and> d \<le> 31" using eqs(3) mp by linarith
  show "400 * ((z + 719468) div 146097) \<le> y \<and> y \<le> 400 * ((z + 719468) div 146097) + 400"
    using eqs(1) bounds unfolding era_def by simp
  have "(if m \<le> 2 then y - 1 else y) = yoe + era * 400" using eqs(1) by simp
  moreover have "(m + 9) mod 12 = mp" using eqs(2) mp(1,2) by (simp split: if_splits)
  moreover have "(yoe + era * 400) div 400 = era" "(yoe + era * 400) mod 400 = yoe" using bounds(1,2) by simp_all
  moreover have "(153 * mp + 2) div 5 + d - 1 = doy" using eqs(3) by simp
  ultimately have "days_from_civil y m d = era * 146097 + (yoe * 365 + yoe div 4 - yoe div 100 + doy) - 719468"
    unfolding days_from_civil_def Let_def by simp
  then show "days_from_civil y m d = z" unfolding z doy_def by simp
qed

lemma length_pad [simp]: "length (pad k n) = k"
  by (induction k arbitrary: n) auto

lemma num_acc_append: "num_acc acc (xs @ ys) = Option.bind (num_acc acc xs) (\<lambda>a. num_acc a ys)"
  by (induction xs arbitrary: acc) auto

lemma num_acc_pad: "n < 10 ^ k \<Longrightarrow> num_acc 0 (pad k n) = Some n"
proof (induction k arbitrary: n)
  case 0
  then show ?case by simp
next
  case (Suc k)
  then have "n div 10 < 10 ^ k" by (simp add: less_mult_imp_div_less mult.commute)
  moreover have "code_unit (char_of (48 + n mod 10)) = 48 + n mod 10" by (simp add: of_char_of)
  ultimately show ?case using Suc.IH by (simp add: num_acc_append del: of_char_of)
qed

lemma num_pad [simp]: "0 < k \<Longrightarrow> n < 10 ^ k \<Longrightarrow> num (pad k n) = Some n"
  by (cases k) (auto simp: num_def num_acc_pad simp del: pad.simps dest: arg_cong [of _ _ length])

lemma fraction_ms_pad: "n < 1000 \<Longrightarrow> fraction_ms (''.'' @ pad 3 n @ ''Z'') = Some n"
  by (simp add: fraction_ms_def butlast_append)

lemma pad_head: "0 < k \<Longrightarrow> pad k n = c # cs \<Longrightarrow> 48 \<le> code_unit c \<and> code_unit c \<le> 57"
proof (induction k arbitrary: n c cs)
  case (Suc k)
  show ?case
  proof (cases k)
    case 0
    with Suc.prems show ?thesis by (auto simp: of_char_of)
  next
    case (Suc j)
    then have "length (pad k (n div 10)) \<noteq> 0" by (simp del: pad.simps)
    then obtain a as where hd: "pad k (n div 10) = a # as" by (cases "pad k (n div 10)") auto
    with Suc.prems(2) have "a = c" by simp
    with Suc.IH [of "n div 10" a as] hd Suc show ?thesis by simp
  qed
qed simp

lemma date_fields_format:
  assumes "1 \<le> mo" "mo \<le> 12" "1 \<le> da" "da \<le> 31" "h \<le> 23" "mi \<le> 59" "s \<le> 59" "ms < 1000"
  shows "date_fields y (''-'' @ pad 2 mo @ ''-'' @ pad 2 da @ ''T'' @ pad 2 h @ '':'' @ pad 2 mi
           @ '':'' @ pad 2 s @ ''.'' @ pad 3 ms @ ''Z'')
         = Some (days_from_civil y (int mo) (int da) * ms_per_day + int (((h * 60 + mi) * 60 + s) * 1000 + ms))"
proof -
  have num2: "num (pad 2 n) = Some n" if "n < 100" for n using that num_pad [of 2 n] by simp
  have "mo < 100" "da < 100" "h < 100" "mi < 100" "s < 100" using assms by auto
  then show ?thesis
    unfolding date_fields_def using assms fraction_ms_pad [of ms] by (simp add: num2 del: pad.simps)
qed

lemma time_of_day_split:
  fixes n :: nat
  shows "((n div 3600000 * 60 + n div 60000 mod 60) * 60 + n div 1000 mod 60) * 1000 + n mod 1000 = n"
proof -
  have "n div 60000 = n div 1000 div 60" "n div 3600000 = n div 1000 div 60 div 60" by (simp_all add: div_mult2_eq [symmetric])
  then show ?thesis by (metis div_mult_mod_eq)
qed

theorem date_parse_toISOString:
  assumes "valid_date t"
  shows "date_parse (toISOString t) = Some t"
proof -
  obtain y m d where civ: "civil_from_days (t div ms_per_day) = (y, m, d)" by (cases "civil_from_days (t div ms_per_day)")
  note cp = civil_from_days_props [OF civ]
  define tod where "tod = nat (t mod ms_per_day)"
  have tod: "tod < 86400000" "int tod = t mod ms_per_day" unfolding tod_def ms_per_day_def by simp_all
  have tr: "-8640000000000000 \<le> t" "t \<le> 8640000000000000" using assms unfolding valid_date_def by auto
  then have "-100000000 \<le> t div ms_per_day" "t div ms_per_day \<le> 100000000" unfolding ms_per_day_def by linarith+
  then have yr: "-999999 \<le> y" "y \<le> 999999" using cp(4) by linarith+
  let ?r = "''-'' @ pad 2 (nat m) @ ''-'' @ pad 2 (nat d) @ ''T'' @ pad 2 (tod div 3600000) @ '':''
      @ pad 2 (tod div 60000 mod 60) @ '':'' @ pad 2 (tod div 1000 mod 60) @ ''.'' @ pad 3 (tod mod 1000) @ ''Z''"
  have str: "toISOString t = iso_year y @ ?r" unfolding toISOString_def civ tod_def Let_def by (simp only: prod.case)
  have "tod div 3600000 \<le> 23" using tod(1) by simp
  then have fields: "date_fields y ?r = Some t" for y'
  proof -
    have "date_fields y ?r = Some (days_from_civil y (int (nat m)) (int (nat d)) * ms_per_day + int tod)"
      using \<open>tod div 3600000 \<le> 23\<close> cp(2,3) by (subst date_fields_format) (auto simp only: time_of_day_split)
    also have "\<dots> = Some t" using cp(1,2,3) tod(2) by simp
    finally show ?thesis .
  qed
  consider "0 \<le> y \<and> y \<le> 9999" | "y < 0" | "y > 9999" by linarith
  then show ?thesis
  proof cases
    case 1
    obtain c cs where c: "pad 4 (nat y) = c # cs" by (cases "pad 4 (nat y)") (auto dest: arg_cong [of _ _ length])
    then have "48 \<le> code_unit c" using pad_head [of 4 "nat y" c cs] by simp
    then have "c \<noteq> CHR ''-''" "c \<noteq> CHR ''+''" by auto
    moreover have "take 1 (pad 4 (nat y) @ ?r) = [c]" using c by simp
    moreover have "num (pad 4 (nat y)) = Some (nat y)" using 1 by (intro num_pad) auto
    ultimately show ?thesis using 1 fields unfolding str iso_year_def date_parse_def by (simp del: pad.simps)
  next
    case 2
    then have "num (pad 6 (nat (- y))) = Some (nat (- y))" using yr by (intro num_pad) auto
    then show ?thesis using 2 fields unfolding str iso_year_def date_parse_def by (simp del: pad.simps)
  next
    case 3
    then have "num (pad 6 (nat y)) = Some (nat y)" using yr by (intro num_pad) auto
    then show ?thesis using 3 fields unfolding str iso_year_def date_parse_def by (simp del: pad.simps)
  qed
qed

end
