(* ===== verification/Events.thy ===== *)
theory Events
  imports Errors Js_Date
begin

text \<open>
  The integration-event contracts (\<open>src/src/contracts/events\<close>): JavaScript values, the schemas of
  \<open>integration-event.ts\<close> and \<open>integration-events.ts\<close> as the checks they state, and
  \<open>createIntegrationEvent\<close>. The string formats that the schema library decides (\<open>z.uuid\<close>,
  \<open>z.email\<close>, \<open>z.iso.datetime\<close>, \<open>z.url\<close>) are the fields of the parameter \<open>zod\<close>.
  The main fact is that an envelope built by \<open>createIntegrationEvent\<close> from a payload its schema
  accepts is parsed back to itself by every consumer.
\<close>

datatype js =
    JsNull
  | JsBool bool
  | JsNum rat
  | JsStr string
  | JsArr "js list"
  | JsObj "(string \<times> js) list"
  | JsOther string \<comment> \<open>any other value, by its \<open>typeof\<close>\<close>

record zod =
  z_uuid7 :: "string \<Rightarrow> bool"
  z_email :: "string \<Rightarrow> bool"
  z_iso_datetime :: "string \<Rightarrow> bool"
  z_url :: "string \<Rightarrow> bool"

section \<open>Schemas\<close>

definition is_str :: "(string \<Rightarrow> bool) \<Rightarrow> js \<Rightarrow> bool" where
  "is_str p v = (case v of JsStr s \<Rightarrow> p s | _ \<Rightarrow> False)"

definition is_bool :: "js \<Rightarrow> bool" where
  "is_bool v = (case v of JsBool _ \<Rightarrow> True | _ \<Rightarrow> False)"

definition is_int :: "(int \<Rightarrow> bool) \<Rightarrow> js \<Rightarrow> bool" where
  "is_int p v = (case v of JsNum r \<Rightarrow> of_int \<lfloor>r\<rfloor> = r \<and> p \<lfloor>r\<rfloor> | _ \<Rightarrow> False)"

definition nonempty :: "string \<Rightarrow> bool" where
  "nonempty s \<longleftrightarrow> s \<noteq> []"

text \<open>An object schema: each field with whether it is optional and what its value must be.\<close>

type_synonym schema = "(string \<times> bool \<times> (js \<Rightarrow> bool)) list"

fun parse_fields :: "schema \<Rightarrow> (string \<times> js) list \<Rightarrow> (string \<times> js) list option" where
  "parse_fields [] kvs = Some []"
| "parse_fields ((k, optional, ok) # fs) kvs =
     (case map_of kvs k of
        None \<Rightarrow> if optional then parse_fields fs kvs else None
      | Some v \<Rightarrow> if ok v then map_option ((#) (k, v)) (parse_fields fs kvs) else None)"

definition z_object :: "schema \<Rightarrow> js \<Rightarrow> js option" where
  "z_object s v = (case v of JsObj kvs \<Rightarrow> map_option JsObj (parse_fields s kvs) | _ \<Rightarrow> None)"

section \<open>Event names and payload schemas\<close>

datatype integration_event_name =
    USER_REGISTERED | USER_EMAIL_VERIFIED | USER_DELETED | UPLOAD_CONFIRMED
  | ORGANIZATION_ARCHIVED | ORGANIZATION_RESTORED | ORGANIZATION_PURGED

primrec event_name :: "integration_event_name \<Rightarrow> string" where
  "event_name USER_REGISTERED = ''users.registered''"
| "event_name USER_EMAIL_VERIFIED = ''users.email_verified''"
| "event_name USER_DELETED = ''users.deleted''"
| "event_name UPLOAD_CONFIRMED = ''uploads.confirmed''"
| "event_name ORGANIZATION_ARCHIVED = ''organizations.archived''"
| "event_name ORGANIZATION_RESTORED = ''organizations.restored''"
| "event_name ORGANIZATION_PURGED = ''organizations.purged''"

definition integrationEventNames :: "integration_event_name list" where
  "integrationEventNames =
     [USER_REGISTERED, USER_EMAIL_VERIFIED, USER_DELETED, UPLOAD_CONFIRMED,
      ORGANIZATION_ARCHIVED, ORGANIZATION_RESTORED, ORGANIZATION_PURGED]"

definition event_of_name :: "string \<Rightarrow> integration_event_name option" where
  "event_of_name s = find (\<lambda>n. event_name n = s) integrationEventNames"

definition userRegisteredPayloadSchema :: "zod \<Rightarrow> schema" where
  "userRegisteredPayloadSchema z =
     [(''userId'', False, is_str (z_uuid7 z)), (''email'', False, is_str (z_email z)),
      (''emailVerified'', False, is_bool), (''registeredAt'', False, is_str (z_iso_datetime z))]"

definition userEmailVerifiedPayloadSchema :: "zod \<Rightarrow> schema" where
  "userEmailVerifiedPayloadSchema z =
     [(''userId'', False, is_str (z_uuid7 z)), (''email'', False, is_str (z_email z)),
      (''verifiedAt'', False, is_str (z_iso_datetime z))]"

definition userDeletedPayloadSchema :: "zod \<Rightarrow> schema" where
  "userDeletedPayloadSchema z =
     [(''userId'', False, is_str (z_uuid7 z)), (''deletedAt'', False, is_str (z_iso_datetime z))]"

definition uploadConfirmedPayloadSchema :: "zod \<Rightarrow> schema" where
  "uploadConfirmedPayloadSchema z =
     [(''organizationId'', False, is_str (z_uuid7 z)), (''fileId'', False, is_str (z_uuid7 z)),
      (''ownerId'', False, is_str (z_uuid7 z)), (''storageKey'', False, is_str nonempty),
      (''mimeType'', False, is_str nonempty), (''sizeBytes'', False, is_int (\<lambda>n. 0 \<le> n)),
      (''confirmedAt'', False, is_str (z_iso_datetime z))]"

definition organizationLifecyclePayloadSchema :: "zod \<Rightarrow> schema" where
  "organizationLifecyclePayloadSchema z =
     [(''organizationId'', False, is_str (z_uuid7 z)), (''actorId'', False, is_str (z_uuid7 z))]"

primrec INTEGRATION_EVENT_SCHEMAS :: "integration_event_name \<Rightarrow> zod \<Rightarrow> schema" where
  "INTEGRATION_EVENT_SCHEMAS USER_REGISTERED = userRegisteredPayloadSchema"
| "INTEGRATION_EVENT_SCHEMAS USER_EMAIL_VERIFIED = userEmailVerifiedPayloadSchema"
| "INTEGRATION_EVENT_SCHEMAS USER_DELETED = userDeletedPayloadSchema"
| "INTEGRATION_EVENT_SCHEMAS UPLOAD_CONFIRMED = uploadConfirmedPayloadSchema"
| "INTEGRATION_EVENT_SCHEMAS ORGANIZATION_ARCHIVED = organizationLifecyclePayloadSchema"
| "INTEGRATION_EVENT_SCHEMAS ORGANIZATION_RESTORED = organizationLifecyclePayloadSchema"
| "INTEGRATION_EVENT_SCHEMAS ORGANIZATION_PURGED = organizationLifecyclePayloadSchema"

section \<open>Envelopes\<close>

record integration_event =
  ie_eventId :: uuid
  ie_name :: string
  ie_occurredAt :: string
  ie_schemaVersion :: int
  ie_correlationId :: "uuid option"
  ie_payload :: js

definition CURRENT_SCHEMA_VERSION :: int where
  "CURRENT_SCHEMA_VERSION = 1"

definition integrationEventEnvelopeSchema :: "zod \<Rightarrow> schema" where
  "integrationEventEnvelopeSchema z =
     [(''eventId'', False, is_str (z_uuid7 z)), (''name'', False, is_str nonempty),
      (''occurredAt'', False, is_str (z_iso_datetime z)),
      (''schemaVersion'', False, is_int (\<lambda>n. 0 < n)),
      (''correlationId'', True, is_str (z_uuid7 z))]"

text \<open>The JavaScript object an event is, with \<open>correlationId\<close> present only when it is set.\<close>

definition event_to_js :: "integration_event \<Rightarrow> js" where
  "event_to_js e =
     JsObj ([(''eventId'', JsStr (ie_eventId e)), (''name'', JsStr (ie_name e)),
             (''occurredAt'', JsStr (ie_occurredAt e)), (''schemaVersion'', JsNum (of_int (ie_schemaVersion e)))]
            @ (case ie_correlationId e of None \<Rightarrow> [] | Some c \<Rightarrow> [(''correlationId'', JsStr c)])
            @ [(''payload'', ie_payload e)])"

definition str_of :: "js \<Rightarrow> string" where
  "str_of v = (case v of JsStr s \<Rightarrow> s | _ \<Rightarrow> [])"

definition int_of :: "js \<Rightarrow> int" where
  "int_of v = (case v of JsNum r \<Rightarrow> \<lfloor>r\<rfloor> | _ \<Rightarrow> 0)"

definition field :: "(string \<times> js) list \<Rightarrow> string \<Rightarrow> js" where
  "field kvs k = (case map_of kvs k of Some v \<Rightarrow> v | None \<Rightarrow> JsOther ''undefined'')"

definition parseIntegrationEvent :: "zod \<Rightarrow> integration_event_name \<Rightarrow> js \<Rightarrow> integration_event option" where
  "parseIntegrationEvent z name raw =
     (case raw of
        JsObj kvs \<Rightarrow>
          (case parse_fields (integrationEventEnvelopeSchema z) kvs of
             None \<Rightarrow> None
           | Some env \<Rightarrow>
               if field env ''name'' \<noteq> JsStr (event_name name) then None
               else (case z_object (INTEGRATION_EVENT_SCHEMAS name z) (field kvs ''payload'') of
                       None \<Rightarrow> None
                     | Some payload \<Rightarrow>
                         Some \<lparr>ie_eventId = str_of (field env ''eventId''), ie_name = event_name name,
                               ie_occurredAt = str_of (field env ''occurredAt''),
                               ie_schemaVersion = int_of (field env ''schemaVersion''),
                               ie_correlationId = map_option str_of (map_of env ''correlationId''),
                               ie_payload = payload\<rparr>))
      | _ \<Rightarrow> None)"

text \<open>\<open>namedEnvelopeSchema\<close>: the envelope with the name restricted to the declared ones.\<close>

definition parseNamedEnvelope :: "zod \<Rightarrow> js \<Rightarrow> integration_event_name option" where
  "parseNamedEnvelope z raw =
     (case raw of
        JsObj kvs \<Rightarrow>
          (case parse_fields (integrationEventEnvelopeSchema z) kvs of
             None \<Rightarrow> None
           | Some env \<Rightarrow> event_of_name (str_of (field env ''name'')))
      | _ \<Rightarrow> None)"

definition parseAnyIntegrationEvent :: "zod \<Rightarrow> js \<Rightarrow> integration_event option" where
  "parseAnyIntegrationEvent z raw =
     (case parseNamedEnvelope z raw of
        None \<Rightarrow> None
      | Some name \<Rightarrow> parseIntegrationEvent z name raw)"

definition createIntegrationEvent ::
  "uuid \<Rightarrow> date \<Rightarrow> integration_event_name \<Rightarrow> js \<Rightarrow> uuid option \<Rightarrow> integration_event"
where
  "createIntegrationEvent newId now name payload correlationId =
     \<lparr>ie_eventId = newId, ie_name = event_name name, ie_occurredAt = toISOString now,
      ie_schemaVersion = CURRENT_SCHEMA_VERSION, ie_correlationId = correlationId,
      ie_payload = payload\<rparr>"

section \<open>Lemmas\<close>

lemma is_str_JsStr [simp]: "is_str p (JsStr s) = p s"
  by (simp add: is_str_def)

lemma event_of_name_event_name [simp]: "event_of_name (event_name n) = Some n"
  by (cases n) (simp_all add: event_of_name_def integrationEventNames_def)

lemma event_name_inj: "event_name a = event_name b \<Longrightarrow> a = b"
  by (metis event_of_name_event_name option.inject)

lemma event_of_name_Some: "event_of_name s = Some n \<Longrightarrow> s = event_name n"
  by (auto simp: event_of_name_def find_Some_iff)

lemma event_name_nonempty [simp]: "event_name n \<noteq> []"
  by (cases n) simp_all

text \<open>An envelope is well formed when the schema's checks hold of its fields.\<close>

definition valid_envelope :: "zod \<Rightarrow> integration_event \<Rightarrow> bool" where
  "valid_envelope z e \<longleftrightarrow> z_uuid7 z (ie_eventId e) \<and> z_iso_datetime z (ie_occurredAt e)
     \<and> 0 < ie_schemaVersion e \<and> (case ie_correlationId e of None \<Rightarrow> True | Some c \<Rightarrow> z_uuid7 z c)"

definition valid_event :: "zod \<Rightarrow> integration_event \<Rightarrow> bool" where
  "valid_event z e \<longleftrightarrow> valid_envelope z e \<and>
     (case event_of_name (ie_name e) of
        None \<Rightarrow> False
      | Some n \<Rightarrow> z_object (INTEGRATION_EVENT_SCHEMAS n z) (ie_payload e) = Some (ie_payload e))"

definition envelope_fields :: "integration_event \<Rightarrow> (string \<times> js) list" where
  "envelope_fields e =
     [(''eventId'', JsStr (ie_eventId e)), (''name'', JsStr (ie_name e)),
      (''occurredAt'', JsStr (ie_occurredAt e)), (''schemaVersion'', JsNum (of_int (ie_schemaVersion e)))]
     @ (case ie_correlationId e of None \<Rightarrow> [] | Some c \<Rightarrow> [(''correlationId'', JsStr c)])"

lemma event_to_js_fields: "event_to_js e = JsObj (envelope_fields e @ [(''payload'', ie_payload e)])"
  by (simp add: event_to_js_def envelope_fields_def)

lemma map_of_envelope [simp]:
  "map_of (envelope_fields e) ''eventId'' = Some (JsStr (ie_eventId e))"
  "map_of (envelope_fields e) ''name'' = Some (JsStr (ie_name e))"
  "map_of (envelope_fields e) ''occurredAt'' = Some (JsStr (ie_occurredAt e))"
  "map_of (envelope_fields e) ''schemaVersion'' = Some (JsNum (of_int (ie_schemaVersion e)))"
  "map_of (envelope_fields e) ''correlationId'' = map_option JsStr (ie_correlationId e)"
  "map_of (envelope_fields e) ''payload'' = None"
  by (simp_all add: envelope_fields_def split: option.split)

lemma parse_envelope_event:
  assumes "valid_envelope z e" and "ie_name e \<noteq> []"
  shows "parse_fields (integrationEventEnvelopeSchema z) (envelope_fields e @ [(''payload'', v)])
           = Some (envelope_fields e)"
  using assms
  by (cases "ie_correlationId e")
     (simp_all add: integrationEventEnvelopeSchema_def map_add_def is_int_def nonempty_def valid_envelope_def,
      simp_all add: envelope_fields_def)

lemma parse_event_payload:
  assumes n: "event_of_name (ie_name e) = Some n" and env: "valid_envelope z e"
    and p: "z_object (INTEGRATION_EVENT_SCHEMAS n z) (ie_payload e) = Some payload"
  shows "parseAnyIntegrationEvent z (event_to_js e) = Some (e\<lparr>ie_payload := payload\<rparr>)"
proof -
  have name: "ie_name e = event_name n" using n by (rule event_of_name_Some)
  have fields: "parse_fields (integrationEventEnvelopeSchema z) (envelope_fields e @ [(''payload'', ie_payload e)])
      = Some (envelope_fields e)"
    by (rule parse_envelope_event [OF env]) (simp add: name)
  have "parseNamedEnvelope z (event_to_js e) = Some n"
    unfolding parseNamedEnvelope_def event_to_js_fields using fields n
    by (simp add: field_def str_of_def)
  moreover have "parseIntegrationEvent z n (event_to_js e) = Some (e\<lparr>ie_payload := payload\<rparr>)"
    unfolding parseIntegrationEvent_def event_to_js_fields using fields p
    by (simp add: field_def str_of_def int_of_def map_add_def name option.map_comp comp_def option.map_ident)
  ultimately show ?thesis by (simp add: parseAnyIntegrationEvent_def)
qed

lemma parse_event_to_js:
  assumes "valid_event z e"
  shows "parseAnyIntegrationEvent z (event_to_js e) = Some e"
  using assms parse_event_payload [of e _ z "ie_payload e"]
  by (auto simp: valid_event_def split: option.splits)

lemma parseAny_name: "parseAnyIntegrationEvent z raw = Some e \<Longrightarrow> \<exists>n. ie_name e = event_name n"
  by (auto simp: parseAnyIntegrationEvent_def parseIntegrationEvent_def split: option.splits js.splits if_splits)

lemma createIntegrationEvent_valid:
  assumes "z_uuid7 z newId" and "z_iso_datetime z (toISOString now)"
    and "\<And>c. cid = Some c \<Longrightarrow> z_uuid7 z c"
    and "z_object (INTEGRATION_EVENT_SCHEMAS n z) payload = Some payload"
  shows "valid_event z (createIntegrationEvent newId now n payload cid)"
  using assms
  by (simp add: valid_event_def valid_envelope_def createIntegrationEvent_def CURRENT_SCHEMA_VERSION_def
      split: option.splits)

text \<open>Parsing keeps what it accepts: parsing the parsed value again gives the same value.\<close>

lemma parse_fields_cons:
  assumes "k \<notin> fst ` set s"
  shows "parse_fields s ((k, v) # kvs) = parse_fields s kvs"
  using assms by (induction s kvs rule: parse_fields.induct) (auto split: option.split)

lemma parse_fields_keys: "parse_fields s kvs = Some out \<Longrightarrow> fst ` set out \<subseteq> fst ` set s"
proof (induction s kvs arbitrary: out rule: parse_fields.induct)
  case (2 k optional ok fs kvs)
  show ?case
  proof (cases "map_of kvs k")
    case None
    then show ?thesis using 2(1) [OF None] 2(3) by (auto split: if_splits)
  next
    case (Some v)
    then obtain out' where "ok v" "parse_fields fs kvs = Some out'" "out = (k, v) # out'"
      using 2(3) by (auto split: if_splits)
    then show ?thesis using 2(2) [OF Some] by (simp add: subset_insertI2)
  qed
qed simp

lemma parse_fields_absent: "k \<notin> fst ` set s \<Longrightarrow> parse_fields s kvs = Some out \<Longrightarrow> map_of out k = None"
  using parse_fields_keys [of s kvs out] by (auto simp: map_of_eq_None_iff)

lemma parse_fields_idem:
  assumes "parse_fields s kvs = Some out" and "distinct (map fst s)"
  shows "parse_fields s out = Some out"
  using assms
proof (induction s kvs arbitrary: out rule: parse_fields.induct)
  case (1 kvs)
  then show ?case by simp
next
  case (2 k optional ok fs kvs)
  have k: "k \<notin> fst ` set fs" using 2(4) by simp
  show ?case
  proof (cases "map_of kvs k")
    case None
    then have "parse_fields fs kvs = Some out" and "optional" using 2(3) by (auto split: if_splits)
    then show ?thesis using 2(1) [OF None] 2(4) parse_fields_absent [OF k, of kvs out] by simp
  next
    case (Some v)
    then obtain out' where o: "ok v" "parse_fields fs kvs = Some out'" "out = (k, v) # out'"
      using 2(3) by (auto split: if_splits)
    then show ?thesis using 2(2) [OF Some o(1,2)] 2(4) by (simp add: parse_fields_cons [OF k])
  qed
qed

lemma schema_keys_distinct: "distinct (map fst (INTEGRATION_EVENT_SCHEMAS n z))"
  by (cases n) (simp_all add: userRegisteredPayloadSchema_def userEmailVerifiedPayloadSchema_def
      userDeletedPayloadSchema_def uploadConfirmedPayloadSchema_def organizationLifecyclePayloadSchema_def)

lemma z_object_idem: "z_object s v = Some w \<Longrightarrow> distinct (map fst s) \<Longrightarrow> z_object s w = Some w"
  by (auto simp: z_object_def parse_fields_idem split: js.splits)

lemma parse_fields_mem:
  assumes "parse_fields s kvs = Some out" and "(k, optional, ok) \<in> set s" and "distinct (map fst s)"
  shows "(case map_of out k of None \<Rightarrow> optional | Some v \<Rightarrow> ok v)"
  using assms
proof (induction s kvs arbitrary: out rule: parse_fields.induct)
  case (2 k' optional' ok' fs kvs)
  have k': "k' \<notin> fst ` set fs" and d: "distinct (map fst fs)" using 2(5) by simp_all
  show ?case
  proof (cases "map_of kvs k'")
    case None
    then have o: "parse_fields fs kvs = Some out" "optional'" using 2(3) by (auto split: if_splits)
    then show ?thesis using 2(1) [OF None o(2,1) _ d] 2(4) parse_fields_absent [OF k' o(1)] by auto
  next
    case (Some v)
    then obtain out' where o: "ok' v" "parse_fields fs kvs = Some out'" "out = (k', v) # out'"
      using 2(3) by (auto split: if_splits)
    then show ?thesis using 2(2) [OF Some o(1,2) _ d] 2(4) k' by (cases "k = k'") (auto, force)
  qed
qed simp

lemma parseIntegrationEvent_valid:
  assumes "parseIntegrationEvent z n raw = Some e"
  shows "valid_event z e" and "ie_name e = event_name n"
proof -
  from assms obtain kvs env payload where e:
      "parse_fields (integrationEventEnvelopeSchema z) kvs = Some env"
      "z_object (INTEGRATION_EVENT_SCHEMAS n z) (field kvs ''payload'') = Some payload"
      "e = \<lparr>ie_eventId = str_of (field env ''eventId''), ie_name = event_name n,
            ie_occurredAt = str_of (field env ''occurredAt''),
            ie_schemaVersion = int_of (field env ''schemaVersion''),
            ie_correlationId = map_option str_of (map_of env ''correlationId''), ie_payload = payload\<rparr>"
    by (auto simp: parseIntegrationEvent_def split: js.splits option.splits if_splits)
  have d: "distinct (map fst (integrationEventEnvelopeSchema z))"
    by (simp add: integrationEventEnvelopeSchema_def)
  note m = parse_fields_mem [OF e(1) _ d]
  have 1: "z_uuid7 z (str_of (field env ''eventId''))"
    using m [of "''eventId''" False "is_str (z_uuid7 z)"]
    by (auto simp: integrationEventEnvelopeSchema_def field_def str_of_def is_str_def split: option.splits js.splits)
  have 2: "z_iso_datetime z (str_of (field env ''occurredAt''))"
    using m [of "''occurredAt''" False "is_str (z_iso_datetime z)"]
    by (auto simp: integrationEventEnvelopeSchema_def field_def str_of_def is_str_def split: option.splits js.splits)
  have 3: "0 < int_of (field env ''schemaVersion'')"
    using m [of "''schemaVersion''" False "is_int (\<lambda>n. 0 < n)"]
    by (auto simp: integrationEventEnvelopeSchema_def field_def int_of_def is_int_def split: option.splits js.splits)
  have 4: "case map_of env ''correlationId'' of None \<Rightarrow> True | Some v \<Rightarrow> z_uuid7 z (str_of v)"
    using m [of "''correlationId''" True "is_str (z_uuid7 z)"]
    by (auto simp: integrationEventEnvelopeSchema_def str_of_def is_str_def split: option.splits js.splits)
  show "valid_event z e" using 1 2 3 4 e(3) z_object_idem [OF e(2) schema_keys_distinct]
    by (simp add: valid_event_def valid_envelope_def split: option.splits)
  show "ie_name e = event_name n" using e(3) by simp
qed

lemma parseAny_valid: "parseAnyIntegrationEvent z raw = Some e \<Longrightarrow> valid_event z e"
  by (auto simp: parseAnyIntegrationEvent_def parseIntegrationEvent_valid split: option.splits)

lemma parseAny_idem: "parseAnyIntegrationEvent z raw = Some e \<Longrightarrow> parseAnyIntegrationEvent z (event_to_js e) = Some e"
  by (rule parse_event_to_js) (rule parseAny_valid)

lemma parse_own_event:
  assumes "valid_event z e" and "ie_name e = event_name n"
  shows "parseIntegrationEvent z n (event_to_js e) = Some e"
proof -
  obtain m where m: "parseNamedEnvelope z (event_to_js e) = Some m" "parseIntegrationEvent z m (event_to_js e) = Some e"
    using parse_event_to_js [OF assms(1)] by (auto simp: parseAnyIntegrationEvent_def split: option.splits)
  have "m = n" using parseIntegrationEvent_valid(2) [OF m(2)] assms(2) event_name_inj by simp
  then show ?thesis using m(2) by simp
qed

end
