(* ===== verification/Database.thy ===== *)
theory Database
  imports Events
begin

text \<open>
  The relational state: one record per table of the Prisma schema (\<open>src/prisma/models\<close>, with the
  columns the program reads or writes) and the database as the record of its tables. Enumerated
  columns are datatypes. A nullable column is an \<open>option\<close>.

  \<open>transaction\<close> is the unit of work of \<open>prisma.service.ts\<close> and \<open>prisma-unit-of-work.ts\<close>: a
  body that throws leaves the state as it was, and a transaction inside a transaction is refused.
\<close>

datatype organization_role = Owner | Admin | Member | Viewer

datatype stored_file_status = Pending | Confirmed | Discarded

datatype subscription_status = Trialing | Active | PastDue | Canceled | Paused

record auth_user =
  au_id :: uuid
  au_name :: string
  au_email :: string
  au_emailVerified :: bool
  au_role :: string
  au_createdAt :: date

record organization =
  org_id :: uuid
  org_slug :: string
  org_name :: string
  org_createdAt :: date
  org_archivedAt :: "date option"

record organization_membership =
  om_id :: uuid
  om_organizationId :: uuid
  om_userId :: uuid
  om_role :: organization_role
  om_createdAt :: date

record organization_invitation =
  oi_id :: uuid
  oi_organizationId :: uuid
  oi_email :: string
  oi_role :: organization_role
  oi_tokenHash :: string
  oi_expiresAt :: date
  oi_acceptedAt :: "date option"
  oi_createdAt :: date

record subscription =
  sub_organizationId :: uuid
  sub_planId :: uuid
  sub_status :: subscription_status
  sub_provider :: string
  sub_currentPeriodEnd :: "date option"

record plan =
  pl_id :: uuid
  pl_code :: string
  pl_name :: string
  pl_active :: bool
  pl_entitlements :: js

record stored_file_row =
  sf_id :: uuid
  sf_organizationId :: uuid
  sf_ownerId :: uuid
  sf_storageKey :: string
  sf_filename :: string
  sf_declaredMimeType :: string
  sf_declaredSizeBytes :: int
  sf_verifiedMimeType :: "string option"
  sf_verifiedSizeBytes :: "int option"
  sf_status :: stored_file_status
  sf_createdAt :: date
  sf_confirmedAt :: "date option"

record user_profile_row =
  up_id :: uuid
  up_userId :: uuid
  up_displayName :: string
  up_avatarFileId :: "uuid option"
  up_createdAt :: date
  up_updatedAt :: date

record audit_entry =
  al_id :: uuid
  al_occurredAt :: date
  al_actorId :: "uuid option"
  al_organizationId :: "uuid option"
  al_action :: string
  al_resource :: string
  al_resourceId :: "uuid option"
  al_requestId :: "uuid option"
  al_metadata :: js

record webhook_inbox_event =
  wi_id :: uuid
  wi_provider :: string
  wi_providerEventId :: string
  wi_payload :: js
  wi_receivedAt :: date
  wi_processingAt :: "date option"
  wi_processingToken :: "uuid option"
  wi_processedAt :: "date option"
  wi_failedAt :: "date option"
  wi_lastError :: "string option"

record outbox_row =
  ob_eventId :: uuid
  ob_occurredAt :: date
  ob_eventName :: string
  ob_schemaVersion :: int
  ob_payload :: js
  ob_drainedAt :: "date option"
  ob_claimToken :: "uuid option"
  ob_claimedAt :: "date option"
  ob_attemptCount :: nat
  ob_lastError :: "string option"
  ob_deadLetteredAt :: "date option"

record sent_notification =
  sn_idempotencyKey :: string
  sn_channel :: string
  sn_sentAt :: date

record auth_row =
  ar_id :: uuid
  ar_userId :: "uuid option" \<comment> \<open>absent on a verification row\<close>
  ar_expiresAt :: date

record db =
  users :: "auth_user list"
  sessions :: "auth_row list"
  verifications :: "auth_row list"
  organizations :: "organization list"
  members :: "organization_membership list"
  invitations :: "organization_invitation list"
  subscriptions :: "subscription list"
  plans :: "plan list"
  storedFiles :: "stored_file_row list"
  userProfiles :: "user_profile_row list"
  auditLog :: "audit_entry list"
  webhookInbox :: "webhook_inbox_event list"
  outbox :: "outbox_row list"
  sentNotifications :: "sent_notification list"

definition empty_db :: db where
  "empty_db =
     \<lparr>users = [], sessions = [], verifications = [], organizations = [], members = [], invitations = [],
      subscriptions = [], plans = [], storedFiles = [], userProfiles = [], auditLog = [],
      webhookInbox = [], outbox = [], sentNotifications = []\<rparr>"

section \<open>Constraints\<close>

text \<open>\<open>create\<close> on a table with a unique key, and a reference that must exist.\<close>

definition insert_unique :: "('r \<Rightarrow> 'k) \<Rightarrow> string \<Rightarrow> 'r \<Rightarrow> 'r list \<Rightarrow> failure + 'r list" where
  "insert_unique key constraint r rows =
     (if key r \<in> key ` set rows then Inl (PlainError (''Unique constraint failed: '' @ constraint))
      else Inr (rows @ [r]))"

definition require_reference :: "bool \<Rightarrow> string \<Rightarrow> failure + unit" where
  "require_reference present constraint =
     (if present then Inr () else Inl (PlainError (''Foreign key constraint violated: '' @ constraint)))"

section \<open>The unit of work\<close>

type_synonym ('s, 'a) action = "'s \<Rightarrow> (failure + 'a) \<times> 's"

definition transaction :: "bool \<Rightarrow> ('s, 'a) action \<Rightarrow> ('s, 'a) action" where
  "transaction inTransaction body s =
     (if inTransaction
      then (Inl (PlainError ''Nested transaction: a second physical transaction would commit independently of the first.''), s)
      else (case body s of
              (Inl e, _) \<Rightarrow> (Inl e, s)
            | (Inr v, s') \<Rightarrow> (Inr v, s')))"

text \<open>A repository method that joins the open transaction, or opens one of its own.\<close>

definition withinTransaction :: "bool \<Rightarrow> ('s, 'a) action \<Rightarrow> ('s, 'a) action" where
  "withinTransaction inTransaction fn = (if inTransaction then fn else transaction False fn)"

lemma insert_unique_Inr:
  "insert_unique key c r rows = Inr rows' \<longleftrightarrow> key r \<notin> key ` set rows \<and> rows' = rows @ [r]"
  by (auto simp: insert_unique_def)

lemma require_reference_Inr [simp]: "require_reference p c = Inr u \<longleftrightarrow> p"
  by (simp add: require_reference_def)

lemma transaction_error: "transaction t body s = (Inl e, s') \<Longrightarrow> s' = s"
  by (auto simp: transaction_def split: if_splits prod.splits sum.splits)

lemma transaction_ok:
  "transaction t body s = (Inr v, s') \<longleftrightarrow> \<not> t \<and> body s = (Inr v, s')"
  by (auto simp: transaction_def split: prod.splits sum.splits)

lemma transaction_cases:
  "transaction t body d = (r, d') \<Longrightarrow> d' = d \<or> (\<exists>v. body d = (Inr v, d'))"
  by (auto simp: transaction_def split: if_splits prod.splits sum.splits)

end
