(* ===== verification/Job_Queue.thy ===== *)
theory Job_Queue
  imports Events
begin

text \<open>
  The job queue platform (\<open>src/src/platform/queue\<close>): the queue table of \<open>queues.ts\<close>, and what
  \<open>BullMqService\<close>, \<open>QueueRegistrar\<close> and \<open>CronRegistrar\<close> compute around the broker: job options,
  the backoff curve, \<open>send\<close> with its deduplication options, schedules and handler discovery.
  The broker itself is BullMQ: its \<open>add\<close> is a parameter, a function of the broker's state that
  returns an error or the id of the job it stored.
\<close>

section \<open>Queues\<close>

datatype queue_name =
    USERS_CREATE_PROFILE | USERS_DELETE_PROFILE | AUDIT_RECORD_EVENT | AUDIT_PRUNE
  | AUTH_PRUNE_EXPIRED | MAIL_SEND_WELCOME | MAIL_SEND_AUTH_EMAIL | ORGANIZATION_SEND_INVITATION
  | NOTIFICATIONS_PRUNE_LEDGER | BILLING_APPLY_WEBHOOK | UPLOAD_PURGE_USER_FILES
  | UPLOAD_SWEEP_UNCONFIRMED | OUTBOX_DRAIN | OUTBOX_PRUNE | BILLING_WEBHOOK_PRUNE

primrec QUEUES :: "queue_name \<Rightarrow> string" where
  "QUEUES USERS_CREATE_PROFILE = ''users.create-profile''"
| "QUEUES USERS_DELETE_PROFILE = ''users.delete-profile''"
| "QUEUES AUDIT_RECORD_EVENT = ''audit-log.record-event''"
| "QUEUES AUDIT_PRUNE = ''audit-log.prune''"
| "QUEUES AUTH_PRUNE_EXPIRED = ''auth.prune-expired''"
| "QUEUES MAIL_SEND_WELCOME = ''mailer.send-welcome''"
| "QUEUES MAIL_SEND_AUTH_EMAIL = ''mailer.send-auth-email''"
| "QUEUES ORGANIZATION_SEND_INVITATION = ''organizations.send-invitation''"
| "QUEUES NOTIFICATIONS_PRUNE_LEDGER = ''notifications.prune-ledger''"
| "QUEUES BILLING_APPLY_WEBHOOK = ''billing.apply-webhook''"
| "QUEUES UPLOAD_PURGE_USER_FILES = ''upload.purge-user-files''"
| "QUEUES UPLOAD_SWEEP_UNCONFIRMED = ''upload.sweep-unconfirmed''"
| "QUEUES OUTBOX_DRAIN = ''messaging.outbox-drain''"
| "QUEUES OUTBOX_PRUNE = ''messaging.outbox-prune''"
| "QUEUES BILLING_WEBHOOK_PRUNE = ''billing.webhook-prune''"

record queue_definition =
  qd_name :: queue_name
  retryLimit :: nat
  retryDelaySeconds :: nat
  retryDelayMaxSeconds :: nat
  retryBackoff :: bool
  failedJobRetentionSeconds :: nat
  completedJobRetentionSeconds :: nat

definition ONE_HOUR :: nat where "ONE_HOUR = 3600"

definition FIFTEEN_MINUTES :: nat where "FIFTEEN_MINUTES = 900"

definition ONE_DAY :: nat where "ONE_DAY = 86400"

definition queue_defaults :: "queue_name \<Rightarrow> queue_definition" where
  "queue_defaults q =
     \<lparr>qd_name = q, retryLimit = 5, retryDelaySeconds = 5, retryDelayMaxSeconds = ONE_HOUR,
      retryBackoff = True, failedJobRetentionSeconds = ONE_DAY * 30,
      completedJobRetentionSeconds = ONE_DAY * 3\<rparr>"

definition maintenance_queue :: "queue_name \<Rightarrow> queue_definition" where
  "maintenance_queue q = (queue_defaults q)\<lparr>retryLimit := 1, failedJobRetentionSeconds := ONE_HOUR\<rparr>"

definition QUEUE_DEFINITIONS :: "queue_definition list" where
  "QUEUE_DEFINITIONS =
     [queue_defaults USERS_CREATE_PROFILE,
      queue_defaults USERS_DELETE_PROFILE,
      queue_defaults AUDIT_RECORD_EVENT,
      (queue_defaults MAIL_SEND_AUTH_EMAIL)
        \<lparr>retryLimit := 5, retryDelayMaxSeconds := FIFTEEN_MINUTES,
         completedJobRetentionSeconds := 0, failedJobRetentionSeconds := FIFTEEN_MINUTES\<rparr>,
      (queue_defaults ORGANIZATION_SEND_INVITATION)
        \<lparr>retryLimit := 8, completedJobRetentionSeconds := 0, failedJobRetentionSeconds := ONE_HOUR\<rparr>,
      (queue_defaults MAIL_SEND_WELCOME)\<lparr>retryLimit := 8, retryDelayMaxSeconds := ONE_HOUR * 6\<rparr>,
      queue_defaults UPLOAD_PURGE_USER_FILES,
      maintenance_queue UPLOAD_SWEEP_UNCONFIRMED,
      (queue_defaults OUTBOX_DRAIN)
        \<lparr>retryLimit := 3, retryDelaySeconds := 2, retryDelayMaxSeconds := 60,
         failedJobRetentionSeconds := ONE_HOUR\<rparr>,
      maintenance_queue OUTBOX_PRUNE,
      queue_defaults BILLING_APPLY_WEBHOOK,
      maintenance_queue BILLING_WEBHOOK_PRUNE,
      maintenance_queue NOTIFICATIONS_PRUNE_LEDGER,
      maintenance_queue AUDIT_PRUNE,
      maintenance_queue AUTH_PRUNE_EXPIRED]"

definition CRON_SCHEDULES :: "(queue_name \<times> string) list" where
  "CRON_SCHEDULES =
     [(UPLOAD_SWEEP_UNCONFIRMED, ''*/15 * * * *''), (AUDIT_PRUNE, ''41 3 * * *''),
      (AUTH_PRUNE_EXPIRED, ''23 4 * * *''), (BILLING_WEBHOOK_PRUNE, ''7 5 * * *''),
      (NOTIFICATIONS_PRUNE_LEDGER, ''53 4 * * *'')]"

primrec EVENT_SUBSCRIBERS :: "integration_event_name \<Rightarrow> queue_name list" where
  "EVENT_SUBSCRIBERS USER_REGISTERED = [USERS_CREATE_PROFILE, AUDIT_RECORD_EVENT]"
| "EVENT_SUBSCRIBERS USER_EMAIL_VERIFIED = [AUDIT_RECORD_EVENT, MAIL_SEND_WELCOME]"
| "EVENT_SUBSCRIBERS USER_DELETED = [USERS_DELETE_PROFILE, AUDIT_RECORD_EVENT, UPLOAD_PURGE_USER_FILES]"
| "EVENT_SUBSCRIBERS UPLOAD_CONFIRMED = [AUDIT_RECORD_EVENT]"
| "EVENT_SUBSCRIBERS ORGANIZATION_ARCHIVED = [AUDIT_RECORD_EVENT]"
| "EVENT_SUBSCRIBERS ORGANIZATION_RESTORED = [AUDIT_RECORD_EVENT]"
| "EVENT_SUBSCRIBERS ORGANIZATION_PURGED = [AUDIT_RECORD_EVENT]"

definition DEDUP_WINDOW_SECONDS :: nat where
  "DEDUP_WINDOW_SECONDS = 600"

section \<open>Job options and backoff\<close>

datatype retention = DropAtOnce | KeepFor nat nat \<comment> \<open>age in seconds, count\<close>

datatype backoff_type = BoundedExponential | Fixed | OtherBackoff

record job_options =
  jo_attempts :: nat
  jo_backoff_type :: backoff_type
  jo_backoff_delay :: nat
  jo_jitter :: "rat option"
  jo_removeOnFail :: retention
  jo_removeOnComplete :: retention

definition defaultJobOptions :: "queue_definition \<Rightarrow> job_options" where
  "defaultJobOptions d =
     \<lparr>jo_attempts = retryLimit d + 1,
      jo_backoff_type = (if retryBackoff d then BoundedExponential else Fixed),
      jo_backoff_delay = retryDelaySeconds d * 1000,
      jo_jitter = (if retryBackoff d then Some (1 / 5) else None),
      jo_removeOnFail = KeepFor (failedJobRetentionSeconds d) 10000,
      jo_removeOnComplete =
        (if completedJobRetentionSeconds d = 0 then DropAtOnce
         else KeepFor (completedJobRetentionSeconds d) 1000)\<rparr>"

text \<open>\<open>Math.max(0, attemptsMade - 1)\<close> is the truncated subtraction of natural numbers.\<close>

definition backoffStrategy :: "queue_definition \<Rightarrow> nat \<Rightarrow> backoff_type \<Rightarrow> nat" where
  "backoffStrategy d attemptsMade type =
     (if type \<noteq> BoundedExponential then 0
      else min (retryDelaySeconds d * 1000 * 2 ^ (attemptsMade - 1)) (retryDelayMaxSeconds d * 1000))"

text \<open>
  The processor \<open>work\<close> installs around a handler: what it logs, and what it lets the broker see.
\<close>

datatype log_level = LogError | LogWarn

definition work_processor :: "failure + 'a \<Rightarrow> (log_level \<times> string) option \<times> (failure + 'a)" where
  "work_processor outcome =
     (case outcome of
        Inr v \<Rightarrow> (None, Inr v)
      | Inl e \<Rightarrow>
          (let perm = isDomainException e \<and> permanent e in
           (Some (if perm then (LogError, ''job failed permanently'')
                  else (LogWarn, ''job failed and will retry'')),
            Inl e)))"

section \<open>Sending\<close>

record add_options =
  ao_delay :: "nat option"
  ao_dedup :: "(string \<times> nat option) option"

record send_options =
  startAfterSeconds :: "nat option"
  singletonKey :: "string option"
  singletonSeconds :: "nat option"

type_synonym 'b broker_add = "string \<Rightarrow> js \<Rightarrow> add_options \<Rightarrow> 'b \<Rightarrow> (failure + string option) \<times> 'b"

definition queueOf :: "string \<Rightarrow> queue_definition option" where
  "queueOf q = find (\<lambda>d. QUEUES (qd_name d) = q) QUEUE_DEFINITIONS"

definition send :: "'b broker_add \<Rightarrow> string \<Rightarrow> js \<Rightarrow> send_options \<Rightarrow> 'b \<Rightarrow> (failure + string option) \<times> 'b" where
  "send add q data opts b =
     (case queueOf q of
        None \<Rightarrow> (Inl (PlainError (''Queue is not registered: '' @ q)), b)
      | Some _ \<Rightarrow>
          add q data
            \<lparr>ao_delay = map_option (\<lambda>s. s * 1000) (startAfterSeconds opts),
             ao_dedup = map_option (\<lambda>k. (k, map_option (\<lambda>s. s * 1000) (singletonSeconds opts)))
                          (singletonKey opts)\<rparr> b)"

section \<open>Schedules\<close>

datatype repeat = Pattern string | Every nat

type_synonym scheduler = "string option \<times> repeat"

definition schedule_key :: "string \<Rightarrow> string option \<Rightarrow> string" where
  "schedule_key q repeatKey = (case repeatKey of Some k \<Rightarrow> k | None \<Rightarrow> ''schedule:'' @ q)"

definition removeStaleSchedulers :: "string \<Rightarrow> string \<Rightarrow> scheduler list \<Rightarrow> scheduler list" where
  "removeStaleSchedulers q keep existing =
     filter (\<lambda>(key, _). case key of
               None \<Rightarrow> True
             | Some k \<Rightarrow> k = keep \<or> \<not> starts_with (''schedule:'' @ q) k) existing"

text \<open>BullMQ's upsert: the scheduler of that key is replaced, or appended.\<close>

definition upsert_scheduler :: "string \<Rightarrow> repeat \<Rightarrow> scheduler list \<Rightarrow> scheduler list" where
  "upsert_scheduler k r ss = filter (\<lambda>(key, _). key \<noteq> Some k) ss @ [(Some k, r)]"

definition upsertSchedule :: "string \<Rightarrow> repeat \<Rightarrow> string option \<Rightarrow> scheduler list \<Rightarrow> failure + scheduler list" where
  "upsertSchedule q r repeatKey ss =
     (case queueOf q of
        None \<Rightarrow> Inl (PlainError (''Queue is not registered: '' @ q))
      | Some _ \<Rightarrow>
          (let key = schedule_key q repeatKey
           in Inr (upsert_scheduler key r (removeStaleSchedulers q key ss))))"

definition schedule :: "string \<Rightarrow> string \<Rightarrow> string option \<Rightarrow> scheduler list \<Rightarrow> failure + scheduler list" where
  "schedule q cron repeatKey ss = upsertSchedule q (Pattern cron) repeatKey ss"

definition scheduleEvery :: "string \<Rightarrow> nat \<Rightarrow> string option \<Rightarrow> scheduler list \<Rightarrow> failure + scheduler list" where
  "scheduleEvery q seconds repeatKey ss = upsertSchedule q (Every (seconds * 1000)) repeatKey ss"

text \<open>\<open>retryFailed\<close>: how many of the retained failed jobs it re-queues.\<close>

definition retryFailed :: "int \<Rightarrow> 'job list \<Rightarrow> 'job list \<times> nat" where
  "retryFailed limit failed =
     (if limit \<le> 0 then ([], 0) else (let jobs = take (nat limit) failed in (jobs, length jobs)))"

section \<open>Handler discovery\<close>

record provider =
  pv_queue :: "string option" \<comment> \<open>the decorator's metadata, when the metatype is a function that has it\<close>
  pv_name :: string
  pv_has_handle :: bool

definition readQueueMetadata :: "provider \<Rightarrow> queue_name option" where
  "readQueueMetadata p =
     (case pv_queue p of
        None \<Rightarrow> None
      | Some s \<Rightarrow> map_option qd_name (find (\<lambda>d. QUEUES (qd_name d) = s) QUEUE_DEFINITIONS))"

definition describeHandler :: "provider \<Rightarrow> string" where
  "describeHandler p = (if pv_name p \<noteq> [] then pv_name p else ''<anonymous>'')"

fun discoverHandlers ::
  "provider list \<Rightarrow> (queue_name \<times> string) list \<Rightarrow> (queue_name \<times> provider) list
     \<Rightarrow> failure + (queue_name \<times> provider) list"
where
  "discoverHandlers [] seen acc = Inr acc"
| "discoverHandlers (p # ps) seen acc =
     (case readQueueMetadata p of
        None \<Rightarrow> discoverHandlers ps seen acc
      | Some q \<Rightarrow>
          if \<not> pv_has_handle p
          then Inl (PlainError (''BullMQ handler '' @ describeHandler p @ '' for '' @ QUEUES q
                     @ '' has no usable handle method.''))
          else (case map_of seen q of
                  Some previous \<Rightarrow>
                    Inl (PlainError (''Multiple BullMQ handlers registered for '' @ QUEUES q @ '': ''
                           @ previous @ '' and '' @ describeHandler p @ ''.''))
                | None \<Rightarrow> discoverHandlers ps ((q, describeHandler p) # seen) (acc @ [(q, p)])))"

section \<open>Lemmas\<close>

lemma QUEUES_inj: "QUEUES a = QUEUES b \<Longrightarrow> a = b"
  by (cases a; cases b) simp_all

lemma queue_defined: "\<exists>d \<in> set QUEUE_DEFINITIONS. qd_name d = q"
  by (cases q) (simp_all add: QUEUE_DEFINITIONS_def queue_defaults_def maintenance_queue_def)

lemma queueOf_QUEUES: "\<exists>d. queueOf (QUEUES q) = Some d \<and> qd_name d = q"
proof -
  obtain d where d: "d \<in> set QUEUE_DEFINITIONS" "qd_name d = q" using queue_defined by blast
  then have "queueOf (QUEUES q) \<noteq> None" unfolding queueOf_def find_None_iff by auto
  then obtain d' where d': "queueOf (QUEUES q) = Some d'" by auto
  then have "QUEUES (qd_name d') = QUEUES q" by (auto simp: queueOf_def find_Some_iff)
  with d' show ?thesis by (auto dest: QUEUES_inj)
qed

lemma send_QUEUES:
  "send add (QUEUES q) data opts b =
     add (QUEUES q) data
       \<lparr>ao_delay = map_option (\<lambda>s. s * 1000) (startAfterSeconds opts),
        ao_dedup = map_option (\<lambda>k. (k, map_option (\<lambda>s. s * 1000) (singletonSeconds opts))) (singletonKey opts)\<rparr> b"
  using queueOf_QUEUES [of q] by (auto simp: send_def)

lemma backoff_bounded: "backoffStrategy d n ty \<le> retryDelayMaxSeconds d * 1000"
  by (simp add: backoffStrategy_def)

lemma backoff_mono: "m \<le> n \<Longrightarrow> backoffStrategy d m ty \<le> backoffStrategy d n ty"
proof -
  assume "m \<le> n"
  then have "(2::nat) ^ (m - 1) \<le> 2 ^ (n - 1)" by (simp add: power_increasing diff_le_mono)
  then have "retryDelaySeconds d * 1000 * 2 ^ (m - 1) \<le> retryDelaySeconds d * 1000 * 2 ^ (n - 1)"
    by simp
  then have "min (retryDelaySeconds d * 1000 * 2 ^ (m - 1)) (retryDelayMaxSeconds d * 1000)
      \<le> min (retryDelaySeconds d * 1000 * 2 ^ (n - 1)) (retryDelayMaxSeconds d * 1000)"
    by (rule min.mono) (rule order_refl)
  then show ?thesis unfolding backoffStrategy_def by (cases "ty = BoundedExponential") (simp_all only: simp_thms if_True if_False order_refl)
qed

lemma discoverHandlers_sound:
  assumes "discoverHandlers ps seen acc = Inr hs" and "distinct (map fst acc)"
    and "set (map fst seen) = set (map fst acc)" and "\<forall>(q, p) \<in> set acc. pv_has_handle p"
  shows "distinct (map fst hs) \<and> (\<forall>(q, p) \<in> set hs. pv_has_handle p)"
  using assms
proof (induction ps seen acc rule: discoverHandlers.induct)
  case (1 seen acc)
  then show ?case by simp
next
  case (2 p ps seen acc)
  show ?case
  proof (cases "readQueueMetadata p")
    case None
    then show ?thesis using 2 by simp
  next
    case (Some q)
    with 2(3) have h: "pv_has_handle p" "map_of seen q = None"
      and rec: "discoverHandlers ps ((q, describeHandler p) # seen) (acc @ [(q, p)]) = Inr hs"
      by (auto split: if_splits option.splits)
    have "q \<notin> set (map fst acc)" using h(2) 2(5) by (simp add: map_of_eq_None_iff)
    then show ?thesis using 2(2) [OF Some _ h(2) rec] h(1) 2(4-6) by auto
  qed
qed

end
