(* ===== verification/Retention.thy ===== *)
theory Retention
  imports Prelude
begin

text \<open>
  Retention: the bounded delete statement and the pass loop that the outbox, the audit log, the
  notification ledger, the billing inbox and the authentication tables all use. The loop's
  behaviour is proved once, in the locale \<open>batch_delete\<close>, from the contract of the delete
  statement; each component interprets the locale on its own statement.
\<close>

text \<open>\<open>DELETE ... WHERE id IN (SELECT id ... WHERE p ORDER BY key LIMIT n)\<close>, with the number of rows it deletes.\<close>

definition delete_oldest ::
  "('r \<Rightarrow> 'i) \<Rightarrow> ('r \<Rightarrow> bool) \<Rightarrow> ('r \<Rightarrow> 'k::linorder) \<Rightarrow> nat \<Rightarrow> 'r list \<Rightarrow> 'r list \<times> nat"
where
  "delete_oldest ident p key n rows =
     (let ids = map ident (take n (order_by key (filter p rows)));
          rest = filter (\<lambda>r. ident r \<notin> set ids) rows
      in (rest, length rows - length rest))"

text \<open>The pass loop: full batches until a short one, at most \<open>passes\<close> of them.\<close>

fun prune_loop :: "nat \<Rightarrow> nat \<Rightarrow> (nat \<Rightarrow> 'db \<Rightarrow> 'db \<times> nat) \<Rightarrow> 'db \<Rightarrow> 'db \<times> nat" where
  "prune_loop 0 batch del db = (db, 0)"
| "prune_loop (Suc passes) batch del db =
     (let (db', removed) = del batch db
      in if removed < batch then (db', removed)
         else let (db'', rest) = prune_loop passes batch del db' in (db'', removed + rest))"

section \<open>The loop, from the contract of the delete statement\<close>

locale batch_delete =
  fixes del :: "nat \<Rightarrow> 'db \<Rightarrow> 'db \<times> nat"
    and due :: "'db \<Rightarrow> nat"
    and kept :: "'db \<Rightarrow> 'r list"
    and invar :: "'db \<Rightarrow> bool"
  assumes del_count: "invar db \<Longrightarrow> snd (del n db) = min n (due db)"
    and del_due: "invar db \<Longrightarrow> due (fst (del n db)) = due db - min n (due db)"
    and del_kept: "invar db \<Longrightarrow> kept (fst (del n db)) = kept db"
    and del_invar: "invar db \<Longrightarrow> invar (fst (del n db))"
begin

lemma prune_loop_spec:
  assumes "invar db"
  shows "invar (fst (prune_loop passes batch del db))
    \<and> snd (prune_loop passes batch del db) = min (passes * batch) (due db)
    \<and> due (fst (prune_loop passes batch del db)) = due db - min (passes * batch) (due db)
    \<and> kept (fst (prune_loop passes batch del db)) = kept db"
  using assms
proof (induction passes arbitrary: db)
  case 0
  then show ?case by simp
next
  case (Suc passes)
  obtain db' k where d: "del batch db = (db', k)" by (cases "del batch db")
  have k: "k = min batch (due db)" and due': "due db' = due db - min batch (due db)"
    and kept': "kept db' = kept db" and inv': "invar db'"
    using del_count [OF Suc.prems, of batch] del_due [OF Suc.prems, of batch]
      del_kept [OF Suc.prems, of batch] del_invar [OF Suc.prems, of batch] d by simp_all
  show ?case
  proof (cases "k < batch")
    case True
    then have "k = due db" and "due db < batch" using k by (auto simp: min_def split: if_splits)
    moreover have "due db \<le> Suc passes * batch" using \<open>due db < batch\<close> by simp
    ultimately show ?thesis using d True due' kept' inv' k by (simp add: min_absorb2)
  next
    case False
    then have kb: "k = batch" and "batch \<le> due db" using k by (auto simp: min_def split: if_splits)
    obtain db'' r where l: "prune_loop passes batch del db' = (db'', r)" by (cases "prune_loop passes batch del db'")
    have "r = min (passes * batch) (due db - batch)" and "due db'' = due db - batch - r"
      and "kept db'' = kept db" and "invar db''"
      using Suc.IH [OF inv'] l due' kept' \<open>batch \<le> due db\<close> by (simp_all add: min_absorb1)
    then show ?thesis using d False l kb \<open>batch \<le> due db\<close> by (auto simp: min_def)
  qed
qed

lemma prune_loop_clears:
  assumes "invar db" and "due db \<le> passes * batch"
  shows "due (fst (prune_loop passes batch del db)) = 0" and "snd (prune_loop passes batch del db) = due db"
  using prune_loop_spec [OF assms(1), of passes batch] assms(2) by simp_all

lemma prune_loop_bounded:
  assumes "invar db"
  shows "snd (prune_loop passes batch del db) \<le> passes * batch"
  using prune_loop_spec [OF assms, of passes batch] by simp

end

section \<open>The delete statement keeps the contract\<close>

lemma delete_oldest_removes:
  fixes p :: "'r \<Rightarrow> bool" and key :: "'r \<Rightarrow> 'k::linorder" and n :: nat and rows :: "'r list"
  assumes u: "unique_on ident rows"
  defines "S \<equiv> set (take n (order_by key (filter p rows)))"
  shows "fst (delete_oldest ident p key n rows) = filter (\<lambda>r. r \<notin> S) rows"
    and "S \<subseteq> {r \<in> set rows. p r}" and "card S = min n (count_where p rows)"
proof -
  show sub: "S \<subseteq> {r \<in> set rows. p r}"
    using set_take_subset [of n "order_by key (filter p rows)"] by (auto simp: S_def)
  have "distinct rows" using u by (auto simp: unique_on_def distinct_map)
  then have "distinct (take n (order_by key (filter p rows)))" by (simp add: order_by_def)
  then show "card S = min n (count_where p rows)"
    by (simp add: S_def distinct_card count_where_def min.commute)
  have "ident r \<notin> ident ` S \<longleftrightarrow> r \<notin> S" if "r \<in> set rows" for r
    using that sub u by (blast dest: unique_onD)
  then show "fst (delete_oldest ident p key n rows) = filter (\<lambda>r. r \<notin> S) rows"
    by (simp add: delete_oldest_def Let_def S_def cong: filter_cong)
qed

lemma length_filter_partition: "length (filter q rows) + length (filter (\<lambda>r. \<not> q r) rows) = length rows"
  by (induction rows) auto

lemma length_filter_set:
  assumes "distinct rows" and "S \<subseteq> set rows"
  shows "length (filter (\<lambda>r. r \<in> S) rows) = card S"
proof -
  have "length (filter (\<lambda>r. r \<in> S) rows) = card (set (filter (\<lambda>r. r \<in> S) rows))"
    using distinct_filter [OF assms(1)] by (rule distinct_card [symmetric])
  also have "set (filter (\<lambda>r. r \<in> S) rows) = S" using assms(2) by auto
  finally show ?thesis .
qed

lemma delete_oldest_contract:
  assumes u: "unique_on ident rows"
  shows "snd (delete_oldest ident p key n rows) = min n (count_where p rows)"
    and "count_where p (fst (delete_oldest ident p key n rows)) = count_where p rows - min n (count_where p rows)"
    and "filter (\<lambda>r. \<not> p r) (fst (delete_oldest ident p key n rows)) = filter (\<lambda>r. \<not> p r) rows"
    and "unique_on ident (fst (delete_oldest ident p key n rows))"
proof -
  define S where "S = set (take n (order_by key (filter p rows)))"
  note rem = delete_oldest_removes [where p = p and key = key and n = n, OF u, folded S_def]
  have dist: "distinct rows" using u by (auto simp: unique_on_def distinct_map)
  have len: "length (filter (\<lambda>r. r \<in> S) rows) = card S"
    by (rule length_filter_set [OF dist]) (use rem(2) in blast)
  have "snd (delete_oldest ident p key n rows) = length rows - length (fst (delete_oldest ident p key n rows))"
    by (simp add: delete_oldest_def Let_def)
  also have "\<dots> = card S"
    unfolding rem(1) using length_filter_partition [of "\<lambda>r. r \<in> S" rows] len by simp
  finally show "snd (delete_oldest ident p key n rows) = min n (count_where p rows)" by (simp add: rem(3))
  have "length (filter (\<lambda>r. r \<in> S) (filter p rows)) = card S"
    by (rule length_filter_set) (use dist rem(2) in auto)
  then have "length (filter (\<lambda>r. r \<notin> S) (filter p rows)) = count_where p rows - card S"
    using length_filter_partition [of "\<lambda>r. r \<in> S" "filter p rows"] by (simp add: count_where_def)
  then show "count_where p (fst (delete_oldest ident p key n rows)) = count_where p rows - min n (count_where p rows)"
    unfolding rem(1) by (simp add: count_where_def rem(3) conj_commute)
  show "filter (\<lambda>r. \<not> p r) (fst (delete_oldest ident p key n rows)) = filter (\<lambda>r. \<not> p r) rows"
    unfolding rem(1) using rem(2) by (auto intro!: filter_cong)
  show "unique_on ident (fst (delete_oldest ident p key n rows))"
    unfolding rem(1) using u by (simp add: unique_on_def distinct_map_filter)
qed

text \<open>It takes the oldest: what a bounded delete leaves behind is never older than what it took.\<close>

lemma delete_oldest_order:
  assumes u: "unique_on ident rows"
    and "r \<in> set rows" "r \<notin> set (fst (delete_oldest ident p key n rows))"
    and "r' \<in> set (fst (delete_oldest ident p key n rows))" "p r'"
  shows "key r \<le> key r'"
proof -
  let ?o = "order_by key (filter p rows)"
  have "r \<in> set (take n ?o)" and nr': "r' \<notin> set (take n ?o)" and "r' \<in> set rows"
    using assms(2-4) unfolding delete_oldest_removes(1) [OF u] by auto
  moreover have "r' \<in> set (take n ?o @ drop n ?o)" using assms(5) \<open>r' \<in> set rows\<close> by simp
  ultimately have "r' \<in> set (drop n ?o)" by (simp only: set_append) blast
  with \<open>r \<in> set (take n ?o)\<close> show ?thesis by (rule take_order_by_least)
qed

end
