(* ===== verification/Outbox.thy ===== *)
theory Outbox
  imports Database Job_Queue Retention
begin

text \<open>
  The transactional outbox: \<open>BullMqEventPublisher\<close> (\<open>src/src/platform/queue/bullmq-event-publisher.ts\<close>)
  writes events into it and dispatches them to the broker, and \<open>OutboxDrainService\<close>
  (\<open>src/src/platform/messaging/outbox-drain.service.ts\<close>) relays it. Each SQL statement of the
  service is a function of the table and of the database clock; \<open>drainOnce\<close> composes them as the
  service does, with one clock reading for the pass, and \<open>relay_step\<close> interleaves the statements
  of any number of relays, each at its own time.
\<close>

section \<open>Publishing\<close>

definition isRecord :: "js \<Rightarrow> bool" where
  "isRecord v = (case v of JsObj _ \<Rightarrow> True | _ \<Rightarrow> False)"

text \<open>\<open>toJsonMember\<close> and \<open>toJsonObject\<close>: a deep copy that refuses what JSON cannot carry.\<close>

fun toJsonMember :: "js \<Rightarrow> failure + js" and
    toJsonMembers :: "js list \<Rightarrow> failure + js list" and
    toJsonEntries :: "(string \<times> js) list \<Rightarrow> failure + (string \<times> js) list"
where
  "toJsonMember (JsArr vs) = (case toJsonMembers vs of Inl e \<Rightarrow> Inl e | Inr ws \<Rightarrow> Inr (JsArr ws))"
| "toJsonMember (JsObj kvs) = (case toJsonEntries kvs of Inl e \<Rightarrow> Inl e | Inr ws \<Rightarrow> Inr (JsObj ws))"
| "toJsonMember (JsOther t) =
     Inl (PlainError (''Cannot serialize integration event payload value of type '' @ t @ ''.''))"
| "toJsonMember v = Inr v"
| "toJsonMembers [] = Inr []"
| "toJsonMembers (v # vs) =
     (case toJsonMember v of
        Inl e \<Rightarrow> Inl e
      | Inr w \<Rightarrow> (case toJsonMembers vs of Inl e \<Rightarrow> Inl e | Inr ws \<Rightarrow> Inr (w # ws)))"
| "toJsonEntries [] = Inr []"
| "toJsonEntries ((k, v) # kvs) =
     (case toJsonMember v of
        Inl e \<Rightarrow> Inl e
      | Inr w \<Rightarrow> (case toJsonEntries kvs of Inl e \<Rightarrow> Inl e | Inr ws \<Rightarrow> Inr ((k, w) # ws)))"

definition toJsonObject :: "js \<Rightarrow> failure + js" where
  "toJsonObject v =
     (if isRecord v then toJsonMember v
      else Inl (PlainError ''Integration event payload must be a JSON object.''))"

definition subscribersOf :: "string \<Rightarrow> failure + queue_name list" where
  "subscribersOf name =
     (case event_of_name name of
        None \<Rightarrow> Inl (PlainError (''No subscriber list declared for integration event '' @ [CHR 0x22] @ name @ [CHR 0x22]))
      | Some n \<Rightarrow> Inr (EVENT_SUBSCRIBERS n))"

fun check_events :: "zod \<Rightarrow> integration_event list \<Rightarrow> failure + unit" where
  "check_events z [] = Inr ()"
| "check_events z (e # es) =
     (if parseAnyIntegrationEvent z (event_to_js e) = None
      then Inl (PlainError (''Cannot persist an invalid integration event contract: '' @ ie_name e))
      else (case subscribersOf (ie_name e) of Inl err \<Rightarrow> Inl err | Inr _ \<Rightarrow> check_events z es))"

text \<open>\<open>createMany\<close> with \<open>skipDuplicates\<close> into the outbox; the remaining columns take their defaults.\<close>

definition outbox_insert_row :: "integration_event \<Rightarrow> js \<Rightarrow> outbox_row" where
  "outbox_insert_row e payload =
     \<lparr>ob_eventId = ie_eventId e,
      ob_occurredAt = (case date_parse (ie_occurredAt e) of Some t \<Rightarrow> t | None \<Rightarrow> 0),
      ob_eventName = ie_name e, ob_schemaVersion = ie_schemaVersion e, ob_payload = payload,
      ob_drainedAt = None, ob_claimToken = None, ob_claimedAt = None, ob_attemptCount = 0,
      ob_lastError = None, ob_deadLetteredAt = None\<rparr>"

fun outbox_createMany :: "integration_event list \<Rightarrow> outbox_row list \<Rightarrow> failure + outbox_row list" where
  "outbox_createMany [] rows = Inr rows"
| "outbox_createMany (e # es) rows =
     (case toJsonObject (ie_payload e) of
        Inl err \<Rightarrow> Inl err
      | Inr p \<Rightarrow> outbox_createMany es (fst (insert_skip ob_eventId (outbox_insert_row e p) rows)))"

definition publishAll :: "zod \<Rightarrow> integration_event list \<Rightarrow> (db, unit) action" where
  "publishAll z events d =
     (if events = [] then (Inr (), d)
      else (case check_events z events of
              Inl e \<Rightarrow> (Inl e, d)
            | Inr _ \<Rightarrow> (case outbox_createMany events (outbox d) of
                          Inl e \<Rightarrow> (Inl e, d)
                        | Inr rows \<Rightarrow> (Inr (), d\<lparr>outbox := rows\<rparr>))))"

fun dispatch_to :: "'b broker_add \<Rightarrow> integration_event \<Rightarrow> queue_name list \<Rightarrow> ('b, unit) action" where
  "dispatch_to add e [] b = (Inr (), b)"
| "dispatch_to add e (q # qs) b =
     (case send add (QUEUES q) (event_to_js e)
             \<lparr>startAfterSeconds = None, singletonKey = Some (QUEUES q @ '':'' @ ie_eventId e),
              singletonSeconds = Some DEDUP_WINDOW_SECONDS\<rparr> b of
        (Inl err, b') \<Rightarrow> (Inl err, b')
      | (Inr _, b') \<Rightarrow> dispatch_to add e qs b')"

definition dispatch :: "zod \<Rightarrow> 'b broker_add \<Rightarrow> integration_event \<Rightarrow> ('b, unit) action" where
  "dispatch z add e b =
     (if parseAnyIntegrationEvent z (event_to_js e) = None
      then (Inl (PlainError ''Cannot dispatch an invalid integration event envelope.''), b)
      else (case subscribersOf (ie_name e) of
              Inl err \<Rightarrow> (Inl err, b)
            | Inr qs \<Rightarrow> dispatch_to add e qs b))"

section \<open>The relay's statements\<close>

definition CLAIM_LEASE_SECONDS :: nat where "CLAIM_LEASE_SECONDS = 120"

definition MAX_RELAY_ATTEMPTS :: nat where "MAX_RELAY_ATTEMPTS = 10"

definition MAX_PASSES_PER_RUN :: nat where "MAX_PASSES_PER_RUN = 20"

definition OUTBOX_PRUNE_BATCH_SIZE :: nat where "OUTBOX_PRUNE_BATCH_SIZE = 5000"

definition lease_expired :: "date \<Rightarrow> outbox_row \<Rightarrow> bool" where
  "lease_expired now r =
     (case ob_claimedAt r of None \<Rightarrow> True | Some t \<Rightarrow> t < now - int CLAIM_LEASE_SECONDS * 1000)"

definition undrained :: "outbox_row \<Rightarrow> bool" where
  "undrained r \<longleftrightarrow> ob_drainedAt r = None \<and> ob_deadLetteredAt r = None"

definition claimable :: "date \<Rightarrow> outbox_row \<Rightarrow> bool" where
  "claimable now r \<longleftrightarrow> undrained r \<and> ob_attemptCount r < MAX_RELAY_ATTEMPTS \<and> lease_expired now r"

definition claim_row :: "date \<Rightarrow> uuid \<Rightarrow> outbox_row \<Rightarrow> outbox_row" where
  "claim_row now token r =
     r\<lparr>ob_claimedAt := Some now, ob_claimToken := Some token, ob_attemptCount := ob_attemptCount r + 1\<rparr>"

text \<open>
  \<open>claimBatch\<close>: rows another transaction has locked at that moment are skipped
  (\<open>FOR UPDATE SKIP LOCKED\<close>); the returned rows are the updated ones.
\<close>

definition claim_ids :: "(uuid \<Rightarrow> bool) \<Rightarrow> date \<Rightarrow> nat \<Rightarrow> outbox_row list \<Rightarrow> uuid list" where
  "claim_ids locked now limit rows =
     map ob_eventId
       (take limit (order_by (\<lambda>r. (ob_occurredAt r, ob_eventId r))
          (filter (\<lambda>r. claimable now r \<and> \<not> locked (ob_eventId r)) rows)))"

definition claimBatch ::
  "(uuid \<Rightarrow> bool) \<Rightarrow> date \<Rightarrow> nat \<Rightarrow> uuid \<Rightarrow> outbox_row list \<Rightarrow> outbox_row list \<times> outbox_row list"
where
  "claimBatch locked now limit token rows =
     (let ids = claim_ids locked now limit rows;
          rows' = update_where (\<lambda>r. ob_eventId r \<in> set ids) (claim_row now token) rows
      in (rows', filter (\<lambda>r. ob_eventId r \<in> set ids) rows'))"

definition markDrained :: "date \<Rightarrow> uuid \<Rightarrow> uuid \<Rightarrow> outbox_row list \<Rightarrow> outbox_row list" where
  "markDrained now eventId token rows =
     update_where (\<lambda>r. ob_eventId r = eventId \<and> ob_claimToken r = Some token \<and> ob_deadLetteredAt r = None)
       (\<lambda>r. r\<lparr>ob_drainedAt := Some now, ob_claimedAt := None, ob_claimToken := None\<rparr>) rows"

definition releaseClaim :: "uuid \<Rightarrow> uuid \<Rightarrow> string \<Rightarrow> outbox_row list \<Rightarrow> outbox_row list" where
  "releaseClaim eventId token lastError rows =
     update_where (\<lambda>r. ob_eventId r = eventId \<and> ob_claimToken r = Some token)
       (\<lambda>r. r\<lparr>ob_claimedAt := None, ob_claimToken := None, ob_lastError := Some lastError\<rparr>) rows"

definition exhausted :: "date \<Rightarrow> outbox_row \<Rightarrow> bool" where
  "exhausted now r \<longleftrightarrow> undrained r \<and> MAX_RELAY_ATTEMPTS \<le> ob_attemptCount r \<and> lease_expired now r"

definition quarantineExhaustedRows :: "date \<Rightarrow> outbox_row list \<Rightarrow> outbox_row list" where
  "quarantineExhaustedRows now rows =
     update_where (exhausted now)
       (\<lambda>r. r\<lparr>ob_deadLetteredAt := Some now, ob_claimedAt := None, ob_claimToken := None,
              ob_lastError := (case ob_lastError r of
                                 Some e \<Rightarrow> Some e
                               | None \<Rightarrow> Some ''Outbox relay exceeded 10 attempts.'')\<rparr>) rows"

definition quarantineRows :: "date \<Rightarrow> outbox_row list \<Rightarrow> uuid \<Rightarrow> outbox_row list \<Rightarrow> outbox_row list" where
  "quarantineRows now bad token rows =
     (let names = join_with '', '' (remdups (map ob_eventName bad)) in
      update_where (\<lambda>r. ob_eventId r \<in> set (map ob_eventId bad) \<and> ob_claimToken r = Some token)
        (\<lambda>r. r\<lparr>ob_deadLetteredAt := Some now, ob_claimedAt := None, ob_claimToken := None,
               ob_lastError := Some (''Unknown or invalid integration event contract: '' @ names)\<rparr>) rows)"

section \<open>Relaying\<close>

definition parseOutboxEvent :: "zod \<Rightarrow> outbox_row \<Rightarrow> integration_event option" where
  "parseOutboxEvent z r =
     parseAnyIntegrationEvent z
       (event_to_js \<lparr>ie_eventId = ob_eventId r, ie_name = ob_eventName r,
                     ie_occurredAt = toISOString (ob_occurredAt r),
                     ie_schemaVersion = ob_schemaVersion r, ie_correlationId = None,
                     ie_payload = ob_payload r\<rparr>)"

definition contract_valid :: "zod \<Rightarrow> outbox_row \<Rightarrow> bool" where
  "contract_valid z r \<longleftrightarrow> event_of_name (ob_eventName r) \<noteq> None \<and> parseOutboxEvent z r \<noteq> None"

text \<open>\<open>partitionByContract\<close>: the publishable rows and the invalid ones.\<close>

definition partitionByContract :: "zod \<Rightarrow> outbox_row list \<Rightarrow> outbox_row list \<times> outbox_row list" where
  "partitionByContract z rows = (filter (contract_valid z) rows, filter (\<lambda>r. \<not> contract_valid z r) rows)"

definition toIntegrationEvent :: "zod \<Rightarrow> outbox_row \<Rightarrow> failure + integration_event" where
  "toIntegrationEvent z r =
     (case parseOutboxEvent z r of
        None \<Rightarrow> Inl (PlainError (''Outbox event '' @ ob_eventId r @ '' failed contract validation.''))
      | Some e \<Rightarrow> Inr e)"

text \<open>\<open>describeError\<close>: name and message of an \<open>Error\<close>, cut to the width of the column.\<close>

definition describeError :: "failure \<Rightarrow> string" where
  "describeError e =
     take 2000 (case e of
                  DomainFailure d \<Rightarrow> ''DomainException: '' @ exception_message d
                | PlainError m \<Rightarrow> ''Error: '' @ m
                | HttpFailure _ m \<Rightarrow> ''HttpException: '' @ m)"

text \<open>The loop of \<open>drainOnce\<close>: dispatch and mark, or release, row by row.\<close>

fun relay_rows ::
  "zod \<Rightarrow> 'b broker_add \<Rightarrow> date \<Rightarrow> uuid \<Rightarrow> outbox_row list \<Rightarrow> outbox_row list \<Rightarrow> 'b \<Rightarrow> nat
     \<Rightarrow> nat \<times> outbox_row list \<times> 'b"
where
  "relay_rows z add now token [] rows b dispatched = (dispatched, rows, b)"
| "relay_rows z add now token (r # rs) rows b dispatched =
     (case (case toIntegrationEvent z r of Inl e \<Rightarrow> (Inl e, b) | Inr e \<Rightarrow> dispatch z add e b) of
        (Inr _, b') \<Rightarrow>
          relay_rows z add now token rs (markDrained now (ob_eventId r) token rows) b' (dispatched + 1)
      | (Inl err, b') \<Rightarrow>
          relay_rows z add now token rs (releaseClaim (ob_eventId r) token (describeError err) rows) b' dispatched)"

definition drainOnce ::
  "zod \<Rightarrow> 'b broker_add \<Rightarrow> (uuid \<Rightarrow> bool) \<Rightarrow> nat \<Rightarrow> date \<Rightarrow> uuid \<Rightarrow> outbox_row list \<Rightarrow> 'b
     \<Rightarrow> nat \<times> outbox_row list \<times> 'b"
where
  "drainOnce z add locked batch now token rows b =
     (let (rows1, claimed) = claimBatch locked now batch token (quarantineExhaustedRows now rows) in
      if claimed = [] then (0, rows1, b)
      else
        (let (publishable, bad) = partitionByContract z claimed;
             rows2 = (if bad \<noteq> [] then quarantineRows now bad token rows1 else rows1);
             (dispatched, rows3, b') = relay_rows z add now token publishable rows2 b 0
         in (dispatched + length bad, rows3, b')))"

text \<open>
  \<open>drainUntilIdle\<close>: each pass has its own fresh token and clock reading, given as the lists
  \<open>tokens\<close> and \<open>clock\<close> indexed by the pass number.
\<close>

fun drain_passes ::
  "zod \<Rightarrow> 'b broker_add \<Rightarrow> (uuid \<Rightarrow> bool) \<Rightarrow> nat \<Rightarrow> (date \<times> uuid) list \<Rightarrow> outbox_row list \<Rightarrow> 'b
     \<Rightarrow> nat \<times> outbox_row list \<times> 'b"
where
  "drain_passes z add locked batch [] rows b = (0, rows, b)"
| "drain_passes z add locked batch ((now, token) # rest) rows b =
     (let (drained, rows', b') = drainOnce z add locked batch now token rows b in
      if drained < batch then (drained, rows', b')
      else let (settled, rows'', b'') = drain_passes z add locked batch rest rows' b'
           in (drained + settled, rows'', b''))"

definition drainUntilIdle ::
  "zod \<Rightarrow> 'b broker_add \<Rightarrow> (uuid \<Rightarrow> bool) \<Rightarrow> nat \<Rightarrow> (date \<times> uuid) list \<Rightarrow> outbox_row list \<Rightarrow> 'b
     \<Rightarrow> nat \<times> outbox_row list \<times> 'b"
where
  "drainUntilIdle z add locked batch readings rows b =
     drain_passes z add locked batch (take MAX_PASSES_PER_RUN readings) rows b"

section \<open>Retention and counters\<close>

definition prunable :: "date \<Rightarrow> nat \<Rightarrow> outbox_row \<Rightarrow> bool" where
  "prunable now days r \<longleftrightarrow>
     (case ob_drainedAt r of None \<Rightarrow> False | Some t \<Rightarrow> t < now - int days * ms_per_day)
     \<or> (case ob_deadLetteredAt r of None \<Rightarrow> False | Some t \<Rightarrow> t < now - int days * ms_per_day)"

text \<open>The statement has a limit and no order: any order will do, the model takes insertion order.\<close>

definition pruneOnce :: "date \<Rightarrow> nat \<Rightarrow> nat \<Rightarrow> outbox_row list \<Rightarrow> outbox_row list \<times> nat" where
  "pruneOnce now days limit rows = delete_oldest ob_eventId (prunable now days) (\<lambda>_. 0::nat) limit rows"

definition pruneUntilIdle :: "date \<Rightarrow> nat \<Rightarrow> outbox_row list \<Rightarrow> outbox_row list \<times> nat" where
  "pruneUntilIdle now days rows =
     prune_loop MAX_PASSES_PER_RUN OUTBOX_PRUNE_BATCH_SIZE (pruneOnce now days) rows"

definition countUndrained :: "outbox_row list \<Rightarrow> nat" where
  "countUndrained rows = count_where undrained rows"

definition countQuarantined :: "outbox_row list \<Rightarrow> nat" where
  "countQuarantined rows = count_where (\<lambda>r. ob_deadLetteredAt r \<noteq> None) rows"

definition collectOutboxState :: "outbox_row list \<Rightarrow> (string \<times> nat) list" where
  "collectOutboxState rows =
     [(''outbox_undrained_total'', countUndrained rows), (''outbox_quarantined_total'', countQuarantined rows)]"

definition OUTBOX_PRUNE_CRON :: string where
  "OUTBOX_PRUNE_CRON = ''17 3 * * *''"

section \<open>Any number of relays\<close>

text \<open>
  The committed statements of publishers, relays and pruners, in any order and at any times: a relay
  that stalls, loses its lease or repeats itself is a choice of the arguments.
\<close>

inductive relay_step :: "outbox_row list \<Rightarrow> outbox_row list \<Rightarrow> bool" where
  publish: "outbox_createMany events rows = Inr rows' \<Longrightarrow> relay_step rows rows'"
| exhaust: "relay_step rows (quarantineExhaustedRows now rows)"
| claim: "relay_step rows (fst (claimBatch locked now limit token rows))"
| drain: "relay_step rows (markDrained now eventId token rows)"
| release: "relay_step rows (releaseClaim eventId token err rows)"
| quarantine: "relay_step rows (quarantineRows now bad token rows)"
| prune: "relay_step rows (fst (pruneOnce now days limit rows))"

abbreviation relay_run :: "outbox_row list \<Rightarrow> outbox_row list \<Rightarrow> bool" where
  "relay_run \<equiv> relay_step\<^sup>*\<^sup>*"

definition outbox_row_ok :: "outbox_row \<Rightarrow> bool" where
  "outbox_row_ok r \<longleftrightarrow> ob_attemptCount r \<le> MAX_RELAY_ATTEMPTS
     \<and> (ob_claimToken r = None \<longleftrightarrow> ob_claimedAt r = None)
     \<and> (ob_drainedAt r \<noteq> None \<longrightarrow> ob_claimToken r = None \<and> ob_deadLetteredAt r = None)
     \<and> (ob_deadLetteredAt r \<noteq> None \<longrightarrow> ob_claimToken r = None \<and> ob_lastError r \<noteq> None)"

definition outbox_inv :: "outbox_row list \<Rightarrow> bool" where
  "outbox_inv rows \<longleftrightarrow> unique_on ob_eventId rows \<and> (\<forall>r \<in> set rows. outbox_row_ok r)"

text \<open>What the row says about the event, which no relay statement touches.\<close>

definition content :: "outbox_row \<Rightarrow> uuid \<times> date \<times> string \<times> int \<times> js" where
  "content r = (ob_eventId r, ob_occurredAt r, ob_eventName r, ob_schemaVersion r, ob_payload r)"

definition settled :: "outbox_row \<Rightarrow> bool" where
  "settled r \<longleftrightarrow> \<not> undrained r"

section \<open>The invariant of the table\<close>

lemma outbox_inv_update [row_intros]:
  assumes "outbox_inv rows" and "\<And>r. ob_eventId (f r) = ob_eventId r"
    and "\<And>r. r \<in> set rows \<Longrightarrow> outbox_row_ok r \<Longrightarrow> p r \<Longrightarrow> outbox_row_ok (f r)"
  shows "outbox_inv (update_where p f rows)"
  using assms by (auto simp: outbox_inv_def table_simps intro: unique_on_update)

lemma outbox_inv_createMany:
  "outbox_createMany es rows = Inr rows' \<Longrightarrow> outbox_inv rows \<Longrightarrow> outbox_inv rows'"
proof (induction es rows rule: outbox_createMany.induct)
  case (2 e es rows)
  then obtain p where p: "toJsonObject (ie_payload e) = Inr p"
    and rec: "outbox_createMany es (fst (insert_skip ob_eventId (outbox_insert_row e p) rows)) = Inr rows'"
    by (auto split: sum.splits)
  have "outbox_row_ok (outbox_insert_row e p)"
    by (simp add: outbox_row_ok_def outbox_insert_row_def)
  then have "outbox_inv (fst (insert_skip ob_eventId (outbox_insert_row e p) rows))"
    using 2(3) by (auto simp: outbox_inv_def insert_skip_def unique_on_append)
  with 2(1) [OF p rec] show ?case .
qed simp

lemma claim_id_claimable:
  assumes "unique_on ob_eventId rows" and "r \<in> set rows" and "ob_eventId r \<in> set (claim_ids locked now limit rows)"
  shows "claimable now r \<and> \<not> locked (ob_eventId r)"
proof -
  obtain r' where r': "r' \<in> set (take limit (order_by (\<lambda>r. (ob_occurredAt r, ob_eventId r))
          (filter (\<lambda>r. claimable now r \<and> \<not> locked (ob_eventId r)) rows)))"
    and i: "ob_eventId r = ob_eventId r'"
    using assms(3) by (auto simp: claim_ids_def)
  then have "r' \<in> set rows" "claimable now r'" "\<not> locked (ob_eventId r')"
    by (auto dest!: in_set_takeD)
  moreover then have "r = r'" using unique_onD [OF assms(1,2) _ i] by simp
  ultimately show ?thesis by simp
qed

lemma outbox_inv_statements:
  assumes "outbox_inv rows"
  shows "outbox_inv (quarantineExhaustedRows now rows)"
    and "outbox_inv (fst (claimBatch locked now limit token rows))"
    and "outbox_inv (markDrained now eventId token rows)"
    and "outbox_inv (releaseClaim eventId token err rows)"
    and "outbox_inv (quarantineRows now bad token rows)"
proof -
  show "outbox_inv (quarantineExhaustedRows now rows)"
    unfolding quarantineExhaustedRows_def
    by (rule outbox_inv_update [OF assms])
       (auto simp: outbox_row_ok_def exhausted_def undrained_def split: option.splits)
  have "\<And>r. r \<in> set rows \<Longrightarrow> ob_eventId r \<in> set (claim_ids locked now limit rows) \<Longrightarrow> claimable now r"
    using assms claim_id_claimable by (auto simp: outbox_inv_def)
  then show "outbox_inv (fst (claimBatch locked now limit token rows))"
    unfolding claimBatch_def Let_def fst_conv
    by (intro outbox_inv_update [OF assms])
       (auto simp: outbox_row_ok_def claim_row_def claimable_def undrained_def Suc_le_eq)
  show "outbox_inv (markDrained now eventId token rows)"
    unfolding markDrained_def by (rule outbox_inv_update [OF assms]) (auto simp: outbox_row_ok_def)
  show "outbox_inv (releaseClaim eventId token err rows)"
    unfolding releaseClaim_def by (rule outbox_inv_update [OF assms]) (auto simp: outbox_row_ok_def)
  show "outbox_inv (quarantineRows now bad token rows)"
    unfolding quarantineRows_def Let_def by (rule outbox_inv_update [OF assms]) (auto simp: outbox_row_ok_def)
qed

lemma outbox_inv_step: "relay_step rows rows' \<Longrightarrow> outbox_inv rows \<Longrightarrow> outbox_inv rows'"
proof (induction rule: relay_step.induct)
  case (publish events rows rows')
  then show ?case by (rule outbox_inv_createMany)
next
  case (prune rows now days limit)
  have "set (fst (pruneOnce now days limit rows)) \<subseteq> set rows"
    by (auto simp: pruneOnce_def delete_oldest_def Let_def)
  then show ?case using prune delete_oldest_contract(4) [of ob_eventId rows]
    by (auto simp: outbox_inv_def pruneOnce_def)
qed (simp_all add: outbox_inv_statements)

lemma outbox_inv_run: "relay_run rows rows' \<Longrightarrow> outbox_inv rows \<Longrightarrow> outbox_inv rows'"
  by (induction rule: rtranclp_induct) (simp_all add: outbox_inv_step)

lemma outbox_inv_reachable: "relay_run [] rows \<Longrightarrow> outbox_inv rows"
  by (erule outbox_inv_run) (simp add: outbox_inv_def unique_on_def)

section \<open>No event is lost\<close>

text \<open>What a statement does to one row: keep its content, and keep it settled once it is.\<close>

definition row_kept :: "outbox_row \<Rightarrow> outbox_row \<Rightarrow> bool" where
  "row_kept r r' \<longleftrightarrow> content r' = content r \<and> ob_attemptCount r \<le> ob_attemptCount r'
     \<and> (settled r \<longrightarrow> r' = r)"

lemma row_kept_refl [simp]: "row_kept r r"
  by (simp add: row_kept_def)

lemma row_kept_trans: "row_kept a b \<Longrightarrow> row_kept b c \<Longrightarrow> row_kept a c"
  by (auto simp: row_kept_def)

lemma kept_update:
  assumes "r \<in> set rows" and "p r \<Longrightarrow> row_kept r (f r)"
  shows "\<exists>r' \<in> set (update_where p f rows). row_kept r r'"
  using assms by (cases "p r") (force simp: table_simps)+

lemma kept_createMany:
  "outbox_createMany es rows = Inr rows' \<Longrightarrow> set rows \<subseteq> set rows'"
proof (induction es rows rule: outbox_createMany.induct)
  case (2 e es rows)
  then obtain p where p: "toJsonObject (ie_payload e) = Inr p"
    and rec: "outbox_createMany es (fst (insert_skip ob_eventId (outbox_insert_row e p) rows)) = Inr rows'"
    by (auto split: sum.splits)
  with 2(1) [OF p rec] show ?case by (auto simp: insert_skip_def split: if_splits)
qed simp

lemma prunable_settled: "prunable now days r \<Longrightarrow> settled r"
  by (auto simp: prunable_def settled_def undrained_def split: option.splits)

lemma kept_prune:
  assumes "outbox_inv rows" and "r \<in> set rows" and "\<not> settled r"
  shows "r \<in> set (fst (pruneOnce now days limit rows))"
proof -
  have "r \<in> set (filter (\<lambda>r. \<not> prunable now days r) rows)"
    using assms(2,3) prunable_settled by auto
  also have "filter (\<lambda>r. \<not> prunable now days r) rows
      = filter (\<lambda>r. \<not> prunable now days r) (fst (pruneOnce now days limit rows))"
    using assms(1) by (simp add: outbox_inv_def pruneOnce_def delete_oldest_contract(3))
  finally show ?thesis by simp
qed

lemma kept_step:
  assumes "relay_step rows rows'" and "outbox_inv rows" and "r \<in> set rows"
  shows "(\<exists>r' \<in> set rows'. row_kept r r') \<or> settled r"
  using assms
proof (induction rule: relay_step.induct)
  case (publish events rows rows')
  then show ?case using kept_createMany [of events rows rows'] by (auto intro: bexI [of _ r])
next
  case (exhaust rows now)
  then show ?case unfolding quarantineExhaustedRows_def
    by (intro disjI1 kept_update) (auto simp: row_kept_def content_def settled_def exhausted_def)
next
  case (claim rows locked now limit token)
  have c: "ob_eventId r \<in> set (claim_ids locked now limit rows) \<Longrightarrow> claimable now r"
    using claim claim_id_claimable by (auto simp: outbox_inv_def)
  show ?case unfolding claimBatch_def Let_def fst_conv
    by (intro disjI1 kept_update)
       (use claim c in \<open>auto simp: row_kept_def content_def settled_def claim_row_def claimable_def\<close>)
next
  case (drain rows now eventId token)
  then have "outbox_row_ok r" by (simp add: outbox_inv_def)
  then show ?case unfolding markDrained_def
    by (intro disjI1 kept_update)
       (use drain in \<open>auto simp: row_kept_def content_def settled_def undrained_def outbox_row_ok_def\<close>)
next
  case (release rows eventId token err)
  then have "outbox_row_ok r" by (simp add: outbox_inv_def)
  then show ?case unfolding releaseClaim_def
    by (intro disjI1 kept_update)
       (use release in \<open>auto simp: row_kept_def content_def settled_def undrained_def outbox_row_ok_def\<close>)
next
  case (quarantine rows now bad token)
  then have "outbox_row_ok r" by (simp add: outbox_inv_def)
  then show ?case unfolding quarantineRows_def Let_def
    by (intro disjI1 kept_update)
       (use quarantine in \<open>auto simp: row_kept_def content_def settled_def undrained_def outbox_row_ok_def\<close>)
next
  case (prune rows now days limit)
  then show ?case using kept_prune [of rows r now days limit] row_kept_refl by blast
qed

section \<open>One pass, row by row\<close>

text \<open>
  The reference for a pass: the broker's answer to each publishable row in turn, and what happens
  to each row of the table on its own.
\<close>

definition relay_one :: "zod \<Rightarrow> 'b broker_add \<Rightarrow> outbox_row \<Rightarrow> ('b, unit) action" where
  "relay_one z add r b = (case toIntegrationEvent z r of Inl e \<Rightarrow> (Inl e, b) | Inr e \<Rightarrow> dispatch z add e b)"

fun relay_outcomes :: "zod \<Rightarrow> 'b broker_add \<Rightarrow> outbox_row list \<Rightarrow> 'b \<Rightarrow> (uuid \<times> (failure + unit)) list" where
  "relay_outcomes z add [] b = []"
| "relay_outcomes z add (r # rs) b =
     (ob_eventId r, fst (relay_one z add r b)) # relay_outcomes z add rs (snd (relay_one z add r b))"

definition drained_row :: "date \<Rightarrow> outbox_row \<Rightarrow> outbox_row" where
  "drained_row now r = r\<lparr>ob_drainedAt := Some now, ob_claimedAt := None, ob_claimToken := None\<rparr>"

definition released_row :: "failure \<Rightarrow> outbox_row \<Rightarrow> outbox_row" where
  "released_row e r = r\<lparr>ob_claimedAt := None, ob_claimToken := None, ob_lastError := Some (describeError e)\<rparr>"

definition settle_row :: "date \<Rightarrow> uuid \<Rightarrow> failure + unit \<Rightarrow> outbox_row \<Rightarrow> outbox_row" where
  "settle_row now token outcome r =
     (if ob_claimToken r \<noteq> Some token then r
      else case outcome of
             Inr _ \<Rightarrow> if ob_deadLetteredAt r = None then drained_row now r else r
           | Inl e \<Rightarrow> released_row e r)"

definition settle_by :: "date \<Rightarrow> uuid \<Rightarrow> (uuid \<times> (failure + unit)) list \<Rightarrow> outbox_row \<Rightarrow> outbox_row" where
  "settle_by now token outcomes r =
     (case map_of outcomes (ob_eventId r) of None \<Rightarrow> r | Some out \<Rightarrow> settle_row now token out r)"

lemma settle_row_id [simp]: "ob_eventId (settle_row now token out r) = ob_eventId r"
  by (simp add: settle_row_def drained_row_def released_row_def split: sum.split)

lemma markDrained_row:
  "markDrained now i token rows = map (\<lambda>r. if ob_eventId r = i then settle_row now token (Inr ()) r else r) rows"
  by (auto simp: markDrained_def update_where_def settle_row_def drained_row_def)

lemma releaseClaim_row:
  "releaseClaim i token (describeError e) rows =
     map (\<lambda>r. if ob_eventId r = i then settle_row now token (Inl e) r else r) rows"
  by (auto simp: releaseClaim_def update_where_def settle_row_def released_row_def)

lemma fst_relay_outcomes: "map fst (relay_outcomes z add rs b) = map ob_eventId rs"
  by (induction rs arbitrary: b) simp_all

lemma settle_step:
  assumes "i \<notin> fst ` set outs"
  shows "map (settle_by now token outs) (map (\<lambda>r. if ob_eventId r = i then settle_row now token out r else r) rows)
    = map (settle_by now token ((i, out) # outs)) rows"
proof -
  have "map_of outs i = None" using assms by (simp add: map_of_eq_None_iff)
  then show ?thesis by (simp add: settle_by_def split: option.split)
qed

lemma relay_rows_spec:
  assumes "distinct (map ob_eventId rs)"
  shows "relay_rows z add now token rs rows b n =
     (n + count_where (\<lambda>(_, out). \<not> isl out) (relay_outcomes z add rs b),
      map (settle_by now token (relay_outcomes z add rs b)) rows,
      fold (\<lambda>r b. snd (relay_one z add r b)) rs b)"
  using assms
proof (induction rs arbitrary: rows b n)
  case Nil
  then show ?case by (simp add: settle_by_def count_where_def)
next
  case (Cons r rs)
  let ?o = "relay_outcomes z add rs (snd (relay_one z add r b))"
  have notin: "ob_eventId r \<notin> fst ` set ?o"
    using Cons.prems fst_relay_outcomes [of z add rs "snd (relay_one z add r b)"]
    by (metis distinct.simps(2) list.set_map list.simps(9))
  obtain out b' where out: "relay_one z add r b = (out, b')" by (cases "relay_one z add r b")
  show ?case
  proof (cases out)
    case (Inl e)
    then have "relay_rows z add now token (r # rs) rows b n
        = relay_rows z add now token rs (releaseClaim (ob_eventId r) token (describeError e) rows) b' n"
      using out by (simp add: relay_one_def)
    then show ?thesis using Cons.IH Cons.prems out Inl notin
      unfolding releaseClaim_row [where now = now]
      by (simp add: settle_step del: map_map, simp add: count_where_def)
  next
    case (Inr u)
    then have "relay_rows z add now token (r # rs) rows b n
        = relay_rows z add now token rs (markDrained now (ob_eventId r) token rows) b' (n + 1)"
      using out by (simp add: relay_one_def)
    then show ?thesis using Cons.IH Cons.prems out Inr notin
      unfolding markDrained_row
      by (simp add: settle_step del: map_map, simp add: count_where_def)
  qed
qed

definition pass_picked :: "(uuid \<Rightarrow> bool) \<Rightarrow> date \<Rightarrow> nat \<Rightarrow> outbox_row list \<Rightarrow> outbox_row list" where
  "pass_picked locked now batch rows = filter (\<lambda>r. ob_eventId r \<in> set (claim_ids locked now batch rows)) rows"

definition exhausted_row :: "date \<Rightarrow> outbox_row \<Rightarrow> outbox_row" where
  "exhausted_row now r =
     r\<lparr>ob_deadLetteredAt := Some now, ob_claimedAt := None, ob_claimToken := None,
       ob_lastError := Some (case ob_lastError r of Some e \<Rightarrow> e | None \<Rightarrow> ''Outbox relay exceeded 10 attempts.'')\<rparr>"

definition attempted :: "outbox_row \<Rightarrow> outbox_row" where
  "attempted r = r\<lparr>ob_attemptCount := ob_attemptCount r + 1, ob_claimedAt := None, ob_claimToken := None\<rparr>"

definition pass_row ::
  "zod \<Rightarrow> date \<Rightarrow> outbox_row list \<Rightarrow> (uuid \<times> (failure + unit)) list \<Rightarrow> outbox_row \<Rightarrow> outbox_row"
where
  "pass_row z now picked outcomes r =
     (if exhausted now r then exhausted_row now r
      else if r \<notin> set picked then r
      else if \<not> contract_valid z r
      then (attempted r)\<lparr>ob_deadLetteredAt := Some now,
             ob_lastError := Some (''Unknown or invalid integration event contract: ''
               @ join_with '', '' (remdups (map ob_eventName (filter (\<lambda>r. \<not> contract_valid z r) picked))))\<rparr>
      else (case map_of outcomes (ob_eventId r) of
              Some (Inr _) \<Rightarrow> (attempted r)\<lparr>ob_drainedAt := Some now\<rparr>
            | Some (Inl e) \<Rightarrow> (attempted r)\<lparr>ob_lastError := Some (describeError e)\<rparr>
            | None \<Rightarrow> r))"

lemma contract_valid_claim [simp]: "contract_valid z (claim_row now token r) = contract_valid z r"
  by (simp add: contract_valid_def parseOutboxEvent_def claim_row_def)

lemma relay_one_claim [simp]: "relay_one z add (claim_row now token r) b = relay_one z add r b"
  by (simp add: relay_one_def toIntegrationEvent_def parseOutboxEvent_def claim_row_def split: option.split)

lemma claim_row_id [simp]: "ob_eventId (claim_row now token r) = ob_eventId r"
    "ob_eventName (claim_row now token r) = ob_eventName r"
  by (simp_all add: claim_row_def)

lemma relay_outcomes_claim [simp]:
  "relay_outcomes z add (map (claim_row now token) rs) b = relay_outcomes z add rs b"
  by (induction rs arbitrary: b) simp_all

lemma quarantineExhausted_map:
  "quarantineExhaustedRows now rows = map (\<lambda>r. if exhausted now r then exhausted_row now r else r) rows"
  by (auto simp: quarantineExhaustedRows_def update_where_def exhausted_row_def split: option.split)

lemma exhausted_row_not_claimable [simp]: "\<not> claimable now (exhausted_row now' r)"
  by (simp add: claimable_def undrained_def exhausted_row_def)

lemma exhausted_not_claimable: "exhausted now r \<Longrightarrow> \<not> claimable now r"
  by (simp add: claimable_def exhausted_def)

lemma exhausted_row_id [simp]: "ob_eventId (exhausted_row now r) = ob_eventId r"
  by (simp add: exhausted_row_def)

lemma claimable_after_exhaust:
  "filter (\<lambda>r. claimable now r \<and> \<not> locked (ob_eventId r)) (quarantineExhaustedRows now rows)
     = filter (\<lambda>r. claimable now r \<and> \<not> locked (ob_eventId r)) rows"
  unfolding quarantineExhausted_map by (induction rows) (auto simp: exhausted_not_claimable)

lemma claim_ids_exhaust [simp]:
  "claim_ids locked now limit (quarantineExhaustedRows now rows) = claim_ids locked now limit rows"
  by (simp add: claim_ids_def claimable_after_exhaust)

lemma claimed_rows:
  assumes "unique_on ob_eventId rows"
  shows "snd (claimBatch locked now limit token (quarantineExhaustedRows now rows))
    = map (claim_row now token) (pass_picked locked now limit rows)"
proof -
  let ?I = "set (claim_ids locked now limit rows)"
  have ne: "ob_eventId r \<in> ?I \<Longrightarrow> \<not> exhausted now r" if "r \<in> set rows" for r
    using claim_id_claimable [OF assms that] exhausted_not_claimable by blast
  have "filter (\<lambda>r. ob_eventId r \<in> ?I)
      (update_where (\<lambda>r. ob_eventId r \<in> ?I) (claim_row now token) (quarantineExhaustedRows now xs))
      = map (claim_row now token) (filter (\<lambda>r. ob_eventId r \<in> ?I) xs)" if "set xs \<subseteq> set rows" for xs
    using that by (induction xs) (auto simp: update_where_def quarantineExhausted_map dest: ne)
  then show ?thesis by (simp add: claimBatch_def Let_def pass_picked_def)
qed

lemma claim_ids_take:
  assumes "unique_on ob_eventId rows" and "r \<in> set rows"
  shows "ob_eventId r \<in> set (claim_ids locked now limit rows) \<longleftrightarrow>
    r \<in> set (take limit (order_by (\<lambda>r. (ob_occurredAt r, ob_eventId r))
          (filter (\<lambda>r. claimable now r \<and> \<not> locked (ob_eventId r)) rows)))"
proof -
  let ?t = "take limit (order_by (\<lambda>r. (ob_occurredAt r, ob_eventId r))
          (filter (\<lambda>r. claimable now r \<and> \<not> locked (ob_eventId r)) rows))"
  have sub: "set ?t \<subseteq> set rows" by (auto dest!: in_set_takeD)
  have "r \<in> set ?t" if "r' \<in> set ?t" "ob_eventId r = ob_eventId r'" for r'
    using unique_onD [OF assms subsetD [OF sub that(1)] that(2)] that(1) by simp
  then show ?thesis unfolding claim_ids_def by auto
qed

lemma length_pass_picked:
  assumes "unique_on ob_eventId rows"
  shows "length (pass_picked locked now limit rows)
    = min limit (count_where (\<lambda>r. claimable now r \<and> \<not> locked (ob_eventId r)) rows)"
proof -
  let ?t = "take limit (order_by (\<lambda>r. (ob_occurredAt r, ob_eventId r))
          (filter (\<lambda>r. claimable now r \<and> \<not> locked (ob_eventId r)) rows))"
  have sub: "set ?t \<subseteq> set rows" by (auto dest!: in_set_takeD)
  have dist: "distinct rows" using assms by (auto simp: unique_on_def distinct_map)
  have "pass_picked locked now limit rows = filter (\<lambda>r. r \<in> set ?t) rows"
    unfolding pass_picked_def by (rule filter_cong [OF refl]) (rule claim_ids_take [OF assms])
  then have "length (pass_picked locked now limit rows) = card (set ?t)"
    using length_filter_set [OF dist sub] by simp
  also have "\<dots> = length ?t" using dist by (intro distinct_card) (simp add: order_by_def)
  finally show ?thesis by (simp add: count_where_def min.commute)
qed

lemma quarantineRows_nil: "quarantineRows now [] token rows = rows"
  by (simp add: quarantineRows_def Let_def update_where_none)

lemma drainOnce_unfold:
  fixes locked :: "uuid \<Rightarrow> bool" and now :: date and batch :: nat and z :: zod and add :: "'b broker_add" and b :: 'b
  assumes inv: "outbox_inv rows"
  defines "picked \<equiv> pass_picked locked now batch rows"
  defines "good \<equiv> filter (contract_valid z) picked" and "bad \<equiv> filter (\<lambda>r. \<not> contract_valid z r) picked"
  shows "drainOnce z add locked batch now token rows b =
    (count_where (\<lambda>(_, out). \<not> isl out) (relay_outcomes z add good b) + length bad,
     map (settle_by now token (relay_outcomes z add good b))
       (quarantineRows now (map (claim_row now token) bad) token
         (fst (claimBatch locked now batch token (quarantineExhaustedRows now rows)))),
     fold (\<lambda>r b. snd (relay_one z add r b)) good b)"
proof -
  let ?c = "map (claim_row now token)"
  have u: "unique_on ob_eventId rows" using inv by (simp add: outbox_inv_def)
  obtain rows1 where c: "claimBatch locked now batch token (quarantineExhaustedRows now rows) = (rows1, ?c picked)"
    using claimed_rows [OF u] by (metis prod.collapse picked_def)
  have part: "partitionByContract z (?c picked) = (?c good, ?c bad)"
    by (simp add: partitionByContract_def good_def bad_def filter_map comp_def)
  have dist: "distinct (map ob_eventId (?c good))"
    using u by (simp add: comp_def good_def picked_def pass_picked_def unique_on_def distinct_map_filter)
  have fold_c: "fold (\<lambda>r b. snd (relay_one z add r b)) (?c rs) b' = fold (\<lambda>r b. snd (relay_one z add r b)) rs b'" for rs b'
    by (induction rs arbitrary: b') simp_all
  show ?thesis
  proof (cases "picked = []")
    case True
    then have "good = []" "bad = []" by (simp_all add: good_def bad_def)
    then show ?thesis using True c
      by (simp add: drainOnce_def count_where_def quarantineRows_nil settle_by_def map_idI)
  next
    case False
    then show ?thesis using c part
      by (simp add: drainOnce_def relay_rows_spec [OF dist] fold_c quarantineRows_nil)
  qed
qed

text \<open>The pass equals its per-row reference: every row's fate depends on that row and its own outcome.\<close>

lemma quarantineRows_row:
  "quarantineRows now bad token rows =
     map (\<lambda>r. if ob_eventId r \<in> ob_eventId ` set bad \<and> ob_claimToken r = Some token
               then r\<lparr>ob_deadLetteredAt := Some now, ob_claimedAt := None, ob_claimToken := None,
                      ob_lastError := Some (''Unknown or invalid integration event contract: ''
                        @ join_with '', '' (remdups (map ob_eventName bad)))\<rparr>
               else r) rows"
  by (simp add: quarantineRows_def Let_def update_where_def)

text \<open>What the statements of a pass do to one row, and that together they are \<open>pass_row\<close>.\<close>

definition invalid_row :: "date \<Rightarrow> outbox_row list \<Rightarrow> outbox_row \<Rightarrow> outbox_row" where
  "invalid_row now bad r =
     r\<lparr>ob_deadLetteredAt := Some now, ob_claimedAt := None, ob_claimToken := None,
       ob_lastError := Some (''Unknown or invalid integration event contract: ''
         @ join_with '', '' (remdups (map ob_eventName bad)))\<rparr>"

definition claimed_row :: "date \<Rightarrow> uuid \<Rightarrow> uuid set \<Rightarrow> outbox_row list \<Rightarrow> outbox_row \<Rightarrow> outbox_row" where
  "claimed_row now token ids bad r =
     (let r1 = (if exhausted now r then exhausted_row now r else r);
          r2 = (if ob_eventId r1 \<in> ids then claim_row now token r1 else r1)
      in if ob_eventId r2 \<in> ob_eventId ` set bad \<and> ob_claimToken r2 = Some token then invalid_row now bad r2 else r2)"

lemma claimed_row_settled:
  fixes locked :: "uuid \<Rightarrow> bool" and now :: date and batch :: nat and z :: zod and add :: "'b broker_add" and b :: 'b
  assumes u: "unique_on ob_eventId rows" and fresh: "\<forall>r \<in> set rows. ob_claimToken r \<noteq> Some token" and r: "r \<in> set rows"
  defines "picked \<equiv> pass_picked locked now batch rows"
  defines "outcomes \<equiv> relay_outcomes z add (filter (contract_valid z) picked) b"
  shows "settle_by now token outcomes
      (claimed_row now token (set (claim_ids locked now batch rows)) (filter (\<lambda>r. \<not> contract_valid z r) picked) r)
    = pass_row z now picked outcomes r"
proof -
  have in_picked: "ob_eventId r \<in> ob_eventId ` set (filter q picked) \<longleftrightarrow> r \<in> set picked \<and> q r" for q
    using unique_onD [OF u r] by (auto simp: picked_def pass_picked_def)
  have pick: "r \<in> set picked \<longleftrightarrow> ob_eventId r \<in> set (claim_ids locked now batch rows)"
    using r by (simp add: picked_def pass_picked_def)
  have "fst ` set outcomes = ob_eventId ` set (filter (contract_valid z) picked)"
    unfolding outcomes_def using fst_relay_outcomes by (metis list.set_map)
  then have none: "map_of outcomes (ob_eventId r) = None \<longleftrightarrow> \<not> (r \<in> set picked \<and> contract_valid z r)"
    using in_picked by (simp add: map_of_eq_None_iff)
  consider "exhausted now r" | "\<not> exhausted now r" "r \<notin> set picked" | "\<not> exhausted now r" "r \<in> set picked" "\<not> contract_valid z r"
    | "\<not> exhausted now r" "r \<in> set picked" "contract_valid z r" by blast
  then show ?thesis
  proof cases
    case 1
    then have "r \<notin> set picked" using pick claim_id_claimable [OF u r] exhausted_not_claimable by blast
    then show ?thesis using 1 none pick
      by (simp add: claimed_row_def pass_row_def settle_by_def exhausted_row_def Let_def)
  next
    case 2
    then show ?thesis using pick none fresh r by (simp add: claimed_row_def pass_row_def settle_by_def Let_def)
  next
    case 3
    then show ?thesis using pick none in_picked [of "\<lambda>r. \<not> contract_valid z r"]
      by (simp add: claimed_row_def invalid_row_def pass_row_def settle_by_def claim_row_def attempted_def Let_def)
  next
    case 4
    then obtain out where "map_of outcomes (ob_eventId r) = Some out" using none by auto
    moreover have "ob_deadLetteredAt r = None"
      using 4 pick claim_id_claimable [OF u r] by (simp add: claimable_def undrained_def)
    ultimately show ?thesis using 4 pick in_picked [of "\<lambda>r. \<not> contract_valid z r"]
      by (cases out) (simp_all add: claimed_row_def pass_row_def settle_by_def settle_row_def claim_row_def attempted_def
          drained_row_def released_row_def Let_def)
  qed
qed

lemma drainOnce_rows:
  fixes locked :: "uuid \<Rightarrow> bool" and now :: date and batch :: nat and z :: zod and add :: "'b broker_add" and b :: 'b
  assumes inv: "outbox_inv rows" and fresh: "\<forall>r \<in> set rows. ob_claimToken r \<noteq> Some token"
  defines "picked \<equiv> pass_picked locked now batch rows"
  defines "outcomes \<equiv> relay_outcomes z add (filter (contract_valid z) picked) b"
  shows "fst (snd (drainOnce z add locked batch now token rows b)) = map (pass_row z now picked outcomes) rows"
proof -
  let ?bad = "filter (\<lambda>r. \<not> contract_valid z r) picked"
  have u: "unique_on ob_eventId rows" using inv by (simp add: outbox_inv_def)
  have bad: "ob_eventId ` set (map (claim_row now token) ?bad) = ob_eventId ` set ?bad"
      "map ob_eventName (map (claim_row now token) ?bad) = map ob_eventName ?bad"
    by (simp_all add: image_image comp_def)
  have "fst (snd (drainOnce z add locked batch now token rows b)) =
      map (settle_by now token outcomes)
       (quarantineRows now (map (claim_row now token) ?bad) token
         (fst (claimBatch locked now batch token (quarantineExhaustedRows now rows))))"
    by (simp add: drainOnce_unfold [OF inv] outcomes_def picked_def)
  also have "\<dots> = map (pass_row z now picked outcomes) rows"
    unfolding quarantineRows_row bad claimBatch_def Let_def fst_conv update_where_def claim_ids_exhaust
    unfolding quarantineExhausted_map map_map
    using claimed_row_settled [OF u fresh, where locked = locked and now = now and batch = batch and z = z and add = add and b = b]
    by (intro map_cong [OF refl]) (simp only: claimed_row_def invalid_row_def Let_def comp_def picked_def outcomes_def)
  finally show ?thesis .
qed

lemma drainOnce_count:
  fixes locked :: "uuid \<Rightarrow> bool" and now :: date and batch :: nat and z :: zod and add :: "'b broker_add" and b :: 'b
  assumes inv: "outbox_inv rows"
  defines "picked \<equiv> pass_picked locked now batch rows"
  defines "outcomes \<equiv> relay_outcomes z add (filter (contract_valid z) picked) b"
  shows "fst (drainOnce z add locked batch now token rows b)
    = length picked - count_where (\<lambda>(_, out). isl out) outcomes"
proof -
  have "count_where (\<lambda>(_, out). \<not> isl out) outcomes + count_where (\<lambda>(_, out). isl out) outcomes
      = length (filter (contract_valid z) picked)"
    unfolding count_where_def using length_filter_partition [of "\<lambda>(_, out). isl out" outcomes]
      arg_cong [OF fst_relay_outcomes, of length z add "filter (contract_valid z) picked" b]
    by (simp add: outcomes_def case_prod_unfold)
  moreover have "length (filter (contract_valid z) picked) + length (filter (\<lambda>r. \<not> contract_valid z r) picked)
      = length picked" by (rule length_filter_partition)
  ultimately show ?thesis
    by (simp add: drainOnce_unfold [OF inv] flip: picked_def outcomes_def)
qed

section \<open>A pass is a run of statements\<close>

lemma relay_rows_run: "relay_run rows (fst (snd (relay_rows z add now token rs rows b n)))"
proof (induction rs arbitrary: rows b n)
  case (Cons r rs)
  obtain out b' where out: "relay_one z add r b = (out, b')" by (cases "relay_one z add r b")
  show ?case
  proof (cases out)
    case (Inl e)
    have "relay_run rows (releaseClaim (ob_eventId r) token (describeError e) rows)"
      by (rule r_into_rtranclp) (rule relay_step.release)
    with Cons.IH show ?thesis using out Inl by (auto simp: relay_one_def intro: rtranclp_trans)
  next
    case (Inr u)
    have "relay_run rows (markDrained now (ob_eventId r) token rows)"
      by (rule r_into_rtranclp) (rule relay_step.drain)
    with Cons.IH show ?thesis using out Inr by (auto simp: relay_one_def intro: rtranclp_trans)
  qed
qed simp

lemma drainOnce_run: "relay_run rows (fst (snd (drainOnce z add locked batch now token rows b)))"
proof -
  let ?q = "quarantineExhaustedRows now rows"
  obtain rows1 claimed where c: "claimBatch locked now batch token ?q = (rows1, claimed)"
    by (cases "claimBatch locked now batch token ?q")
  have 1: "relay_run rows ?q" by (rule r_into_rtranclp) (rule relay_step.exhaust)
  have "relay_step ?q rows1" using relay_step.claim [of ?q locked now batch token] c by simp
  with 1 have 2: "relay_run rows rows1" by (rule rtranclp.rtrancl_into_rtrancl)
  show ?thesis
  proof (cases "claimed = []")
    case True
    then show ?thesis using 2 c by (simp add: drainOnce_def)
  next
    case False
    obtain good bad where part: "partitionByContract z claimed = (good, bad)"
      by (cases "partitionByContract z claimed")
    let ?rows2 = "if bad \<noteq> [] then quarantineRows now bad token rows1 else rows1"
    have "relay_run rows1 ?rows2" by (auto intro: relay_step.quarantine)
    then have "relay_run rows (fst (snd (relay_rows z add now token good ?rows2 b 0)))"
      using 2 relay_rows_run [of ?rows2 z add now token good b 0] by (meson rtranclp_trans)
    then show ?thesis using c part False
      by (cases "bad = []") (simp_all add: drainOnce_def Let_def case_prod_unfold)
  qed
qed

section \<open>With the broker up, a run clears its backlog\<close>

definition accepting :: "'b broker_add \<Rightarrow> bool" where
  "accepting add \<longleftrightarrow> (\<forall>q data opts b. \<exists>j b'. add q data opts b = (Inr j, b'))"

definition healthy :: "zod \<Rightarrow> outbox_row list \<Rightarrow> bool" where
  "healthy z rows \<longleftrightarrow> outbox_inv rows \<and>
     (\<forall>r \<in> set rows. undrained r \<longrightarrow>
        contract_valid z r \<and> ob_attemptCount r < MAX_RELAY_ATTEMPTS \<and> ob_claimedAt r = None)"

lemma dispatch_to_ok: "accepting add \<Longrightarrow> fst (dispatch_to add e qs b) = Inr ()"
proof (induction qs arbitrary: b)
  case (Cons q qs)
  obtain j b' where "send add (QUEUES q) (event_to_js e)
             \<lparr>startAfterSeconds = None, singletonKey = Some (QUEUES q @ '':'' @ ie_eventId e),
              singletonSeconds = Some DEDUP_WINDOW_SECONDS\<rparr> b = (Inr j, b')"
    using Cons.prems unfolding send_QUEUES accepting_def by blast
  then show ?case using Cons by simp
qed simp

lemma relay_one_ok:
  assumes "accepting add" and "contract_valid z r"
  shows "fst (relay_one z add r b) = Inr ()"
proof -
  obtain e where e: "parseOutboxEvent z r = Some e" using assms(2) by (auto simp: contract_valid_def)
  have again: "parseAnyIntegrationEvent z (event_to_js e) = Some e"
    using e unfolding parseOutboxEvent_def by (rule parseAny_idem)
  obtain n where "ie_name e = event_name n" using parseAny_name [OF again] by blast
  then have "subscribersOf (ie_name e) = Inr (EVENT_SUBSCRIBERS n)" by (simp add: subscribersOf_def)
  then show ?thesis using e again dispatch_to_ok [OF assms(1)]
    by (simp add: relay_one_def toIntegrationEvent_def dispatch_def)
qed

lemma relay_outcomes_ok:
  "accepting add \<Longrightarrow> \<forall>r \<in> set rs. contract_valid z r \<Longrightarrow> (i, out) \<in> set (relay_outcomes z add rs b) \<Longrightarrow> out = Inr ()"
  by (induction rs arbitrary: b) (auto simp: relay_one_ok)

lemma relay_outcomes_accepted:
  assumes up: "accepting add"
  shows "count_where (\<lambda>(_, out). isl out) (relay_outcomes z add (filter (contract_valid z) rs) b) = 0"
    and "r \<in> set rs \<Longrightarrow> contract_valid z r \<Longrightarrow>
           map_of (relay_outcomes z add (filter (contract_valid z) rs) b) (ob_eventId r) = Some (Inr ())"
proof -
  let ?outs = "relay_outcomes z add (filter (contract_valid z) rs) b"
  have ok: "(i, out) \<in> set ?outs \<Longrightarrow> out = Inr ()" for i out by (rule relay_outcomes_ok [OF up]) auto
  then show "count_where (\<lambda>(_, out). isl out) ?outs = 0" by (fastforce simp: count_where_zero)
  assume "r \<in> set rs" "contract_valid z r"
  then have "ob_eventId r \<in> fst ` set ?outs" using fst_relay_outcomes [of z add "filter (contract_valid z) rs" b]
    by (metis (mono_tags, lifting) filter_set image_eqI list.set_map mem_Collect_eq set_filter)
  then show "map_of ?outs (ob_eventId r) = Some (Inr ())"
    using ok by (metis map_of_SomeD map_of_eq_None_iff not_Some_eq)
qed

lemma undrained_after_marking:
  assumes "distinct rows" "distinct picked" "set picked \<subseteq> {r \<in> set rows. undrained r}"
  shows "countUndrained (map (\<lambda>r. if r \<in> set picked then (attempted r)\<lparr>ob_drainedAt := Some now\<rparr> else r) rows)
    = countUndrained rows - length picked"
proof -
  have "length (filter (\<lambda>r. r \<in> set picked) (filter undrained rows)) = length picked"
    using length_filter_set [of "filter undrained rows" "set picked"] assms distinct_card [OF assms(2)] by auto
  moreover have "countUndrained (map (\<lambda>r. if r \<in> set picked then (attempted r)\<lparr>ob_drainedAt := Some now\<rparr> else r) rows)
      = length (filter (\<lambda>r. r \<notin> set picked) (filter undrained rows))"
    unfolding countUndrained_def count_where_def
    by (auto simp: filter_map comp_def undrained_def attempted_def intro!: arg_cong [where f = length] filter_cong)
  ultimately show ?thesis using length_filter_partition [of "\<lambda>r. r \<in> set picked" "filter undrained rows"]
    by (simp add: countUndrained_def count_where_def)
qed

lemma healthy_pass:
  fixes add :: "'b broker_add" and batch :: nat and now :: date and token :: uuid and b :: 'b
  assumes up: "accepting add" and h: "healthy z rows"
  defines "res \<equiv> drainOnce z add (\<lambda>_. False) batch now token rows b"
  shows "fst res = min batch (countUndrained rows)"
    and "countUndrained (fst (snd res)) = countUndrained rows - min batch (countUndrained rows)"
    and "healthy z (fst (snd res))"
proof -
  let ?picked = "pass_picked (\<lambda>_. False) now batch rows"
  let ?outs = "relay_outcomes z add (filter (contract_valid z) ?picked) b"
  have inv: "outbox_inv rows" and u: "unique_on ob_eventId rows"
    using h by (simp_all add: healthy_def outbox_inv_def)
  have claim_undrained: "claimable now r \<longleftrightarrow> undrained r" if "r \<in> set rows" for r
    using h that by (auto simp: healthy_def claimable_def lease_expired_def)
  have len: "length ?picked = min batch (countUndrained rows)"
    using length_pass_picked [OF u, of "\<lambda>_. False" now batch] claim_undrained
    by (simp add: countUndrained_def count_where_def cong: filter_cong)
  have picked: "r \<in> set ?picked \<Longrightarrow> r \<in> set rows \<and> undrained r" for r
    using claim_id_claimable [OF u] by (auto simp: pass_picked_def claimable_def)
  show "fst res = min batch (countUndrained rows)"
    using drainOnce_count [OF inv, of z add "\<lambda>_. False" batch now token b] len relay_outcomes_accepted(1) [OF up, of z ?picked b]
    by (simp add: res_def)
  have tok: "ob_claimToken r = None" if "r \<in> set rows" for r
    using inv h that by (auto simp: outbox_inv_def outbox_row_ok_def healthy_def undrained_def)
  have row: "pass_row z now ?picked ?outs r = (if r \<in> set ?picked then (attempted r)\<lparr>ob_drainedAt := Some now\<rparr> else r)"
    if "r \<in> set rows" for r
    using that h relay_outcomes_accepted(2) [OF up, of r ?picked z b] picked [of r] by (auto simp: pass_row_def healthy_def exhausted_def)
  have rows': "fst (snd res) = map (\<lambda>r. if r \<in> set ?picked then (attempted r)\<lparr>ob_drainedAt := Some now\<rparr> else r) rows"
    using drainOnce_rows [OF inv, of token z add "\<lambda>_. False" batch now b] tok row by (simp add: res_def)
  show "countUndrained (fst (snd res)) = countUndrained rows - min batch (countUndrained rows)"
    unfolding rows' len [symmetric]
    by (rule undrained_after_marking) (use u picked in \<open>auto simp: pass_picked_def unique_on_def distinct_map\<close>)
  have "outbox_inv (fst (snd res))" unfolding res_def by (rule outbox_inv_run [OF drainOnce_run inv])
  then show "healthy z (fst (snd res))" unfolding healthy_def rows'
    using h by (auto simp: healthy_def undrained_def)
qed

lemma healthy_passes:
  assumes "accepting add" and "healthy z rows"
  shows "fst (drain_passes z add (\<lambda>_. False) batch readings rows b) = min (length readings * batch) (countUndrained rows)
    \<and> countUndrained (fst (snd (drain_passes z add (\<lambda>_. False) batch readings rows b)))
        = countUndrained rows - min (length readings * batch) (countUndrained rows)"
  using assms(2)
proof (induction readings arbitrary: rows b)
  case (Cons x readings)
  obtain now token where x: "x = (now, token)" by (cases x)
  obtain n rows' b' where d: "drainOnce z add (\<lambda>_. False) batch now token rows b = (n, rows', b')"
    by (cases "drainOnce z add (\<lambda>_. False) batch now token rows b")
  note p = healthy_pass [OF assms(1) Cons.prems, of batch now token b, unfolded d fst_conv snd_conv]
  obtain m rows'' b'' where r: "drain_passes z add (\<lambda>_. False) batch readings rows' b' = (m, rows'', b'')"
    by (cases "drain_passes z add (\<lambda>_. False) batch readings rows' b'")
  note ih = Cons.IH [OF p(3), of b', unfolded r fst_conv snd_conv]
  show ?case
  proof (cases "n < batch")
    case True
    then show ?thesis using p(1,2) x d by (auto simp: min_def split: if_splits)
  next
    case False
    then show ?thesis using p(1,2) ih x d r by (auto simp: min_def split: if_splits)
  qed
qed simp

section \<open>Publishing and reading back\<close>

lemma parse_fields_ok: "parse_fields s kvs = Some out \<Longrightarrow> (k, v) \<in> set out \<Longrightarrow> \<exists>opt ok. (k, opt, ok) \<in> set s \<and> ok v"
proof (induction s kvs arbitrary: out rule: parse_fields.induct)
  case (2 k' optional ok fs kvs)
  then show ?case
  proof (cases "map_of kvs k'")
    case None
    then show ?thesis using 2(1) [OF None] 2(3,4) by (auto split: if_splits)
  next
    case (Some v')
    then obtain out' where "ok v'" "parse_fields fs kvs = Some out'" "out = (k', v') # out'"
      using 2(3) by (auto split: if_splits)
    then show ?thesis using 2(2) [OF Some] 2(4) by auto
  qed
qed simp

lemma schema_scalars:
  assumes "(k, opt, ok) \<in> set (INTEGRATION_EVENT_SCHEMAS n z)" and "ok v"
  shows "toJsonMember v = Inr v"
proof -
  have "toJsonMember v = Inr v" if "(\<exists>p. is_str p v) \<or> is_bool v \<or> (\<exists>p. is_int p v)"
    using that by (cases v) (auto simp: is_str_def is_bool_def is_int_def)
  moreover have "(\<exists>p. is_str p v) \<or> is_bool v \<or> (\<exists>p. is_int p v)"
    using assms by (cases n) (auto simp: userRegisteredPayloadSchema_def userEmailVerifiedPayloadSchema_def
        userDeletedPayloadSchema_def uploadConfirmedPayloadSchema_def organizationLifecyclePayloadSchema_def)
  ultimately show ?thesis by blast
qed

lemma toJsonEntries_scalars: "\<forall>(k, v) \<in> set kvs. toJsonMember v = Inr v \<Longrightarrow> toJsonEntries kvs = Inr kvs"
  by (induction kvs) (auto split: prod.splits)

lemma toJsonObject_payload:
  assumes "z_object (INTEGRATION_EVENT_SCHEMAS n z) p = Some p"
  shows "toJsonObject p = Inr p"
proof -
  from assms obtain kvs where p: "p = JsObj kvs" and "parse_fields (INTEGRATION_EVENT_SCHEMAS n z) kvs = Some kvs"
    by (auto simp: z_object_def split: js.splits)
  then have "toJsonMember v = Inr v" if "(k, v) \<in> set kvs" for k v
    using parse_fields_ok [OF _ that] schema_scalars by blast
  then have "toJsonEntries kvs = Inr kvs" by (intro toJsonEntries_scalars) auto
  then show ?thesis by (simp add: p toJsonObject_def isRecord_def)
qed

lemma valid_event_name: "valid_event z e \<Longrightarrow> \<exists>n. ie_name e = event_name n
     \<and> z_object (INTEGRATION_EVENT_SCHEMAS n z) (ie_payload e) = Some (ie_payload e)"
  by (auto simp: valid_event_def split: option.splits dest: event_of_name_Some)

lemma check_events_valid: "\<forall>e \<in> set es. valid_event z e \<Longrightarrow> check_events z es = Inr ()"
proof (induction es)
  case (Cons e es)
  then obtain n where "ie_name e = event_name n" using valid_event_name by fastforce
  then show ?case using Cons parse_event_to_js [of z e] by (simp add: subscribersOf_def)
qed simp

lemma publishAll_one:
  assumes "valid_event z e" and "ie_eventId e \<notin> ob_eventId ` set (outbox d)"
  shows "publishAll z [e] d = (Inr (), d\<lparr>outbox := outbox d @ [outbox_insert_row e (ie_payload e)]\<rparr>)"
proof -
  obtain n where "z_object (INTEGRATION_EVENT_SCHEMAS n z) (ie_payload e) = Some (ie_payload e)"
    using valid_event_name [OF assms(1)] by blast
  then have "toJsonObject (ie_payload e) = Inr (ie_payload e)" by (rule toJsonObject_payload)
  moreover have "ob_eventId (outbox_insert_row e (ie_payload e)) = ie_eventId e" by (simp add: outbox_insert_row_def)
  ultimately show ?thesis using assms check_events_valid [of "[e]" z]
    by (simp add: publishAll_def insert_skip_def del: check_events.simps)
qed

lemma publishAll_outbox: "publishAll z es d = (r, d') \<Longrightarrow> \<exists>rows. d' = d\<lparr>outbox := rows\<rparr>"
proof -
  have same: "d = d\<lparr>outbox := outbox d\<rparr>" by simp
  show "publishAll z es d = (r, d') \<Longrightarrow> \<exists>rows. d' = d\<lparr>outbox := rows\<rparr>"
    by (auto simp: publishAll_def split: if_splits sum.splits intro: exI [of _ "outbox d"])
qed

lemma parseOutboxEvent_insert:
  assumes "valid_event z e" and "ie_occurredAt e = toISOString t" and "valid_date t"
  shows "parseOutboxEvent z (outbox_insert_row e (ie_payload e)) = Some (e\<lparr>ie_correlationId := None\<rparr>)"
proof -
  have "valid_event z (e\<lparr>ie_correlationId := None\<rparr>)"
    using assms(1) by (simp add: valid_event_def valid_envelope_def split: option.splits)
  note parse_event_to_js [OF this]
  then show ?thesis using date_parse_toISOString [OF assms(3)] assms(2)
    by (simp add: parseOutboxEvent_def outbox_insert_row_def event_to_js_def)
qed

section \<open>Pruning\<close>

interpretation outbox_prune: batch_delete "pruneOnce now days" "count_where (prunable now days)"
    "filter (\<lambda>r. \<not> prunable now days r)" "unique_on ob_eventId" for now days
  by unfold_locales (simp_all add: pruneOnce_def delete_oldest_contract)

section \<open>Properties\<close>

text \<open>
  Sample rows for the concrete instances below: an event that the contract accepts, and the
  format checks that accept every string.
\<close>

definition any_zod :: zod where
  "any_zod = \<lparr>z_uuid7 = \<lambda>_. True, z_email = \<lambda>_. True, z_iso_datetime = \<lambda>_. True, z_url = \<lambda>_. True\<rparr>"

definition sample_event :: "uuid \<Rightarrow> uuid option \<Rightarrow> integration_event" where
  "sample_event i cid =
     createIntegrationEvent i 0 USER_DELETED
       (JsObj [(''userId'', JsStr ''u1''), (''deletedAt'', JsStr ''d'')]) cid"

definition sample_row :: "uuid \<Rightarrow> outbox_row" where
  "sample_row i = outbox_insert_row (sample_event i None) (ie_payload (sample_event i None))"

definition null_add :: "unit broker_add" where
  "null_add q data opts b = (Inr None, b)"

lemma sample_event_valid: "valid_event any_zod (sample_event i cid)"
  unfolding sample_event_def
  by (rule createIntegrationEvent_valid) (simp_all add: any_zod_def userDeletedPayloadSchema_def z_object_def)

lemma sample_row_fields [simp]:
  "ob_eventId (sample_row i) = i" "ob_drainedAt (sample_row i) = None" "ob_deadLetteredAt (sample_row i) = None"
  "ob_claimToken (sample_row i) = None" "ob_claimedAt (sample_row i) = None" "ob_attemptCount (sample_row i) = 0"
  by (simp_all add: sample_row_def outbox_insert_row_def sample_event_def createIntegrationEvent_def)

lemma sample_rows_inv: "distinct is \<Longrightarrow> outbox_inv (map sample_row is)"
  by (simp add: outbox_inv_def unique_on_def comp_def outbox_row_ok_def)

lemma sample_parses: "parseOutboxEvent any_zod (sample_row i) = Some (sample_event i None)"
proof -
  have "parseOutboxEvent any_zod (sample_row i) = Some ((sample_event i None)\<lparr>ie_correlationId := None\<rparr>)"
    unfolding sample_row_def
    by (rule parseOutboxEvent_insert [where t = 0])
       (simp_all add: sample_event_valid, simp_all add: sample_event_def createIntegrationEvent_def valid_date_def)
  then show ?thesis by (simp add: sample_event_def createIntegrationEvent_def)
qed

lemma sample_healthy: "distinct is \<Longrightarrow> healthy any_zod (map sample_row is)"
proof -
  have "event_of_name (ob_eventName (sample_row i)) \<noteq> None" for i
    by (simp add: sample_row_def outbox_insert_row_def sample_event_def createIntegrationEvent_def
        del: event_name.simps)
  then show "distinct is \<Longrightarrow> healthy any_zod (map sample_row is)"
    by (simp add: healthy_def sample_rows_inv contract_valid_def sample_parses MAX_RELAY_ATTEMPTS_def)
qed

text \<open>
  C19: Whatever order the committed statements of publishers, relays and pruners take, event ids stay
  unique, no row is attempted more than ten times, a claim token and a claim time are set together,
  and a settled row is either delivered or dead-lettered (never both), unclaimed, and explained by a
  last error when it is dead-lettered.
\<close>

theorem outbox_table_invariant:
  assumes "relay_run [] rows"
  shows "unique_on ob_eventId rows \<and>
    (\<forall>r \<in> set rows. ob_attemptCount r \<le> MAX_RELAY_ATTEMPTS
       \<and> (ob_claimToken r = None \<longleftrightarrow> ob_claimedAt r = None)
       \<and> (ob_drainedAt r \<noteq> None \<longrightarrow> ob_claimToken r = None \<and> ob_deadLetteredAt r = None)
       \<and> (ob_deadLetteredAt r \<noteq> None \<longrightarrow> ob_claimToken r = None \<and> ob_lastError r \<noteq> None))"
  using outbox_inv_reachable [OF assms] by (simp add: outbox_inv_def outbox_row_ok_def)

lemma sample_createMany:
  "outbox_createMany [sample_event i None] rows = Inr (fst (insert_skip ob_eventId (sample_row i) rows))"
proof -
  have "toJsonObject (ie_payload (sample_event i None)) = Inr (ie_payload (sample_event i None))"
    by (simp add: sample_event_def createIntegrationEvent_def toJsonObject_def isRecord_def)
  then show ?thesis by (simp add: sample_row_def)
qed

lemma sample_published: "relay_run [] [sample_row ''e1'']"
proof -
  have "outbox_createMany [sample_event ''e1'' None] [] = Inr [sample_row ''e1'']"
    unfolding sample_createMany by (simp add: insert_skip_def)
  then show ?thesis by (intro r_into_rtranclp) (rule relay_step.publish)
qed

theorem outbox_table_invariant_witness:
  "relay_run [] [sample_row ''e1''] \<and> unique_on ob_eventId [sample_row ''e1'']
   \<and> ob_attemptCount (sample_row ''e1'') \<le> MAX_RELAY_ATTEMPTS"
  using outbox_table_invariant [OF sample_published] sample_published by simp

text \<open>
  C20: No statement loses or alters a pending event. After any step an unsettled row is still there
  with the same event id, time, name, version and payload and no fewer attempts; a settled row is
  either untouched or was removed.
\<close>

theorem outbox_no_event_lost:
  assumes "relay_run [] rows" and "relay_step rows rows'" and "r \<in> set rows"
  shows "(\<exists>r' \<in> set rows'. content r' = content r \<and> ob_attemptCount r \<le> ob_attemptCount r'
            \<and> (\<not> undrained r \<longrightarrow> r' = r))
    \<or> ob_drainedAt r \<noteq> None \<or> ob_deadLetteredAt r \<noteq> None"
  using kept_step [OF assms(2) outbox_inv_reachable [OF assms(1)] assms(3)]
  by (auto simp: row_kept_def settled_def undrained_def)

theorem outbox_no_event_lost_witness:
  "\<exists>r' \<in> set (fst (pruneOnce 0 1 10 [sample_row ''e1''])). content r' = content (sample_row ''e1'')"
  using outbox_no_event_lost [OF sample_published relay_step.prune [of _ 0 1 10], of "sample_row ''e1''"]
  by auto

text \<open>
  C18: One pass of the relay equals its per-row reference: an exhausted row is dead-lettered, a row the
  batch did not pick is untouched, a picked row whose contract is invalid is dead-lettered, and every
  other picked row is drained or released with its own error according to its own dispatch, so that
  a poisonous event never costs another row its delivery. The returned number is the number of picked
  rows less the failed ones.
\<close>

theorem drainOnce_per_row:
  fixes locked :: "uuid \<Rightarrow> bool" and now :: date and batch :: nat and z :: zod and add :: "'b broker_add" and b :: 'b
  assumes "relay_run [] rows" and "\<forall>r \<in> set rows. ob_claimToken r \<noteq> Some token"
  defines "picked \<equiv> pass_picked locked now batch rows"
  defines "outcomes \<equiv> relay_outcomes z add (filter (contract_valid z) picked) b"
  shows "\<exists>b'. drainOnce z add locked batch now token rows b =
    (length picked - count_where (\<lambda>(_, out). isl out) outcomes, map (pass_row z now picked outcomes) rows, b')"
proof -
  have inv: "outbox_inv rows" by (rule outbox_inv_reachable [OF assms(1)])
  show ?thesis
    using drainOnce_count [OF inv, of z add locked batch now token b]
      drainOnce_rows [OF inv assms(2), of z add locked batch now b]
    unfolding picked_def outcomes_def by (metis prod.collapse)
qed

theorem drainOnce_per_row_witness:
  "\<exists>b'. drainOnce any_zod null_add (\<lambda>_. False) 5 0 ''t'' [sample_row ''e1''] () =
    (length (pass_picked (\<lambda>_. False) 0 5 [sample_row ''e1''])
       - count_where (\<lambda>(_, out). isl out)
           (relay_outcomes any_zod null_add
             (filter (contract_valid any_zod) (pass_picked (\<lambda>_. False) 0 5 [sample_row ''e1''])) ()),
     map (pass_row any_zod 0 (pass_picked (\<lambda>_. False) 0 5 [sample_row ''e1''])
       (relay_outcomes any_zod null_add
         (filter (contract_valid any_zod) (pass_picked (\<lambda>_. False) 0 5 [sample_row ''e1''])) ())) [sample_row ''e1''], b')"
  by (rule drainOnce_per_row [OF sample_published]) simp

text \<open>
  C21: The relay delivers. With a broker that accepts jobs, contract-valid pending rows that nobody has
  claimed and a backlog of at most twenty batches, one run of \<open>drainUntilIdle\<close> settles the whole
  backlog and returns its size.
\<close>

theorem drainUntilIdle_clears_backlog:
  assumes "accepting add" and "healthy z rows" and "length readings = MAX_PASSES_PER_RUN"
    and "countUndrained rows \<le> MAX_PASSES_PER_RUN * batch"
  shows "fst (drainUntilIdle z add (\<lambda>_. False) batch readings rows b) = countUndrained rows
    \<and> countUndrained (fst (snd (drainUntilIdle z add (\<lambda>_. False) batch readings rows b))) = 0"
  using healthy_passes [OF assms(1,2), of batch "take MAX_PASSES_PER_RUN readings" b] assms(3,4)
  by (simp add: drainUntilIdle_def min_absorb2)

theorem drainUntilIdle_clears_backlog_witness:
  "countUndrained (map sample_row [''e1'', ''e2'', ''e3'']) = 3 \<and>
   countUndrained (fst (snd (drainUntilIdle any_zod null_add (\<lambda>_. False) 2 (replicate 20 (0, ''t''))
     (map sample_row [''e1'', ''e2'', ''e3'']) ()))) = 0"
proof -
  have c: "countUndrained (map sample_row [''e1'', ''e2'', ''e3'']) = 3"
    by (simp add: countUndrained_def count_where_def undrained_def)
  have "accepting null_add" by (simp add: accepting_def null_add_def)
  then show ?thesis using c
      drainUntilIdle_clears_backlog [OF _ sample_healthy, of null_add "[''e1'', ''e2'', ''e3'']" "replicate 20 (0, ''t'')" 2 "()"]
    by (simp add: MAX_PASSES_PER_RUN_def)
qed

text \<open>
  C22: Claims are fenced. Once a relay has claimed a row under its own token, the statements of a relay
  that still holds another token (a stalled one whose lease expired) change nothing of that row.
\<close>

theorem outbox_claim_fences:
  assumes "r \<in> set (snd (claimBatch locked now limit token rows))" and "stale \<noteq> token"
    and "unique_on ob_eventId rows"
  shows "r \<in> set (markDrained now' (ob_eventId r) stale (fst (claimBatch locked now limit token rows)))
    \<and> r \<in> set (releaseClaim (ob_eventId r) stale err (fst (claimBatch locked now limit token rows)))
    \<and> r \<in> set (quarantineRows now' bad stale (fst (claimBatch locked now limit token rows)))"
proof -
  let ?t = "fst (claimBatch locked now limit token rows)"
  have r: "r \<in> set ?t" and tok: "ob_claimToken r = Some token"
    using assms(1) by (auto simp: claimBatch_def Let_def table_simps claim_row_def split: if_splits)
  have keep: "r \<in> set (update_where p f ?t)" if "\<not> p r" for p f
    using r that by (force simp: set_update_where)
  show ?thesis unfolding markDrained_def releaseClaim_def quarantineRows_def Let_def
    using tok assms(2) by (intro conjI keep) simp_all
qed

theorem outbox_claim_fences_witness:
  "claim_row 0 ''new'' (sample_row ''e1'') \<in> set (markDrained 5 ''e1'' ''old''
     (fst (claimBatch (\<lambda>_. False) 0 3 ''new'' [sample_row ''e1''])))"
proof -
  have "claim_row 0 ''new'' (sample_row ''e1'') \<in> set (snd (claimBatch (\<lambda>_. False) 0 3 ''new'' [sample_row ''e1'']))"
    by (simp add: claimBatch_def claim_ids_def order_by_def update_where_def claimable_def undrained_def
        lease_expired_def MAX_RELAY_ATTEMPTS_def)
  from outbox_claim_fences [OF this, of "''old''" 5] show ?thesis by (simp add: unique_on_def)
qed

text \<open>
  A claim takes only what it may and the oldest first: every claimed row was pending, below its
  attempt limit, unlocked and unclaimed or past its two-minute lease; at most the batch size is taken,
  and all of it when enough is due; an eligible row that was left out is not older than one that was taken.
\<close>

theorem claimBatch_oldest_first:
  assumes "unique_on ob_eventId rows" and "r \<in> set rows"
    and "ob_eventId r \<in> set (claim_ids locked now limit rows)"
  shows "claimable now r \<and> \<not> locked (ob_eventId r)
    \<and> length (snd (claimBatch locked now limit token rows))
         = min limit (count_where (\<lambda>r. claimable now r \<and> \<not> locked (ob_eventId r)) rows)
    \<and> (\<forall>r' \<in> set rows. claimable now r' \<longrightarrow> \<not> locked (ob_eventId r')
           \<longrightarrow> ob_eventId r' \<notin> set (claim_ids locked now limit rows)
           \<longrightarrow> ob_occurredAt r \<le> ob_occurredAt r')"
proof (intro conjI)
  let ?due = "filter (\<lambda>r. claimable now r \<and> \<not> locked (ob_eventId r)) rows"
  let ?o = "order_by (\<lambda>r. (ob_occurredAt r, ob_eventId r)) ?due"
  show "claimable now r" "\<not> locked (ob_eventId r)" using claim_id_claimable [OF assms] by simp_all
  have "snd (claimBatch locked now limit token rows)
      = map (claim_row now token) (filter (\<lambda>r. ob_eventId r \<in> set (claim_ids locked now limit rows)) rows)"
    unfolding claimBatch_def Let_def snd_conv update_where_def filter_map comp_def
    by (auto intro!: map_cong filter_cong)
  then show "length (snd (claimBatch locked now limit token rows)) = min limit (count_where (\<lambda>r. claimable now r \<and> \<not> locked (ob_eventId r)) rows)"
    using length_pass_picked [OF assms(1), of locked now limit] by (simp add: pass_picked_def)
  show "\<forall>r' \<in> set rows. claimable now r' \<longrightarrow> \<not> locked (ob_eventId r')
           \<longrightarrow> ob_eventId r' \<notin> set (claim_ids locked now limit rows) \<longrightarrow> ob_occurredAt r \<le> ob_occurredAt r'"
  proof (intro ballI impI)
    fix r' assume r': "r' \<in> set rows" "claimable now r'" "\<not> locked (ob_eventId r')"
      "ob_eventId r' \<notin> set (claim_ids locked now limit rows)"
    then have "r' \<notin> set (take limit ?o)" using claim_ids_take [OF assms(1) r'(1)] by blast
    moreover have "r' \<in> set (take limit ?o @ drop limit ?o)" using r' by simp
    ultimately have "r' \<in> set (drop limit ?o)" by (simp only: set_append) blast
    moreover have "r \<in> set (take limit ?o)" using assms(3) claim_ids_take [OF assms(1,2)] by blast
    ultimately have "(ob_occurredAt r, ob_eventId r) \<le> (ob_occurredAt r', ob_eventId r')"
      by (rule take_order_by_least [rotated])
    then show "ob_occurredAt r \<le> ob_occurredAt r'" by (auto simp: less_eq_prod_def)
  qed
qed

theorem claimBatch_oldest_first_witness:
  "length (snd (claimBatch (\<lambda>_. False) 0 1 ''t'' [sample_row ''e1''])) = 1"
proof -
  have i: "ob_eventId (sample_row ''e1'') \<in> set (claim_ids (\<lambda>_. False) 0 1 [sample_row ''e1''])"
    by (simp add: claim_ids_def order_by_def claimable_def undrained_def lease_expired_def MAX_RELAY_ATTEMPTS_def)
  show ?thesis using claimBatch_oldest_first [OF _ _ i, of "''t''"]
    by (simp add: unique_on_def count_where_def claimable_def undrained_def lease_expired_def MAX_RELAY_ATTEMPTS_def)
qed

text \<open>
  C23: Publishing and relaying are inverse up to one field. A valid event with a fresh id is appended to
  the outbox as one row, and the relay parses that row back to the same event, except that the
  correlation id it carried is gone: the table has no column for it.
\<close>

theorem publish_relay_roundtrip:
  assumes "valid_event z e" and "ie_eventId e \<notin> ob_eventId ` set (outbox d)"
    and "ie_occurredAt e = toISOString t" and "valid_date t"
  shows "\<exists>r. publishAll z [e] d = (Inr (), d\<lparr>outbox := outbox d @ [r]\<rparr>)
    \<and> toIntegrationEvent z r = Inr (e\<lparr>ie_correlationId := None\<rparr>)"
  using publishAll_one [OF assms(1,2)] parseOutboxEvent_insert [OF assms(1,3,4)]
  by (auto simp: toIntegrationEvent_def)

theorem publish_relay_roundtrip_witness:
  "\<exists>r. publishAll any_zod [sample_event ''e1'' (Some ''c1'')] empty_db = (Inr (), empty_db\<lparr>outbox := [r]\<rparr>)
    \<and> toIntegrationEvent any_zod r = Inr (sample_event ''e1'' None)"
  using publish_relay_roundtrip [OF sample_event_valid, of "''e1''" "Some ''c1''" empty_db 0]
  by (simp add: sample_event_def createIntegrationEvent_def empty_db_def valid_date_def)

text \<open>
  Retention removes only settled rows past their retention and, with at most a hundred thousand
  of them due, removes them all in one run of \<open>pruneUntilIdle\<close>.
\<close>

theorem outbox_prune_run:
  assumes "relay_run [] rows"
  shows "snd (pruneUntilIdle now days rows) = min 100000 (count_where (prunable now days) rows)
    \<and> count_where (prunable now days) (fst (pruneUntilIdle now days rows))
        = count_where (prunable now days) rows - 100000
    \<and> filter (\<lambda>r. \<not> prunable now days r) (fst (pruneUntilIdle now days rows))
        = filter (\<lambda>r. \<not> prunable now days r) rows"
proof -
  have "unique_on ob_eventId rows" using outbox_inv_reachable [OF assms] by (simp add: outbox_inv_def)
  from outbox_prune.prune_loop_spec [OF this, of MAX_PASSES_PER_RUN OUTBOX_PRUNE_BATCH_SIZE now days]
  show ?thesis by (auto simp: pruneUntilIdle_def MAX_PASSES_PER_RUN_def OUTBOX_PRUNE_BATCH_SIZE_def)
qed

theorem outbox_prune_run_witness:
  "snd (pruneUntilIdle 0 7 [sample_row ''e1'']) = 0"
  using outbox_prune_run [OF sample_published, of 0 7] by (simp add: count_where_def prunable_def)

end
