(* ===== verification/Accounts.thy ===== *)
theory Accounts
  imports Outbox
begin

text \<open>
  Accounts: the rows of \<open>auth.user\<close> with the triggers the migration puts on them
  (\<open>src/prisma/migrations/20260830000000_init/migration.sql\<close>) and the \<open>beforeDelete\<close> hook of
  \<open>src/src/platform/auth/better-auth.factory.ts\<close>. The library that signs users in and decides
  when an account is created or deleted is not modelled; what the database does when it does so is.
\<close>

section \<open>Organizations a user is the only owner of\<close>

definition owns :: "uuid \<Rightarrow> uuid \<Rightarrow> organization_membership list \<Rightarrow> bool" where
  "owns org user ms = (\<exists>m \<in> set ms. om_organizationId m = org \<and> om_userId m = user \<and> om_role m = Owner)"

definition soleOwnedOrganizations :: "uuid \<Rightarrow> organization_membership list \<Rightarrow> uuid list" where
  "soleOwnedOrganizations userId ms =
     map om_organizationId
       (filter (\<lambda>mine. om_userId mine = userId \<and> om_role mine = Owner
                  \<and> \<not> (\<exists>other \<in> set ms. om_organizationId other = om_organizationId mine
                          \<and> om_role other = Owner \<and> om_userId other \<noteq> om_userId mine)) ms)"

text \<open>The hook that runs before an account is deleted through the API.\<close>

definition beforeDelete :: "uuid \<Rightarrow> organization_membership list \<Rightarrow> failure + unit" where
  "beforeDelete userId ms =
     (let blocking = soleOwnedOrganizations userId ms in
      if blocking \<noteq> []
      then Inl (conflict LAST_OWNER
             (''Transfer ownership of '' @ show_nat (length blocking)
              @ '' organization(s) you solely own, or archive and purge them, before deleting your account.'') True)
      else Inr ())"

section \<open>Triggers\<close>

datatype trigger_op = Insert auth_user | Update auth_user auth_user | Delete auth_user

definition auth_user_event :: "date \<Rightarrow> trigger_op \<Rightarrow> (integration_event_name \<times> js) option" where
  "auth_user_event now op =
     (case op of
        Insert u \<Rightarrow>
          Some (USER_REGISTERED,
            JsObj [(''userId'', JsStr (au_id u)), (''email'', JsStr (au_email u)),
                   (''emailVerified'', JsBool (au_emailVerified u)),
                   (''registeredAt'', JsStr (toISOString (au_createdAt u)))])
      | Update old u \<Rightarrow>
          (if au_emailVerified old \<noteq> au_emailVerified u \<and> au_emailVerified u
           then Some (USER_EMAIL_VERIFIED,
                  JsObj [(''userId'', JsStr (au_id u)), (''email'', JsStr (au_email u)),
                         (''verifiedAt'', JsStr (toISOString now))])
           else None)
      | Delete u \<Rightarrow>
          Some (USER_DELETED,
            JsObj [(''userId'', JsStr (au_id u)), (''deletedAt'', JsStr (toISOString now))]))"

definition enqueue_auth_user_event :: "uuid \<Rightarrow> date \<Rightarrow> trigger_op \<Rightarrow> db \<Rightarrow> db" where
  "enqueue_auth_user_event eventId now op d =
     (case auth_user_event now op of
        None \<Rightarrow> d
      | Some (name, payload) \<Rightarrow>
          d\<lparr>outbox := outbox d @
              [\<lparr>ob_eventId = eventId, ob_occurredAt = now, ob_eventName = event_name name,
                ob_schemaVersion = 1, ob_payload = payload, ob_drainedAt = None, ob_claimToken = None,
                ob_claimedAt = None, ob_attemptCount = 0, ob_lastError = None, ob_deadLetteredAt = None\<rparr>]\<rparr>)"

definition refuse_last_owner_deletion :: "auth_user \<Rightarrow> organization_membership list \<Rightarrow> failure + unit" where
  "refuse_last_owner_deletion old ms =
     (case soleOwnedOrganizations (au_id old) ms of
        [] \<Rightarrow> Inr ()
      | org # _ \<Rightarrow>
          Inl (PlainError (''user '' @ au_id old @ '' is the only owner of organization '' @ org)))"

section \<open>Statements on the account table\<close>

definition insertUser :: "uuid \<Rightarrow> date \<Rightarrow> auth_user \<Rightarrow> (db, unit) action" where
  "insertUser eventId now u d =
     (case insert_unique au_id ''user_pkey'' u (users d) of
        Inl e \<Rightarrow> (Inl e, d)
      | Inr _ \<Rightarrow>
          (case insert_unique au_email ''user_email_key'' u (users d) of
             Inl e \<Rightarrow> (Inl e, d)
           | Inr us \<Rightarrow> (Inr (), enqueue_auth_user_event eventId now (Insert u) (d\<lparr>users := us\<rparr>))))"

definition setEmailVerified :: "uuid \<Rightarrow> date \<Rightarrow> uuid \<Rightarrow> bool \<Rightarrow> db \<Rightarrow> db" where
  "setEmailVerified eventId now userId v d =
     (case find (\<lambda>u. au_id u = userId) (users d) of
        None \<Rightarrow> d
      | Some old \<Rightarrow>
          enqueue_auth_user_event eventId now (Update old (old\<lparr>au_emailVerified := v\<rparr>))
            (d\<lparr>users := update_where (\<lambda>u. au_id u = userId) (\<lambda>u. u\<lparr>au_emailVerified := v\<rparr>) (users d)\<rparr>))"

text \<open>
  \<open>DELETE\<close> on one account: the guard runs first, the foreign keys cascade to the sessions, the
  memberships and the profile, and the event is written.
\<close>

definition deleteUser :: "uuid \<Rightarrow> date \<Rightarrow> uuid \<Rightarrow> (db, unit) action" where
  "deleteUser eventId now userId d =
     (case find (\<lambda>u. au_id u = userId) (users d) of
        None \<Rightarrow> (Inr (), d)
      | Some old \<Rightarrow>
          (case refuse_last_owner_deletion old (members d) of
             Inl e \<Rightarrow> (Inl e, d)
           | Inr _ \<Rightarrow>
               (Inr (), enqueue_auth_user_event eventId now (Delete old)
                  (d\<lparr>users := delete_where (\<lambda>u. au_id u = userId) (users d),
                     sessions := delete_where (\<lambda>s. ar_userId s = Some userId) (sessions d),
                     members := delete_where (\<lambda>m. om_userId m = userId) (members d),
                     userProfiles := delete_where (\<lambda>p. up_userId p = userId) (userProfiles d)\<rparr>))))"

section \<open>Lemmas\<close>

lemma soleOwned_iff:
  "org \<in> set (soleOwnedOrganizations userId ms) \<longleftrightarrow>
     owns org userId ms \<and> (\<forall>u. owns org u ms \<longrightarrow> u = userId)"
  by (auto simp: soleOwnedOrganizations_def owns_def)

lemma soleOwned_Nil:
  "soleOwnedOrganizations userId ms = [] \<longleftrightarrow> (\<forall>org. owns org userId ms \<longrightarrow> (\<exists>u. u \<noteq> userId \<and> owns org u ms))"
proof -
  have "soleOwnedOrganizations userId ms = [] \<longleftrightarrow> (\<forall>org. org \<notin> set (soleOwnedOrganizations userId ms))"
    by (metis list.set_intros(1) list.exhaust empty_iff list.set(1))
  then show ?thesis unfolding soleOwned_iff by blast
qed

lemma enqueue_fields [simp]:
  "members (enqueue_auth_user_event i t op d) = members d"
  "organizations (enqueue_auth_user_event i t op d) = organizations d"
  "users (enqueue_auth_user_event i t op d) = users d"
  "storedFiles (enqueue_auth_user_event i t op d) = storedFiles d"
  "subscriptions (enqueue_auth_user_event i t op d) = subscriptions d"
  "invitations (enqueue_auth_user_event i t op d) = invitations d"
  "userProfiles (enqueue_auth_user_event i t op d) = userProfiles d"
  by (simp_all add: enqueue_auth_user_event_def split: option.split)

text \<open>Every event a trigger writes satisfies the contract its consumers check.\<close>

lemma auth_user_event_contract:
  assumes "auth_user_event now op = Some (n, payload)"
    and "\<And>u. op = Insert u \<or> op = Delete u \<or> (\<exists>old. op = Update old u) \<Longrightarrow> z_uuid7 z (au_id u) \<and> z_email z (au_email u)"
    and "\<And>t. z_iso_datetime z (toISOString t)"
  shows "z_object (INTEGRATION_EVENT_SCHEMAS n z) payload = Some payload"
proof (cases op)
  case (Insert u)
  then show ?thesis using assms(1,3) assms(2) [of u]
    by (auto simp: auth_user_event_def userRegisteredPayloadSchema_def z_object_def is_bool_def)
next
  case (Update old u)
  then show ?thesis using assms(1,3) assms(2) [of u]
    by (auto simp: auth_user_event_def userEmailVerifiedPayloadSchema_def z_object_def split: if_splits)
next
  case (Delete u)
  then show ?thesis using assms(1,3) assms(2) [of u]
    by (auto simp: auth_user_event_def userDeletedPayloadSchema_def z_object_def)
qed

end
