(* ===== verification/Organizations.thy ===== *)
theory Organizations
  imports Accounts
begin

text \<open>
  The organizations module (\<open>src/src/modules/organizations\<close>): the entities and their validation,
  the two repositories, the use cases, and the invitation notifier. Each repository method is a
  function of the database; a use case is an \<open>action\<close> that opens its transactions as the code
  does. Identifiers, clock readings and secret tokens are arguments, and the digest of a token is the
  parameter \<open>sha\<close>.
\<close>

section \<open>Entities\<close>

definition ORGANIZATION_ROLES :: "organization_role list" where
  "ORGANIZATION_ROLES = [Owner, Admin, Member, Viewer]"

primrec role_name :: "organization_role \<Rightarrow> string" where
  "role_name Owner = ''owner''"
| "role_name Admin = ''admin''"
| "role_name Member = ''member''"
| "role_name Viewer = ''viewer''"

definition slug_char :: "char \<Rightarrow> bool" where
  "slug_char c \<longleftrightarrow> (97 \<le> code_unit c \<and> code_unit c \<le> 122) \<or> (48 \<le> code_unit c \<and> code_unit c \<le> 57)"

text \<open>The pattern of a slug: non-empty runs of lower-case letters and digits, separated by single hyphens.\<close>

definition slug_pattern :: "string \<Rightarrow> bool" where
  "slug_pattern s \<longleftrightarrow> list_all (\<lambda>w. w \<noteq> [] \<and> list_all slug_char w) (split_on (\<lambda>c. c = CHR ''-'') s)"

definition slugSchema :: "string \<Rightarrow> string option" where
  "slugSchema s =
     (let t = trim s in if 3 \<le> length t \<and> length t \<le> 80 \<and> slug_pattern t then Some t else None)"

definition nameSchema :: "string \<Rightarrow> string option" where
  "nameSchema s = (let t = trim s in if 2 \<le> length t \<and> length t \<le> 160 then Some t else None)"

definition Organization_create :: "uuid \<Rightarrow> date \<Rightarrow> string \<Rightarrow> string \<Rightarrow> failure + organization" where
  "Organization_create newId now slug name =
     (case (slugSchema slug, nameSchema name) of
        (Some s, Some n) \<Rightarrow>
          Inr \<lparr>org_id = newId, org_slug = s, org_name = n, org_createdAt = now, org_archivedAt = None\<rparr>
      | _ \<Rightarrow> Inl (validation ORGANIZATION_INVALID ''Organization name or slug is invalid.''))"

definition DEFAULT_TTL_DAYS :: int where "DEFAULT_TTL_DAYS = 7"

definition emailSchema :: "zod \<Rightarrow> string \<Rightarrow> bool" where
  "emailSchema z s \<longleftrightarrow> z_email z s \<and> length s \<le> 320"

definition Invitation_issue ::
  "zod \<Rightarrow> (string \<Rightarrow> string) \<Rightarrow> uuid \<Rightarrow> string \<Rightarrow> date \<Rightarrow> int option \<Rightarrow> uuid \<Rightarrow> string \<Rightarrow> organization_role
     \<Rightarrow> failure + organization_invitation \<times> string"
where
  "Invitation_issue z sha newId token now ttlDays organizationId email role =
     (let e = toLowerCase (trim email) in
      if \<not> emailSchema z e
      then Inl (validation INVITATION_INVALID ''That is not an address an invitation can reach.'')
      else if role = Owner
      then Inl (validation INVITATION_INVALID
             ''Ownership is transferred to an existing member, not handed out by invitation.'')
      else Inr (\<lparr>oi_id = newId, oi_organizationId = organizationId, oi_email = e, oi_role = role,
                 oi_tokenHash = sha token,
                 oi_expiresAt = now + (case ttlDays of None \<Rightarrow> DEFAULT_TTL_DAYS | Some n \<Rightarrow> n) * ms_per_day,
                 oi_acceptedAt = None, oi_createdAt = now\<rparr>, token))"

definition isRedeemableAt :: "date \<Rightarrow> organization_invitation \<Rightarrow> bool" where
  "isRedeemableAt now i \<longleftrightarrow> oi_acceptedAt i = None \<and> now < oi_expiresAt i"

text \<open>\<open>constantTimeEquals\<close> compares the UTF-8 bytes, of equal number.\<close>

definition constantTimeEquals :: "string \<Rightarrow> string \<Rightarrow> bool" where
  "constantTimeEquals l r \<longleftrightarrow> length (utf8 l) = length (utf8 r) \<and> utf8 l = utf8 r"

definition matchesRecipient :: "string \<Rightarrow> organization_invitation \<Rightarrow> bool" where
  "matchesRecipient email i = constantTimeEquals (toLowerCase (trim email)) (oi_email i)"

section \<open>The organization repository\<close>

definition member_key :: "organization_membership \<Rightarrow> uuid \<times> uuid" where
  "member_key m = (om_organizationId m, om_userId m)"

definition createOrganizationWithOwner :: "uuid \<Rightarrow> date \<Rightarrow> organization \<Rightarrow> uuid \<Rightarrow> (db, unit) action" where
  "createOrganizationWithOwner newId now org ownerId d =
     (case insert_unique org_id ''organization_pkey'' org (organizations d) of
        Inl e \<Rightarrow> (Inl e, d)
      | Inr _ \<Rightarrow>
     (case insert_unique org_slug ''organization_slug_key'' org (organizations d) of
        Inl e \<Rightarrow> (Inl e, d)
      | Inr os \<Rightarrow>
     (let d1 = d\<lparr>organizations := os\<rparr>;
          m = \<lparr>om_id = newId, om_organizationId = org_id org, om_userId = ownerId, om_role = Owner,
               om_createdAt = now\<rparr>
      in case require_reference (ownerId \<in> au_id ` set (users d1)) ''organization_member_user_id_fkey'' of
           Inl e \<Rightarrow> (Inl e, d1)
         | Inr _ \<Rightarrow>
             (case insert_unique member_key ''organization_member_organization_id_user_id_key'' m (members d1) of
                Inl e \<Rightarrow> (Inl e, d1)
              | Inr ms \<Rightarrow> (Inr (), d1\<lparr>members := ms\<rparr>)))))"

definition createWithOwner :: "bool \<Rightarrow> uuid \<Rightarrow> date \<Rightarrow> organization \<Rightarrow> uuid \<Rightarrow> (db, unit) action" where
  "createWithOwner inTx newId now org ownerId =
     (if inTx then createOrganizationWithOwner newId now org ownerId
      else transaction False (createOrganizationWithOwner newId now org ownerId))"

definition findById :: "uuid \<Rightarrow> db \<Rightarrow> organization option" where
  "findById i d = find (\<lambda>g. org_id g = i \<and> org_archivedAt g = None) (organizations d)"

definition findByIdIncludingArchived :: "uuid \<Rightarrow> db \<Rightarrow> organization option" where
  "findByIdIncludingArchived i d = find (\<lambda>g. org_id g = i) (organizations d)"

definition live_organization :: "uuid \<Rightarrow> db \<Rightarrow> bool" where
  "live_organization i d = list_ex (\<lambda>g. org_id g = i \<and> org_archivedAt g = None) (organizations d)"

definition findMembership :: "uuid \<Rightarrow> uuid \<Rightarrow> db \<Rightarrow> organization_membership option" where
  "findMembership organizationId userId d =
     find (\<lambda>m. member_key m = (organizationId, userId) \<and> live_organization (om_organizationId m) d) (members d)"

definition findMembershipIncludingArchived :: "uuid \<Rightarrow> uuid \<Rightarrow> db \<Rightarrow> organization_membership option" where
  "findMembershipIncludingArchived organizationId userId d =
     find (\<lambda>m. member_key m = (organizationId, userId)) (members d)"

definition listMembershipsWithOrganization ::
  "uuid \<Rightarrow> db \<Rightarrow> (organization_membership \<times> organization) list"
where
  "listMembershipsWithOrganization userId d =
     concat (map (\<lambda>m. map (Pair m) (filter (\<lambda>g. org_id g = om_organizationId m \<and> org_archivedAt g = None) (organizations d)))
       (order_by om_createdAt (filter (\<lambda>m. om_userId m = userId) (members d))))"

text \<open>\<open>addMember\<close>: \<open>createMany\<close> with \<open>skipDuplicates\<close>; the foreign keys still apply.\<close>

definition addMember :: "uuid \<Rightarrow> date \<Rightarrow> uuid \<Rightarrow> uuid \<Rightarrow> organization_role \<Rightarrow> (db, bool) action" where
  "addMember newId now organizationId userId role d =
     (let m = \<lparr>om_id = newId, om_organizationId = organizationId, om_userId = userId, om_role = role,
               om_createdAt = now\<rparr>;
          (ms, n) = insert_skip member_key m (members d)
      in if n = 0 then (Inr False, d)
         else (case require_reference (organizationId \<in> org_id ` set (organizations d)
                                       \<and> userId \<in> au_id ` set (users d)) ''organization_member_fkey'' of
                 Inl e \<Rightarrow> (Inl e, d)
               | Inr _ \<Rightarrow> (Inr True, d\<lparr>members := ms\<rparr>)))"

record member_detail =
  md_userId :: uuid
  md_email :: string
  md_name :: string
  md_role :: organization_role
  md_joinedAt :: date

definition listMembers :: "uuid \<Rightarrow> db \<Rightarrow> member_detail list" where
  "listMembers organizationId d =
     concat (map (\<lambda>m. map (\<lambda>u. \<lparr>md_userId = om_userId m, md_email = au_email u, md_name = au_name u,
                                  md_role = om_role m, md_joinedAt = om_createdAt m\<rparr>)
                        (filter (\<lambda>u. au_id u = om_userId m) (users d)))
       (order_by om_createdAt (filter (\<lambda>m. om_organizationId m = organizationId) (members d))))"

definition findMemberByEmail :: "uuid \<Rightarrow> string \<Rightarrow> db \<Rightarrow> organization_membership option" where
  "findMemberByEmail organizationId email d =
     find (\<lambda>m. om_organizationId m = organizationId
             \<and> list_ex (\<lambda>u. au_id u = om_userId m \<and> au_email u = email) (users d)) (members d)"

datatype membership_change_outcome = Changed | NotAMember | WouldOrphanOrganization

definition mutateMembership ::
  "uuid \<Rightarrow> uuid \<Rightarrow> (organization_role \<Rightarrow> (db, membership_change_outcome) action)
     \<Rightarrow> (db, membership_change_outcome) action"
where
  "mutateMembership organizationId userId decide d =
     (case find (\<lambda>m. om_organizationId m = organizationId \<and> om_userId m = userId) (members d) of
        None \<Rightarrow> (Inr NotAMember, d)
      | Some current \<Rightarrow> decide (om_role current) d)"

definition isLastOwner :: "uuid \<Rightarrow> uuid \<Rightarrow> db \<Rightarrow> bool" where
  "isLastOwner organizationId userId d =
     (count_where (\<lambda>m. om_organizationId m = organizationId \<and> om_role m = Owner \<and> om_userId m \<noteq> userId)
        (members d) = 0)"

definition update_member_role :: "uuid \<Rightarrow> uuid \<Rightarrow> organization_role \<Rightarrow> db \<Rightarrow> db" where
  "update_member_role organizationId userId role d =
     d\<lparr>members := update_where (\<lambda>m. member_key m = (organizationId, userId)) (\<lambda>m. m\<lparr>om_role := role\<rparr>) (members d)\<rparr>"

definition delete_member :: "uuid \<Rightarrow> uuid \<Rightarrow> db \<Rightarrow> db" where
  "delete_member organizationId userId d =
     d\<lparr>members := delete_where (\<lambda>m. member_key m = (organizationId, userId)) (members d)\<rparr>"

definition changeMemberRole ::
  "bool \<Rightarrow> uuid \<Rightarrow> uuid \<Rightarrow> organization_role \<Rightarrow> (db, membership_change_outcome) action"
where
  "changeMemberRole inTx organizationId userId role =
     withinTransaction inTx
       (mutateMembership organizationId userId
          (\<lambda>current d.
             if current = role then (Inr Changed, d)
             else if current = Owner \<and> isLastOwner organizationId userId d
             then (Inr WouldOrphanOrganization, d)
             else (Inr Changed, update_member_role organizationId userId role d)))"

definition removeMember :: "bool \<Rightarrow> uuid \<Rightarrow> uuid \<Rightarrow> (db, membership_change_outcome) action" where
  "removeMember inTx organizationId userId =
     withinTransaction inTx
       (mutateMembership organizationId userId
          (\<lambda>current d.
             if current = Owner \<and> isLastOwner organizationId userId d
             then (Inr WouldOrphanOrganization, d)
             else (Inr Changed, delete_member organizationId userId d)))"

definition setArchivedAt :: "uuid \<Rightarrow> date option \<Rightarrow> db \<Rightarrow> bool \<times> db" where
  "setArchivedAt i archivedAt d =
     (let p = (\<lambda>g. org_id g = i \<and> (if archivedAt = None then org_archivedAt g \<noteq> None else org_archivedAt g = None))
      in (count_where p (organizations d) = 1,
          d\<lparr>organizations := update_where p (\<lambda>g. g\<lparr>org_archivedAt := archivedAt\<rparr>) (organizations d)\<rparr>))"

definition LIVE_SUBSCRIPTION_STATUSES :: "subscription_status list" where
  "LIVE_SUBSCRIPTION_STATUSES = [Trialing, Active, PastDue, Paused]"

definition purgeWithClient :: "uuid \<Rightarrow> (db, bool) action" where
  "purgeWithClient i d =
     (case find (\<lambda>g. org_id g = i) (organizations d) of
        None \<Rightarrow> (Inr False, d)
      | Some g \<Rightarrow>
          if org_archivedAt g = None then (Inr False, d)
          else if 0 < count_where (\<lambda>s. sub_organizationId s = i \<and> sub_status s \<in> set LIVE_SUBSCRIPTION_STATUSES) (subscriptions d)
                  \<or> 0 < count_where (\<lambda>f. sf_organizationId f = i) (storedFiles d)
          then (Inr False, d)
          else (let p = (\<lambda>g. org_id g = i \<and> org_archivedAt g \<noteq> None) in
                (Inr (count_where p (organizations d) = 1),
                 d\<lparr>subscriptions := delete_where (\<lambda>s. sub_organizationId s = i) (subscriptions d),
                   invitations := delete_where (\<lambda>v. oi_organizationId v = i) (invitations d),
                   members := delete_where (\<lambda>m. om_organizationId m = i) (members d),
                   organizations := delete_where p (organizations d)\<rparr>)))"

definition purge_organization :: "bool \<Rightarrow> uuid \<Rightarrow> (db, bool) action" where
  "purge_organization inTx i = withinTransaction inTx (purgeWithClient i)"

section \<open>The invitation repository\<close>

definition save_invitation :: "organization_invitation \<Rightarrow> (db, unit) action" where
  "save_invitation i d =
     (case require_reference (oi_organizationId i \<in> org_id ` set (organizations d)) ''organization_invitation_organization_id_fkey'' of
        Inl e \<Rightarrow> (Inl e, d)
      | Inr _ \<Rightarrow>
          (case insert_unique oi_tokenHash ''organization_invitation_token_hash_key'' (i\<lparr>oi_acceptedAt := None\<rparr>) (invitations d) of
             Inl e \<Rightarrow> (Inl e, d)
           | Inr is \<Rightarrow> (Inr (), d\<lparr>invitations := is\<rparr>)))"

definition findPendingByTokenHash :: "string \<Rightarrow> db \<Rightarrow> organization_invitation option" where
  "findPendingByTokenHash h d =
     (case find (\<lambda>i. oi_tokenHash i = h) (invitations d) of
        None \<Rightarrow> None
      | Some i \<Rightarrow> if oi_acceptedAt i = None then Some i else None)"

definition markAccepted :: "uuid \<Rightarrow> date \<Rightarrow> db \<Rightarrow> bool \<times> db" where
  "markAccepted i acceptedAt d =
     (let p = (\<lambda>v. oi_id v = i \<and> oi_acceptedAt v = None \<and> acceptedAt < oi_expiresAt v)
      in (count_where p (invitations d) = 1,
          d\<lparr>invitations := update_where p (\<lambda>v. v\<lparr>oi_acceptedAt := Some acceptedAt\<rparr>) (invitations d)\<rparr>))"

definition listPending :: "uuid \<Rightarrow> date \<Rightarrow> db \<Rightarrow> organization_invitation list" where
  "listPending organizationId now d =
     rev (order_by oi_createdAt (rev
       (filter (\<lambda>i. oi_organizationId i = organizationId \<and> oi_acceptedAt i = None \<and> now < oi_expiresAt i) (invitations d))))"

definition revoke :: "uuid \<Rightarrow> uuid \<Rightarrow> db \<Rightarrow> bool \<times> db" where
  "revoke organizationId invitationId d =
     (let p = (\<lambda>i. oi_id i = invitationId \<and> oi_organizationId i = organizationId \<and> oi_acceptedAt i = None)
      in (count_where p (invitations d) = 1, d\<lparr>invitations := delete_where p (invitations d)\<rparr>))"

section \<open>The invitation notifier\<close>

record invitation_notice =
  in_email :: string
  in_organizationId :: uuid
  in_organizationName :: string
  in_token :: string
  in_expiresAt :: date

definition INVITATION_DEDUP_SECONDS :: nat where "INVITATION_DEDUP_SECONDS = 300"

definition sendInvitation :: "(string \<Rightarrow> string) \<Rightarrow> 'b broker_add \<Rightarrow> invitation_notice \<Rightarrow> ('b, unit) action" where
  "sendInvitation sha add n b =
     (case send add (QUEUES ORGANIZATION_SEND_INVITATION)
             (JsObj [(''email'', JsStr (in_email n)), (''organizationId'', JsStr (in_organizationId n)),
                     (''organizationName'', JsStr (in_organizationName n)), (''token'', JsStr (in_token n)),
                     (''expiresAt'', JsStr (toISOString (in_expiresAt n)))])
             \<lparr>startAfterSeconds = None, singletonKey = Some (''invitation:'' @ sha (in_token n)),
              singletonSeconds = Some INVITATION_DEDUP_SECONDS\<rparr> b of
        (Inl e, b') \<Rightarrow> (Inl e, b')
      | (Inr _, b') \<Rightarrow> (Inr (), b'))"

section \<open>Use cases\<close>

record organization_view =
  ov_id :: uuid
  ov_slug :: string
  ov_name :: string
  ov_role :: organization_role
  ov_createdAt :: string

record member_view =
  mv_userId :: uuid
  mv_email :: string
  mv_name :: string
  mv_role :: organization_role
  mv_joinedAt :: string

record invitation_view =
  iv_id :: uuid
  iv_email :: string
  iv_role :: organization_role
  iv_expiresAt :: string
  iv_createdAt :: string

definition to_organization_view :: "organization_role \<Rightarrow> organization \<Rightarrow> organization_view" where
  "to_organization_view role g =
     \<lparr>ov_id = org_id g, ov_slug = org_slug g, ov_name = org_name g, ov_role = role,
      ov_createdAt = toISOString (org_createdAt g)\<rparr>"

definition to_invitation_view :: "organization_invitation \<Rightarrow> invitation_view" where
  "to_invitation_view i =
     \<lparr>iv_id = oi_id i, iv_email = oi_email i, iv_role = oi_role i,
      iv_expiresAt = toISOString (oi_expiresAt i), iv_createdAt = toISOString (oi_createdAt i)\<rparr>"

definition CreateOrganization_execute ::
  "uuid \<Rightarrow> uuid \<Rightarrow> date \<Rightarrow> uuid \<Rightarrow> string \<Rightarrow> string \<Rightarrow> (db, organization_view) action"
where
  "CreateOrganization_execute orgId memberId now ownerId slug name d =
     (case Organization_create orgId now slug name of
        Inl e \<Rightarrow> (Inl e, d)
      | Inr g \<Rightarrow>
          (case createWithOwner False memberId now g ownerId d of
             (Inl e, d') \<Rightarrow> (Inl e, d')
           | (Inr _, d') \<Rightarrow> (Inr (to_organization_view Owner g), d')))"

definition ListMyOrganizations_execute :: "uuid \<Rightarrow> db \<Rightarrow> organization_view list" where
  "ListMyOrganizations_execute userId d =
     map (\<lambda>(m, g). to_organization_view (om_role m) g) (listMembershipsWithOrganization userId d)"

definition InviteMember_execute ::
  "zod \<Rightarrow> (string \<Rightarrow> string) \<Rightarrow> 'b broker_add \<Rightarrow> uuid \<Rightarrow> string \<Rightarrow> date
     \<Rightarrow> uuid \<Rightarrow> string \<Rightarrow> organization_role \<Rightarrow> (db \<times> 'b, invitation_view) action"
where
  "InviteMember_execute z sha add newId token now organizationId email role s =
     (let (d, b) = s in
      case findById organizationId d of
        None \<Rightarrow> (Inl (notFound ORGANIZATION_NOT_FOUND ''Organization not found.''), s)
      | Some g \<Rightarrow>
          if findMemberByEmail organizationId (toLowerCase (trim email)) d \<noteq> None
          then (Inl (conflict CONFLICT ''That person is already a member of this organization.'' True), s)
          else
            (case Invitation_issue z sha newId token now None organizationId email role of
               Inl e \<Rightarrow> (Inl e, s)
             | Inr (i, secret) \<Rightarrow>
                 (case save_invitation i d of
                    (Inl e, d') \<Rightarrow> (Inl e, (d', b))
                  | (Inr _, d') \<Rightarrow>
                      (case sendInvitation sha add
                              \<lparr>in_email = oi_email i, in_organizationId = org_id g, in_organizationName = org_name g,
                               in_token = secret, in_expiresAt = oi_expiresAt i\<rparr> b of
                         (Inl e, b') \<Rightarrow> (Inl e, (d', b'))
                       | (Inr _, b') \<Rightarrow> (Inr (to_invitation_view i), (d', b'))))))"

definition AcceptInvitation_execute ::
  "(string \<Rightarrow> string) \<Rightarrow> uuid \<Rightarrow> date \<Rightarrow> string \<Rightarrow> uuid \<Rightarrow> string \<Rightarrow> (db, uuid \<times> string) action"
where
  "AcceptInvitation_execute sha newId now token userId userEmail d =
     (case findPendingByTokenHash (sha token) d of
        None \<Rightarrow> (Inl (notFound INVITATION_NOT_FOUND ''That invitation is no longer valid.''), d)
      | Some i \<Rightarrow>
          if \<not> isRedeemableAt now i
          then (Inl (notFound INVITATION_NOT_FOUND ''That invitation is no longer valid.''), d)
          else if \<not> matchesRecipient userEmail i
          then (Inl (forbidden INVITATION_NOT_FOUND ''That invitation was issued to a different address.''), d)
          else
            (case transaction False
                    (\<lambda>d. let (claimed, d1) = markAccepted (oi_id i) now d in
                          if \<not> claimed
                          then (Inl (notFound INVITATION_NOT_FOUND ''That invitation is no longer valid.''), d1)
                          else addMember newId now (oi_organizationId i) userId (oi_role i) d1) d of
               (Inl e, d') \<Rightarrow> (Inl e, d')
             | (Inr _, d') \<Rightarrow> (Inr (oi_organizationId i, role_name (oi_role i)), d')))"

definition ListMembers_execute :: "date \<Rightarrow> uuid \<Rightarrow> db \<Rightarrow> member_view list \<times> invitation_view list" where
  "ListMembers_execute now organizationId d =
     (map (\<lambda>m. \<lparr>mv_userId = md_userId m, mv_email = md_email m, mv_name = md_name m, mv_role = md_role m,
                mv_joinedAt = toISOString (md_joinedAt m)\<rparr>) (listMembers organizationId d),
      map to_invitation_view (listPending organizationId now d))"

definition settle :: "membership_change_outcome \<Rightarrow> failure + unit" where
  "settle outcome =
     (case outcome of
        Changed \<Rightarrow> Inr ()
      | NotAMember \<Rightarrow> Inl (notFound MEMBER_NOT_FOUND ''That person is not a member of this organization.'')
      | WouldOrphanOrganization \<Rightarrow>
          Inl (conflict LAST_OWNER ''Promote another member to owner before giving up the last ownership.'' True))"

definition ChangeMemberRole_execute :: "uuid \<Rightarrow> uuid \<Rightarrow> organization_role \<Rightarrow> (db, unit) action" where
  "ChangeMemberRole_execute organizationId userId role d =
     (case changeMemberRole False organizationId userId role d of
        (Inl e, d') \<Rightarrow> (Inl e, d')
      | (Inr outcome, d') \<Rightarrow> (settle outcome, d'))"

definition RemoveMember_execute :: "uuid \<Rightarrow> uuid \<Rightarrow> (db, unit) action" where
  "RemoveMember_execute organizationId userId d =
     (case removeMember False organizationId userId d of
        (Inl e, d') \<Rightarrow> (Inl e, d')
      | (Inr outcome, d') \<Rightarrow> (settle outcome, d'))"

definition RevokeInvitation_execute :: "uuid \<Rightarrow> uuid \<Rightarrow> (db, unit) action" where
  "RevokeInvitation_execute organizationId invitationId d =
     (let (revoked, d') = revoke organizationId invitationId d in
      if \<not> revoked
      then (Inl (notFound INVITATION_NOT_FOUND ''That invitation is no longer pending.''), d')
      else (Inr (), d'))"

definition requireOwner :: "uuid \<Rightarrow> uuid \<Rightarrow> db \<Rightarrow> failure + unit" where
  "requireOwner organizationId actorId d =
     (case findMembershipIncludingArchived organizationId actorId d of
        Some m \<Rightarrow> if om_role m = Owner then Inr ()
                  else Inl (forbidden ORGANIZATION_ACCESS_DENIED ''Owner access is required.'')
      | None \<Rightarrow> Inl (forbidden ORGANIZATION_ACCESS_DENIED ''Owner access is required.''))"

definition isAlreadyInState :: "date option \<Rightarrow> date option \<Rightarrow> bool" where
  "isAlreadyInState current requested =
     (if current = None \<and> requested = None then True
      else if current \<noteq> None \<and> requested \<noteq> None then True
      else False)"

definition lifecycle_event :: "uuid \<Rightarrow> date \<Rightarrow> integration_event_name \<Rightarrow> uuid \<Rightarrow> uuid \<Rightarrow> integration_event" where
  "lifecycle_event newId now name organizationId actorId =
     createIntegrationEvent newId now name
       (JsObj [(''organizationId'', JsStr organizationId), (''actorId'', JsStr actorId)]) None"

definition changeState ::
  "zod \<Rightarrow> uuid \<Rightarrow> date \<Rightarrow> uuid \<Rightarrow> uuid \<Rightarrow> date option \<Rightarrow> integration_event_name \<Rightarrow> (db, unit) action"
where
  "changeState z newId now organizationId actorId archivedAt name d =
     (case requireOwner organizationId actorId d of
        Inl e \<Rightarrow> (Inl e, d)
      | Inr _ \<Rightarrow>
          transaction False
            (\<lambda>d. case findByIdIncludingArchived organizationId d of
                   None \<Rightarrow> (Inl (notFound ORGANIZATION_NOT_FOUND ''Organization not found.''), d)
                 | Some current \<Rightarrow>
                     if isAlreadyInState (org_archivedAt current) archivedAt then (Inr (), d)
                     else
                       (let (changed, d1) = setArchivedAt organizationId archivedAt d in
                        if \<not> changed
                        then (Inl (conflict CONFLICT ''The organization changed state concurrently. Retry the command.'' False), d1)
                        else publishAll z [lifecycle_event newId now name organizationId actorId] d1)) d)"

definition archive :: "zod \<Rightarrow> uuid \<Rightarrow> date \<Rightarrow> uuid \<Rightarrow> uuid \<Rightarrow> (db, unit) action" where
  "archive z newId now organizationId actorId =
     changeState z newId now organizationId actorId (Some now) ORGANIZATION_ARCHIVED"

definition restore :: "zod \<Rightarrow> uuid \<Rightarrow> date \<Rightarrow> uuid \<Rightarrow> uuid \<Rightarrow> (db, unit) action" where
  "restore z newId now organizationId actorId =
     changeState z newId now organizationId actorId None ORGANIZATION_RESTORED"

definition purge :: "zod \<Rightarrow> uuid \<Rightarrow> date \<Rightarrow> uuid \<Rightarrow> uuid \<Rightarrow> (db, unit) action" where
  "purge z newId now organizationId actorId d =
     (case requireOwner organizationId actorId d of
        Inl e \<Rightarrow> (Inl e, d)
      | Inr _ \<Rightarrow>
          (case findByIdIncludingArchived organizationId d of
             None \<Rightarrow> (Inl (notFound ORGANIZATION_NOT_FOUND ''Organization not found.''), d)
           | Some g \<Rightarrow>
               if org_archivedAt g = None
               then (Inl (conflict CONFLICT ''Archive the organization before purging it.'' False), d)
               else
                 transaction False
                   (\<lambda>d. case purge_organization True organizationId d of
                          (Inl e, d1) \<Rightarrow> (Inl e, d1)
                        | (Inr purged, d1) \<Rightarrow>
                            if \<not> purged
                            then (Inl (conflict CONFLICT ''Remove tenant files and billing records before purging the organization.'' False), d1)
                            else publishAll z [lifecycle_event newId now ORGANIZATION_PURGED organizationId actorId] d1) d))"

section \<open>The tenancy invariant\<close>

definition has_owner :: "organization_membership list \<Rightarrow> uuid \<Rightarrow> bool" where
  "has_owner ms org = (\<exists>u. owns org u ms)"

definition tenancy_inv :: "db \<Rightarrow> bool" where
  "tenancy_inv d \<longleftrightarrow>
     unique_on org_id (organizations d) \<and> unique_on org_slug (organizations d)
     \<and> unique_on member_key (members d)
     \<and> (\<forall>g \<in> set (organizations d). has_owner (members d) (org_id g))
     \<and> (\<forall>m \<in> set (members d). om_organizationId m \<in> org_id ` set (organizations d) \<and> om_userId m \<in> au_id ` set (users d))
     \<and> (\<forall>i \<in> set (invitations d). oi_role i \<noteq> Owner)"

text \<open>Every operation that can touch the tenancy tables, with any arguments and any outcome.\<close>

inductive org_step :: "db \<Rightarrow> db \<Rightarrow> bool" where
  create: "CreateOrganization_execute i j now owner slug name d = (r, d') \<Longrightarrow> org_step d d'"
| invite: "InviteMember_execute z sha (add :: (string \<times> js) list broker_add) i token now org email role (d, b) = (r', (d', b')) \<Longrightarrow> org_step d d'"
| accept: "AcceptInvitation_execute sha i now token user email d = (r'', d') \<Longrightarrow> org_step d d'"
| change_role: "ChangeMemberRole_execute org user role d = (u, d') \<Longrightarrow> org_step d d'"
| remove: "RemoveMember_execute org user d = (u, d') \<Longrightarrow> org_step d d'"
| revoke: "RevokeInvitation_execute org i d = (u, d') \<Longrightarrow> org_step d d'"
| archive: "archive z i now org actor d = (u, d') \<Longrightarrow> org_step d d'"
| restore: "restore z i now org actor d = (u, d') \<Longrightarrow> org_step d d'"
| purge: "purge z i now org actor d = (u, d') \<Longrightarrow> org_step d d'"
| register: "insertUser i now usr d = (u, d') \<Longrightarrow> org_step d d'"
| verify: "org_step d (setEmailVerified i now user v d)"
| delete_user: "deleteUser i now user d = (u, d') \<Longrightarrow> org_step d d'"

abbreviation org_run :: "db \<Rightarrow> db \<Rightarrow> bool" where
  "org_run \<equiv> org_step\<^sup>*\<^sup>*"

lemma owns_append: "owns g u (ms @ [m]) \<longleftrightarrow> owns g u ms \<or> (om_organizationId m = g \<and> om_userId m = u \<and> om_role m = Owner)"
  by (auto simp: owns_def)

lemma owns_delete: "owns g u (delete_where (\<lambda>m. member_key m = (org, user)) ms) \<longleftrightarrow> owns g u ms \<and> (g, u) \<noteq> (org, user)"
  by (auto simp: owns_def delete_where_def member_key_def)

lemma owns_update:
  "owns g u (update_where (\<lambda>m. member_key m = (org, user)) (\<lambda>m. m\<lparr>om_role := role\<rparr>) ms) \<longleftrightarrow>
     (if (g, u) = (org, user) then role = Owner \<and> (org, user) \<in> member_key ` set ms else owns g u ms)"
proof -
  let ?f = "\<lambda>m. if member_key m = (org, user) then m\<lparr>om_role := role\<rparr> else m"
  have "owns g u (update_where (\<lambda>m. member_key m = (org, user)) (\<lambda>m. m\<lparr>om_role := role\<rparr>) ms) \<longleftrightarrow>
      (\<exists>m \<in> set ms. member_key (?f m) = (g, u) \<and> om_role (?f m) = Owner)"
    by (simp only: owns_def set_update_where bex_simps member_key_def prod.inject conj_assoc)
  also have "\<dots> \<longleftrightarrow> (\<exists>m \<in> set ms. member_key m = (g, u) \<and> (if (g, u) = (org, user) then role else om_role m) = Owner)"
    by (rule bex_cong [OF refl]) (auto simp: member_key_def)
  also have "\<dots> \<longleftrightarrow> (if (g, u) = (org, user) then role = Owner \<and> (org, user) \<in> member_key ` set ms else owns g u ms)"
    by (auto simp: owns_def member_key_def image_iff)
  finally show ?thesis .
qed

lemma isLastOwner_iff: "isLastOwner org user d \<longleftrightarrow> (\<forall>u. owns org u (members d) \<longrightarrow> u = user)"
  by (auto simp: isLastOwner_def count_where_zero owns_def)

lemma find_member:
  assumes "unique_on member_key ms" and "find (\<lambda>m. om_organizationId m = org \<and> om_userId m = user) ms = Some m"
  shows "m \<in> set ms" and "member_key m = (org, user)" and "owns org user ms \<longleftrightarrow> om_role m = Owner"
proof -
  show m: "m \<in> set ms" and k: "member_key m = (org, user)"
    using assms(2) by (auto simp: find_Some_iff member_key_def)
  show "owns org user ms \<longleftrightarrow> om_role m = Owner"
  proof
    assume "owns org user ms"
    then obtain m' where m': "m' \<in> set ms" "member_key m' = (org, user)" "om_role m' = Owner"
      by (auto simp: owns_def member_key_def)
    then show "om_role m = Owner" using unique_onD [OF assms(1) m m'(1)] k by simp
  qed (use m k in \<open>auto simp: owns_def member_key_def\<close>)
qed

text \<open>The last-owner check is sound and complete for both kinds of change.\<close>

lemma has_owner_update_role:
  assumes "has_owner ms g" and "(org, user) \<in> member_key ` set ms"
    and "role = Owner \<or> \<not> owns org user ms \<or> (\<exists>u. owns org u ms \<and> u \<noteq> user)"
  shows "has_owner (update_where (\<lambda>m. member_key m = (org, user)) (\<lambda>m. m\<lparr>om_role := role\<rparr>) ms) g"
proof -
  obtain u where u: "owns g u ms" using assms(1) by (auto simp: has_owner_def)
  show ?thesis
  proof (cases "(g, u) = (org, user)")
    case False
    then show ?thesis using u unfolding has_owner_def owns_update by (metis (full_types))
  next
    case True
    then consider "role = Owner" | u' where "owns org u' ms" "u' \<noteq> user" using assms(3) u by auto
    then show ?thesis
    proof cases
      case 1
      then show ?thesis using True assms(2) unfolding has_owner_def owns_update by auto
    next
      case 2
      then show ?thesis using True unfolding has_owner_def owns_update by (intro exI [of _ u']) simp
    qed
  qed
qed

lemma has_owner_delete:
  assumes "has_owner ms g" and "\<not> owns org user ms \<or> (\<exists>u. owns org u ms \<and> u \<noteq> user)"
  shows "has_owner (delete_where (\<lambda>m. member_key m = (org, user)) ms) g"
  using assms unfolding has_owner_def owns_delete by (metis prod.inject)

lemma tenancy_inv_members:
  assumes "tenancy_inv d" and "unique_on member_key ms"
    and "\<And>g. has_owner (members d) g \<Longrightarrow> has_owner ms g"
    and "\<And>m. m \<in> set ms \<Longrightarrow> \<exists>m' \<in> set (members d). member_key m' = member_key m"
  shows "tenancy_inv (d\<lparr>members := ms\<rparr>)"
proof -
  have "om_organizationId m \<in> org_id ` set (organizations d) \<and> om_userId m \<in> au_id ` set (users d)" if "m \<in> set ms" for m
    using assms(1) assms(4) [OF that] unfolding tenancy_inv_def member_key_def by (metis prod.inject)
  then show ?thesis using assms by (simp add: tenancy_inv_def)
qed

lemma changeMemberRole_body:
  "changeMemberRole False org user role d = changeMemberRole True org user role d"
  by (auto simp: changeMemberRole_def withinTransaction_def transaction_def mutateMembership_def split: option.split)

lemma removeMember_body: "removeMember False org user d = removeMember True org user d"
  by (auto simp: removeMember_def withinTransaction_def transaction_def mutateMembership_def split: option.split)

lemma tenancy_inv_changeMemberRole:
  assumes inv: "tenancy_inv d" and run: "changeMemberRole t org user role d = (r, d')"
  shows "tenancy_inv d'"
proof (cases "find (\<lambda>m. om_organizationId m = org \<and> om_userId m = user) (members d)")
  case None
  then show ?thesis using run inv changeMemberRole_body [of org user role d]
    by (cases t) (auto simp: changeMemberRole_def withinTransaction_def mutateMembership_def)
next
  case (Some m)
  have u: "unique_on member_key (members d)" using inv by (simp add: tenancy_inv_def)
  note m = find_member [OF u Some]
  have "d' = d \<or> (d' = update_member_role org user role d \<and> \<not> (om_role m = Owner \<and> isLastOwner org user d))"
    using run Some changeMemberRole_body [of org user role d]
    by (cases t) (auto simp: changeMemberRole_def withinTransaction_def mutateMembership_def split: if_splits)
  moreover have "tenancy_inv (update_member_role org user role d)" if "\<not> (om_role m = Owner \<and> isLastOwner org user d)"
    unfolding update_member_role_def
  proof (rule tenancy_inv_members [OF inv])
    show "unique_on member_key (update_where (\<lambda>m. member_key m = (org, user)) (\<lambda>m. m\<lparr>om_role := role\<rparr>) (members d))"
      by (rule unique_on_update [OF u]) (simp add: member_key_def)
    show "has_owner (update_where (\<lambda>m. member_key m = (org, user)) (\<lambda>m. m\<lparr>om_role := role\<rparr>) (members d)) g"
      if "has_owner (members d) g" for g
      by (rule has_owner_update_role [OF that])
         (use m \<open>\<not> (om_role m = Owner \<and> isLastOwner org user d)\<close> in \<open>force, auto simp: isLastOwner_iff\<close>)
  qed (auto simp: table_simps member_key_def split: if_splits)
  ultimately show ?thesis using inv by auto
qed

lemma tenancy_inv_removeMember:
  assumes inv: "tenancy_inv d" and run: "removeMember t org user d = (r, d')"
  shows "tenancy_inv d'"
proof (cases "find (\<lambda>m. om_organizationId m = org \<and> om_userId m = user) (members d)")
  case None
  then show ?thesis using run inv removeMember_body [of org user d]
    by (cases t) (auto simp: removeMember_def withinTransaction_def mutateMembership_def)
next
  case (Some m)
  have u: "unique_on member_key (members d)" using inv by (simp add: tenancy_inv_def)
  note m = find_member [OF u Some]
  have "d' = d \<or> (d' = delete_member org user d \<and> \<not> (om_role m = Owner \<and> isLastOwner org user d))"
    using run Some removeMember_body [of org user d]
    by (cases t) (auto simp: removeMember_def withinTransaction_def mutateMembership_def split: if_splits)
  moreover have "tenancy_inv (delete_member org user d)" if "\<not> (om_role m = Owner \<and> isLastOwner org user d)"
    unfolding delete_member_def
  proof (rule tenancy_inv_members [OF inv])
    show "unique_on member_key (delete_where (\<lambda>m. member_key m = (org, user)) (members d))"
      by (rule unique_on_delete [OF u])
    show "has_owner (delete_where (\<lambda>m. member_key m = (org, user)) (members d)) g" if "has_owner (members d) g" for g
      by (rule has_owner_delete [OF that])
         (use m \<open>\<not> (om_role m = Owner \<and> isLastOwner org user d)\<close> in \<open>auto simp: isLastOwner_iff\<close>)
  qed (auto simp: table_simps)
  ultimately show ?thesis using inv by auto
qed

lemma tenancy_inv_outbox [simp]: "tenancy_inv (d\<lparr>outbox := rows\<rparr>) = tenancy_inv d"
  by (simp add: tenancy_inv_def)

lemma tenancy_inv_publish: "publishAll z es d = (r, d') \<Longrightarrow> tenancy_inv d \<Longrightarrow> tenancy_inv d'"
  by (auto dest!: publishAll_outbox)

lemma tenancy_inv_create:
  assumes inv: "tenancy_inv d" and run: "CreateOrganization_execute i j now owner slug name d = (r, d')"
  shows "tenancy_inv d'"
proof -
  consider "d' = d" | g where "createOrganizationWithOwner j now g owner d = (Inr (), d')"
    using run by (auto simp: CreateOrganization_execute_def createWithOwner_def split: sum.splits prod.splits
        dest!: transaction_cases)
  then show ?thesis
  proof cases
    case 2
    define m where "m = \<lparr>om_id = j, om_organizationId = org_id g, om_userId = owner, om_role = Owner, om_createdAt = now\<rparr>"
    from 2 have d': "d' = d\<lparr>organizations := organizations d @ [g], members := members d @ [m]\<rparr>"
      and new: "org_id g \<notin> org_id ` set (organizations d)" "org_slug g \<notin> org_slug ` set (organizations d)"
        "owner \<in> au_id ` set (users d)" "member_key m \<notin> member_key ` set (members d)"
      by (auto simp: createOrganizationWithOwner_def Let_def m_def insert_unique_Inr split: sum.splits)
    have "has_owner (members d @ [m]) x" if "has_owner (members d) x \<or> x = org_id g" for x
      using that by (auto simp: has_owner_def owns_append m_def)
    then show ?thesis using inv new unfolding d' tenancy_inv_def
      by (auto simp: unique_on_append m_def)
  qed (use inv in simp)
qed

lemma tenancy_inv_invite:
  assumes inv: "tenancy_inv d" and run: "InviteMember_execute z sha add i token now org email role (d, b) = (r, (d', b'))"
  shows "tenancy_inv d'"
proof -
  have "d' = d \<or> (\<exists>v. d' = d\<lparr>invitations := invitations d @ [v]\<rparr> \<and> oi_role v \<noteq> Owner)"
    using run
    by (auto simp: InviteMember_execute_def save_invitation_def Invitation_issue_def Let_def insert_unique_Inr
        split: option.splits if_splits sum.splits prod.splits)
  then show ?thesis using inv by (auto simp: tenancy_inv_def)
qed

lemma tenancy_inv_invitations:
  assumes "tenancy_inv d" and "oi_role ` set is \<subseteq> oi_role ` set (invitations d)"
  shows "tenancy_inv (d\<lparr>invitations := is\<rparr>)"
proof -
  have "Owner \<notin> oi_role ` set (invitations d)" using assms(1) by (auto simp: tenancy_inv_def)
  then have "\<forall>i \<in> set is. oi_role i \<noteq> Owner" using assms(2) by (metis image_eqI subsetD)
  then show ?thesis using assms(1) by (simp add: tenancy_inv_def)
qed

lemma tenancy_inv_addMember:
  assumes inv: "tenancy_inv d" and run: "addMember i now org user role d = (r, d')"
  shows "tenancy_inv d'"
proof -
  define m where "m = \<lparr>om_id = i, om_organizationId = org, om_userId = user, om_role = role, om_createdAt = now\<rparr>"
  have "d' = d \<or> (d' = d\<lparr>members := members d @ [m]\<rparr> \<and> member_key m \<notin> member_key ` set (members d)
      \<and> org \<in> org_id ` set (organizations d) \<and> user \<in> au_id ` set (users d))"
    using run by (auto simp: addMember_def insert_skip_def Let_def m_def split: if_splits sum.splits)
  moreover have "has_owner (members d) x \<Longrightarrow> has_owner (members d @ [m]) x" for x
    by (auto simp: has_owner_def owns_append)
  ultimately show ?thesis using inv by (auto simp: tenancy_inv_def unique_on_append m_def)
qed

lemma tenancy_inv_accept:
  assumes inv: "tenancy_inv d" and run: "AcceptInvitation_execute sha i now token user email d = (r, d')"
  shows "tenancy_inv d'"
proof -
  have "d' = d \<or> (\<exists>(v :: organization_invitation) w c d1. markAccepted (oi_id v) now d = (c, d1)
      \<and> addMember i now (oi_organizationId v) user (oi_role v) d1 = (Inr w, d'))"
    using run by (auto simp: AcceptInvitation_execute_def Let_def transaction_def split: option.splits if_splits
        prod.splits sum.splits)
  moreover have "tenancy_inv (snd (markAccepted v now d))" for v
    unfolding markAccepted_def Let_def snd_conv
    by (rule tenancy_inv_invitations [OF inv]) (simp add: image_update_where)
  ultimately show ?thesis using inv tenancy_inv_addMember by (metis snd_conv)
qed

lemma tenancy_inv_revoke: "tenancy_inv d \<Longrightarrow> RevokeInvitation_execute org i d = (u, d') \<Longrightarrow> tenancy_inv d'"
  by (auto simp: RevokeInvitation_execute_def revoke_def Let_def table_simps split: if_splits
      intro!: tenancy_inv_invitations)

lemma tenancy_inv_organizations:
  assumes "tenancy_inv d" and ids: "map org_id os = map org_id (organizations d)"
    and "map org_slug os = map org_slug (organizations d)"
  shows "tenancy_inv (d\<lparr>organizations := os\<rparr>)"
proof -
  have set: "org_id ` set os = org_id ` set (organizations d)" using ids by (metis list.set_map)
  have "has_owner (members d) (org_id g)" if "g \<in> set os" for g
  proof -
    have "org_id g \<in> org_id ` set (organizations d)" using that set by blast
    then show ?thesis using assms(1) by (auto simp: tenancy_inv_def)
  qed
  then show ?thesis using assms set by (simp add: tenancy_inv_def unique_on_def)
qed

lemma tenancy_inv_setArchivedAt: "tenancy_inv d \<Longrightarrow> tenancy_inv (snd (setArchivedAt i a d))"
  unfolding setArchivedAt_def Let_def snd_conv
  by (rule tenancy_inv_organizations) (simp_all add: map_update_where)

lemma tenancy_inv_changeState:
  assumes inv: "tenancy_inv d" and run: "changeState z i now org actor a n d = (r, d')"
  shows "tenancy_inv d'"
proof -
  have "d' = d \<or> (\<exists>u. publishAll z [lifecycle_event i now n org actor] (snd (setArchivedAt org a d)) = (Inr u, d'))"
    using run by (auto simp: changeState_def Let_def case_prod_unfold split: option.splits if_splits
        sum.splits dest!: transaction_cases)
  then show ?thesis using inv tenancy_inv_publish tenancy_inv_setArchivedAt by blast
qed

lemma tenancy_inv_purgeWithClient:
  assumes inv: "tenancy_inv d" and run: "purgeWithClient i d = (r, d')"
  shows "tenancy_inv d'"
proof -
  define rest where "rest = delete_where (\<lambda>g. org_id g = i \<and> org_archivedAt g \<noteq> None) (organizations d)"
  let ?d = "d\<lparr>subscriptions := delete_where (\<lambda>s. sub_organizationId s = i) (subscriptions d),
              invitations := delete_where (\<lambda>v. oi_organizationId v = i) (invitations d),
              members := delete_where (\<lambda>m. om_organizationId m = i) (members d), organizations := rest\<rparr>"
  have d': "d' = d \<or> (d' = ?d \<and> (\<exists>g. find (\<lambda>g. org_id g = i) (organizations d) = Some g \<and> org_archivedAt g \<noteq> None))"
    using run unfolding rest_def by (auto simp: purgeWithClient_def Let_def split: option.splits if_splits)
  have "tenancy_inv ?d" if "find (\<lambda>g. org_id g = i) (organizations d) = Some g" "org_archivedAt g \<noteq> None" for g
  proof -
    have u: "unique_on org_id (organizations d)" using inv by (simp add: tenancy_inv_def)
    have g: "g \<in> set (organizations d)" "org_id g = i" using that(1) by (auto simp: find_Some_iff)
    have arch: "org_archivedAt x \<noteq> None" if "x \<in> set (organizations d)" "org_id x = i" for x
      using unique_onD [OF u that(1) g(1)] that(2) g(2) \<open>org_archivedAt g \<noteq> None\<close> by simp
    have os: "set rest = {x \<in> set (organizations d). org_id x \<noteq> i}"
      unfolding rest_def set_delete_where using arch by blast
    have keys: "unique_on org_id rest" "unique_on org_slug rest"
      using inv unfolding rest_def tenancy_inv_def by (blast intro: unique_on_delete)+
    have own: "has_owner (delete_where (\<lambda>m. om_organizationId m = i) (members d)) x"
      if "has_owner (members d) x" "x \<noteq> i" for x
      using that by (auto simp: has_owner_def owns_def delete_where_def)
    show ?thesis using inv own unfolding tenancy_inv_def
      by (auto simp: os keys set_delete_where intro: unique_on_delete)
  qed
  with d' inv show ?thesis by blast
qed

lemma tenancy_inv_purge:
  assumes inv: "tenancy_inv d" and run: "purge z i now org actor d = (r, d')"
  shows "tenancy_inv d'"
proof -
  have "d' = d \<or> (\<exists>u v d1. purgeWithClient org d = (Inr v, d1)
      \<and> publishAll z [lifecycle_event i now ORGANIZATION_PURGED org actor] d1 = (Inr u, d'))"
    using run by (auto simp: purge_def purge_organization_def withinTransaction_def
        split: option.splits if_splits sum.splits prod.splits dest!: transaction_cases)
  then show ?thesis using inv tenancy_inv_publish tenancy_inv_purgeWithClient by blast
qed

lemma tenancy_inv_users:
  assumes "tenancy_inv d" and "au_id ` set (users d) \<subseteq> au_id ` set us"
  shows "tenancy_inv (d\<lparr>users := us\<rparr>)"
  using assms by (auto simp: tenancy_inv_def)

lemma tenancy_inv_enqueue [simp]: "tenancy_inv (enqueue_auth_user_event i t op d) = tenancy_inv d"
  by (simp add: tenancy_inv_def)

lemma tenancy_inv_deleteUser:
  assumes inv: "tenancy_inv d" and run: "deleteUser i now user d = (r, d')"
  shows "tenancy_inv d'"
proof -
  let ?d = "d\<lparr>users := delete_where (\<lambda>u. au_id u = user) (users d),
                     sessions := delete_where (\<lambda>s. ar_userId s = Some user) (sessions d),
                     members := delete_where (\<lambda>m. om_userId m = user) (members d),
                     userProfiles := delete_where (\<lambda>p. up_userId p = user) (userProfiles d)\<rparr>"
  have "d' = d \<or> (\<exists>old. au_id old = user \<and> soleOwnedOrganizations user (members d) = [] \<and>
      d' = enqueue_auth_user_event i now (Delete old) ?d)"
    using run by (auto simp: deleteUser_def refuse_last_owner_deletion_def find_Some_iff
        split: option.splits sum.splits list.splits)
  moreover have "tenancy_inv ?d" if sole: "soleOwnedOrganizations user (members d) = []"
  proof -
    have "has_owner (delete_where (\<lambda>m. om_userId m = user) (members d)) g" if g: "has_owner (members d) g" for g
    proof -
      have others: "\<exists>u. u \<noteq> user \<and> owns g u (members d)" if "owns g user (members d)"
        using sole that by (simp add: soleOwned_Nil)
      obtain u where "owns g u (members d)" using g by (auto simp: has_owner_def)
      then obtain u where "u \<noteq> user" "owns g u (members d)" using others by (cases "u = user") auto
      then show ?thesis by (auto simp: has_owner_def owns_def delete_where_def)
    qed
    then show ?thesis using inv by (auto simp: tenancy_inv_def set_delete_where intro: unique_on_delete)
  qed
  ultimately show ?thesis using inv by auto
qed

lemma tenancy_inv_step: "org_step d d' \<Longrightarrow> tenancy_inv d \<Longrightarrow> tenancy_inv d'"
proof (induction rule: org_step.induct)
  case (change_role org user role d u d')
  then show ?case
    by (auto simp: ChangeMemberRole_execute_def split: prod.splits sum.splits dest: tenancy_inv_changeMemberRole)
next
  case (remove org user d u d')
  then show ?case
    by (auto simp: RemoveMember_execute_def split: prod.splits sum.splits dest: tenancy_inv_removeMember)
next
  case (register i now usr d u d')
  then show ?case
    by (auto simp: insertUser_def insert_unique_Inr split: sum.splits intro!: tenancy_inv_users)
next
  case (verify d i now user v)
  then show ?case
    by (auto simp: setEmailVerified_def image_update_where split: option.splits intro!: tenancy_inv_users)
qed (auto simp: archive_def restore_def dest: tenancy_inv_create tenancy_inv_invite tenancy_inv_accept
      tenancy_inv_revoke tenancy_inv_changeState tenancy_inv_purge tenancy_inv_deleteUser)

lemma tenancy_inv_run: "org_run d d' \<Longrightarrow> tenancy_inv d \<Longrightarrow> tenancy_inv d'"
  by (induction rule: rtranclp_induct) (simp_all add: tenancy_inv_step)

lemma tenancy_inv_empty: "tenancy_inv empty_db"
  by (simp add: tenancy_inv_def empty_db_def unique_on_def)

section \<open>Two changes at once\<close>

text \<open>
  The repository runs each change in its own transaction at the default isolation level, where a
  statement sees what has been committed when it starts. A transaction is the sequence of its three
  statements: lock the membership row and read its role (waiting while another transaction holds that
  row), count the other owners, and write. The write becomes visible to others when it commits.
\<close>

datatype tx_phase = Waiting | Holding organization_role | Writing | Finished membership_change_outcome

record role_tx =
  tx_organizationId :: uuid
  tx_userId :: uuid
  tx_role :: "organization_role option" \<comment> \<open>\<open>None\<close> removes the member\<close>
  tx_phase :: tx_phase

definition holds_lock :: "uuid \<times> uuid \<Rightarrow> role_tx \<Rightarrow> bool" where
  "holds_lock k t \<longleftrightarrow> (tx_organizationId t, tx_userId t) = k
     \<and> (case tx_phase t of Holding _ \<Rightarrow> True | Writing \<Rightarrow> True | _ \<Rightarrow> False)"

definition tx_lock :: "organization_membership list \<Rightarrow> role_tx \<Rightarrow> role_tx" where
  "tx_lock ms t =
     t\<lparr>tx_phase := (case find (\<lambda>m. om_organizationId m = tx_organizationId t \<and> om_userId m = tx_userId t) ms of
                      None \<Rightarrow> Finished NotAMember
                    | Some m \<Rightarrow> Holding (om_role m))\<rparr>"

definition tx_decide :: "organization_membership list \<Rightarrow> organization_role \<Rightarrow> role_tx \<Rightarrow> role_tx" where
  "tx_decide ms current t =
     t\<lparr>tx_phase :=
         (if tx_role t = Some current then Finished Changed
          else if current = Owner \<and> isLastOwner (tx_organizationId t) (tx_userId t) (empty_db\<lparr>members := ms\<rparr>)
          then Finished WouldOrphanOrganization
          else Writing)\<rparr>"

definition tx_write :: "organization_membership list \<Rightarrow> role_tx \<Rightarrow> organization_membership list" where
  "tx_write ms t =
     members (case tx_role t of
                Some role \<Rightarrow> update_member_role (tx_organizationId t) (tx_userId t) role (empty_db\<lparr>members := ms\<rparr>)
              | None \<Rightarrow> delete_member (tx_organizationId t) (tx_userId t) (empty_db\<lparr>members := ms\<rparr>))"

inductive tx_step ::
  "organization_membership list \<times> role_tx list \<Rightarrow> organization_membership list \<times> role_tx list \<Rightarrow> bool"
where
  lock: "i < length ts \<Longrightarrow> tx_phase (ts ! i) = Waiting \<Longrightarrow>
    list_all (\<lambda>t. \<not> holds_lock (tx_organizationId (ts ! i), tx_userId (ts ! i)) t) ts \<Longrightarrow>
    tx_step (ms, ts) (ms, ts[i := tx_lock ms (ts ! i)])"
| decide: "i < length ts \<Longrightarrow> tx_phase (ts ! i) = Holding current \<Longrightarrow>
    tx_step (ms, ts) (ms, ts[i := tx_decide ms current (ts ! i)])"
| commit: "i < length ts \<Longrightarrow> tx_phase (ts ! i) = Writing \<Longrightarrow>
    tx_step (ms, ts) (tx_write ms (ts ! i), ts[i := (ts ! i)\<lparr>tx_phase := Finished Changed\<rparr>])"

text \<open>Run alone, the three statements are the repository's operation.\<close>

lemma tx_alone:
  assumes "find (\<lambda>m. om_organizationId m = org \<and> om_userId m = user) (members d) = Some m"
    and "\<not> isLastOwner org user d" and "om_role m \<noteq> role"
  shows "members (snd (changeMemberRole True org user role d)) =
    tx_write (members d) \<lparr>tx_organizationId = org, tx_userId = user, tx_role = Some role, tx_phase = Writing\<rparr>"
  using assms
  by (auto simp: changeMemberRole_def withinTransaction_def mutateMembership_def tx_write_def update_member_role_def)

section \<open>Properties\<close>

definition sample_user :: "uuid \<Rightarrow> auth_user" where
  "sample_user u = \<lparr>au_id = u, au_name = ''N'', au_email = u @ ''@example.com'', au_emailVerified = True,
     au_role = ''member'', au_createdAt = 0\<rparr>"

definition sample_org :: organization where
  "sample_org = \<lparr>org_id = ''g1'', org_slug = ''acme'', org_name = ''Acme'', org_createdAt = 0, org_archivedAt = None\<rparr>"

definition sample_owner :: "uuid \<Rightarrow> organization_membership" where
  "sample_owner u = \<lparr>om_id = ''m'' @ u, om_organizationId = ''g1'', om_userId = u, om_role = Owner, om_createdAt = 0\<rparr>"

lemma sample_create:
  "Organization_create ''g1'' 0 ''acme'' ''Acme'' = Inr sample_org"
  by (simp add: Organization_create_def slugSchema_def nameSchema_def slug_pattern_def slug_char_def trim_def
      trim_start_def is_js_space_def Let_def sample_org_def)

text \<open>
  C24: An organization always has an owner. Whatever sequence of commands is executed (creating,
  inviting, accepting, changing roles, removing members, archiving, restoring, purging, registering
  and deleting accounts), every organization that exists has a member with the owner role whose
  account exists, and a user has at most one membership in it.
\<close>

theorem organization_always_has_owner:
  assumes "org_run empty_db d" and "g \<in> set (organizations d)"
  shows "(\<exists>m \<in> set (members d). om_organizationId m = org_id g \<and> om_role m = Owner \<and> om_userId m \<in> au_id ` set (users d))
    \<and> unique_on member_key (members d) \<and> unique_on org_slug (organizations d)"
proof -
  have inv: "tenancy_inv d" by (rule tenancy_inv_run [OF assms(1) tenancy_inv_empty])
  then obtain u where "owns (org_id g) u (members d)"
    using assms(2) by (auto simp: tenancy_inv_def has_owner_def)
  then show ?thesis using inv by (auto simp: tenancy_inv_def owns_def)
qed

lemma sample_run: "\<exists>d. org_run empty_db d \<and> organizations d = [sample_org]"
proof -
  obtain d1 where d1: "insertUser ''e'' 0 (sample_user ''u1'') empty_db = (Inr (), d1)" "users d1 = [sample_user ''u1'']"
      "organizations d1 = []" "members d1 = []"
    by (simp add: insertUser_def insert_unique_def empty_db_def)
  obtain v d2 where d2: "CreateOrganization_execute ''g1'' ''m1'' 0 ''u1'' ''acme'' ''Acme'' d1 = (Inr v, d2)"
      "organizations d2 = [sample_org]"
    using d1 by (simp add: CreateOrganization_execute_def sample_create createWithOwner_def transaction_def
        createOrganizationWithOwner_def insert_unique_def require_reference_def Let_def)
       (simp add: sample_user_def insert_unique_def)
  have "org_run empty_db d2"
    using org_step.register [OF d1(1)] org_step.create [OF d2(1)] by (meson rtranclp.simps)
  then show ?thesis using d2(2) by blast
qed

theorem organization_always_has_owner_witness:
  "\<exists>d. org_run empty_db d \<and> organizations d = [sample_org] \<and>
     (\<exists>m \<in> set (members d). om_organizationId m = ''g1'' \<and> om_role m = Owner)"
proof -
  obtain d where d: "org_run empty_db d" "organizations d = [sample_org]" using sample_run by blast
  from organization_always_has_owner [OF d(1), of sample_org] d show ?thesis by (auto simp: sample_org_def)
qed

text \<open>
  C25: The row lock does not protect the rule when two changes run at once. Two owners of one
  organization who demote each other (the transactions lock different rows) can both count the other
  as a remaining owner, both commit, and leave the organization with no owner at all.
\<close>

theorem concurrent_demotions_orphan_organization:
  "\<exists>ms' ts'. tx_step\<^sup>*\<^sup>*
      ([sample_owner ''a'', sample_owner ''b''],
       [\<lparr>tx_organizationId = ''g1'', tx_userId = ''a'', tx_role = Some Member, tx_phase = Waiting\<rparr>,
        \<lparr>tx_organizationId = ''g1'', tx_userId = ''b'', tx_role = Some Member, tx_phase = Waiting\<rparr>])
      (ms', ts')
    \<and> map tx_phase ts' = [Finished Changed, Finished Changed] \<and> \<not> has_owner ms' ''g1''"
proof -
  let ?t = "\<lambda>u p. \<lparr>tx_organizationId = ''g1'', tx_userId = u, tx_role = Some Member, tx_phase = p\<rparr>"
  let ?m = "\<lambda>u r. (sample_owner u)\<lparr>om_role := r\<rparr>"
  let ?ms = "[sample_owner ''a'', sample_owner ''b'']"
  note defs = tx_lock_def tx_decide_def tx_write_def isLastOwner_def count_where_def sample_owner_def
    holds_lock_def update_member_role_def update_where_def member_key_def empty_db_def
  have 1: "tx_step (?ms, [?t ''a'' Waiting, ?t ''b'' Waiting]) (?ms, [?t ''a'' (Holding Owner), ?t ''b'' Waiting])"
    using tx_step.lock [of 0 "[?t ''a'' Waiting, ?t ''b'' Waiting]" ?ms] by (simp add: defs)
  have 2: "tx_step (?ms, [?t ''a'' (Holding Owner), ?t ''b'' Waiting]) (?ms, [?t ''a'' (Holding Owner), ?t ''b'' (Holding Owner)])"
    using tx_step.lock [of 1 "[?t ''a'' (Holding Owner), ?t ''b'' Waiting]" ?ms] by (simp add: defs)
  have 3: "tx_step (?ms, [?t ''a'' (Holding Owner), ?t ''b'' (Holding Owner)]) (?ms, [?t ''a'' Writing, ?t ''b'' (Holding Owner)])"
    using tx_step.decide [of 0 "[?t ''a'' (Holding Owner), ?t ''b'' (Holding Owner)]" Owner ?ms] by (simp add: defs)
  have 4: "tx_step (?ms, [?t ''a'' Writing, ?t ''b'' (Holding Owner)]) (?ms, [?t ''a'' Writing, ?t ''b'' Writing])"
    using tx_step.decide [of 1 "[?t ''a'' Writing, ?t ''b'' (Holding Owner)]" Owner ?ms] by (simp add: defs)
  have 5: "tx_step (?ms, [?t ''a'' Writing, ?t ''b'' Writing])
      ([?m ''a'' Member, sample_owner ''b''], [?t ''a'' (Finished Changed), ?t ''b'' Writing])"
    using tx_step.commit [of 0 "[?t ''a'' Writing, ?t ''b'' Writing]" ?ms] by (simp add: defs)
  have 6: "tx_step ([?m ''a'' Member, sample_owner ''b''], [?t ''a'' (Finished Changed), ?t ''b'' Writing])
      ([?m ''a'' Member, ?m ''b'' Member], [?t ''a'' (Finished Changed), ?t ''b'' (Finished Changed)])"
    using tx_step.commit [of 1 "[?t ''a'' (Finished Changed), ?t ''b'' Writing]" "[?m ''a'' Member, sample_owner ''b'']"]
    by (simp add: defs)
  have run: "tx_step\<^sup>*\<^sup>* (?ms, [?t ''a'' Waiting, ?t ''b'' Waiting])
      ([?m ''a'' Member, ?m ''b'' Member], [?t ''a'' (Finished Changed), ?t ''b'' (Finished Changed)])"
    using 1 2 3 4 5 6 by (meson rtranclp.rtrancl_refl rtranclp.rtrancl_into_rtrancl)
  have phases: "map tx_phase [?t ''a'' (Finished Changed), ?t ''b'' (Finished Changed)] = [Finished Changed, Finished Changed]"
    by simp
  have orphan: "\<not> has_owner [?m ''a'' Member, ?m ''b'' Member] ''g1''" by (simp add: has_owner_def owns_def)
  show ?thesis by (rule exI, rule exI, rule conjI [OF run conjI [OF phases orphan]])
qed

lemma requireOwner_owns:
  assumes "unique_on member_key (members d)"
  shows "requireOwner org actor d = Inr () \<longleftrightarrow> owns org actor (members d)"
proof
  assume "requireOwner org actor d = Inr ()"
  then show "owns org actor (members d)"
    by (auto simp: requireOwner_def findMembershipIncludingArchived_def owns_def find_Some_iff member_key_def
        split: option.splits if_splits)
next
  assume "owns org actor (members d)"
  then obtain m where m: "m \<in> set (members d)" "member_key m = (org, actor)" "om_role m = Owner"
    by (auto simp: owns_def member_key_def)
  then have "find (\<lambda>x. member_key x = (org, actor)) (members d) = Some m"
    using find_unique [OF assms m(1)] by simp
  then show "requireOwner org actor d = Inr ()"
    using m(3) by (simp add: requireOwner_def findMembershipIncludingArchived_def)
qed

lemma lifecycle_event_valid:
  assumes "n \<in> {ORGANIZATION_ARCHIVED, ORGANIZATION_RESTORED, ORGANIZATION_PURGED}"
    and "z_uuid7 z i" "z_uuid7 z org" "z_uuid7 z actor" "z_iso_datetime z (toISOString now)"
  shows "valid_event z (lifecycle_event i now n org actor)"
proof -
  have "INTEGRATION_EVENT_SCHEMAS n z = organizationLifecyclePayloadSchema z" using assms(1) by auto
  then show ?thesis unfolding lifecycle_event_def
    by (intro createIntegrationEvent_valid) (use assms in \<open>simp_all add: z_object_def organizationLifecyclePayloadSchema_def\<close>)
qed

lemma publish_lifecycle:
  assumes "n \<in> {ORGANIZATION_ARCHIVED, ORGANIZATION_RESTORED, ORGANIZATION_PURGED}"
    and "z_uuid7 z i" "z_uuid7 z org" "z_uuid7 z actor" "z_iso_datetime z (toISOString now)"
    and "i \<notin> ob_eventId ` set (outbox d)"
  shows "\<exists>r. ob_eventName r = event_name n \<and> ob_eventId r = i \<and>
    publishAll z [lifecycle_event i now n org actor] d = (Inr (), d\<lparr>outbox := outbox d @ [r]\<rparr>)"
proof -
  let ?e = "lifecycle_event i now n org actor"
  let ?r = "outbox_insert_row ?e (ie_payload ?e)"
  have "ob_eventName ?r = event_name n" "ob_eventId ?r = i" and "ie_eventId ?e = i"
    by (simp_all add: lifecycle_event_def createIntegrationEvent_def outbox_insert_row_def)
  moreover have "publishAll z [?e] d = (Inr (), d\<lparr>outbox := outbox d @ [?r]\<rparr>)"
    by (rule publishAll_one [OF lifecycle_event_valid [OF assms(1-5)]]) (simp add: \<open>ie_eventId ?e = i\<close> assms(6))
  ultimately show ?thesis by blast
qed


definition sample_invited :: db where
  "sample_invited = empty_db\<lparr>users := [sample_user ''u2''], organizations := [sample_org],
     members := [sample_owner ''u1''],
     invitations := [\<lparr>oi_id = ''i1'', oi_organizationId = ''g1'', oi_email = ''a'', oi_role = Member,
       oi_tokenHash = ''t'', oi_expiresAt = 10, oi_acceptedAt = None, oi_createdAt = 0\<rparr>]\<rparr>"

lemma sample_accept:
  "\<exists>d'. AcceptInvitation_execute (\<lambda>t. t) ''m2'' 5 ''t'' ''u2'' ''a'' sample_invited = (Inr (''g1'', ''member''), d')"
  by (simp add: AcceptInvitation_execute_def sample_invited_def findPendingByTokenHash_def isRedeemableAt_def
      matchesRecipient_def constantTimeEquals_def trim_def trim_start_def is_js_space_def toLowerCase_def
      lower_char_def transaction_def markAccepted_def count_where_def addMember_def insert_skip_def
      require_reference_def sample_owner_def sample_org_def sample_user_def member_key_def update_where_def empty_db_def)


text \<open>
  C27: Purging is complete, guarded and atomic. A purge that succeeds was asked by an owner of an
  archived organization with no stored file and no live subscription; it removes the organization,
  its members, invitations and subscriptions, leaves everything of the other organizations, and
  records one event. A purge that fails changes nothing, and purging again is refused as access
  denied, because the caller's own membership is gone.
\<close>

theorem purge_complete_and_guarded:
  assumes inv: "tenancy_inv d" and run: "purge z newId now org actor d = (r, d')"
    and fresh: "newId \<notin> ob_eventId ` set (outbox d)"
  shows "case r of
      Inl _ \<Rightarrow> d' = d
    | Inr _ \<Rightarrow>
        owns org actor (members d) \<and> (\<exists>g \<in> set (organizations d). org_id g = org \<and> org_archivedAt g \<noteq> None)
        \<and> (\<forall>f \<in> set (storedFiles d). sf_organizationId f \<noteq> org)
        \<and> (\<forall>s \<in> set (subscriptions d). sub_organizationId s = org \<longrightarrow> sub_status s = Canceled)
        \<and> set (organizations d') = {g \<in> set (organizations d). org_id g \<noteq> org}
        \<and> members d' = filter (\<lambda>m. om_organizationId m \<noteq> org) (members d)
        \<and> invitations d' = filter (\<lambda>i. oi_organizationId i \<noteq> org) (invitations d)
        \<and> subscriptions d' = filter (\<lambda>s. sub_organizationId s \<noteq> org) (subscriptions d)
        \<and> (\<exists>e. outbox d' = outbox d @ [e] \<and> ob_eventName e = ''organizations.purged'')
        \<and> code_of (projl (fst (purge z newId' now' org actor' d'))) = Some ORGANIZATION_ACCESS_DENIED
        \<and> snd (purge z newId' now' org actor' d') = d'"
proof (cases r)
  case (Inl e)
  then show ?thesis using run
    by (auto simp: purge_def split: option.splits if_splits sum.splits dest!: transaction_error)
next
  case (Inr u)
  then obtain d1 g where own: "requireOwner org actor d = Inr ()"
    and g: "find (\<lambda>g. org_id g = org) (organizations d) = Some g" "org_archivedAt g \<noteq> None"
    and purged: "purgeWithClient org d = (Inr True, d1)"
    and pub: "publishAll z [lifecycle_event newId now ORGANIZATION_PURGED org actor] d1 = (Inr (), d')"
    using run by (auto simp: purge_def purge_organization_def withinTransaction_def transaction_def
        findByIdIncludingArchived_def split: option.splits if_splits sum.splits prod.splits)
  have u: "unique_on member_key (members d)" "unique_on org_id (organizations d)"
    using inv by (simp_all add: tenancy_inv_def)
  have mem: "g \<in> set (organizations d)" "org_id g = org" using g(1) by (auto simp: find_Some_iff)
  have d1: "d1 = d\<lparr>subscriptions := delete_where (\<lambda>s. sub_organizationId s = org) (subscriptions d),
          invitations := delete_where (\<lambda>v. oi_organizationId v = org) (invitations d),
          members := delete_where (\<lambda>m. om_organizationId m = org) (members d),
          organizations := delete_where (\<lambda>g. org_id g = org \<and> org_archivedAt g \<noteq> None) (organizations d)\<rparr>"
    and none: "count_where (\<lambda>s. sub_organizationId s = org \<and> sub_status s \<in> set LIVE_SUBSCRIPTION_STATUSES) (subscriptions d) = 0"
      "count_where (\<lambda>f. sf_organizationId f = org) (storedFiles d) = 0"
    using purged g by (auto simp: purgeWithClient_def Let_def split: if_splits)
  have arch: "org_archivedAt x \<noteq> None" if "x \<in> set (organizations d)" "org_id x = org" for x
    using unique_onD [OF u(2) that(1) mem(1)] that(2) mem(2) g(2) by simp
  have os: "set (organizations d1) = {g \<in> set (organizations d). org_id g \<noteq> org}"
    unfolding d1 using arch by (auto simp: set_delete_where simp del: not_None_eq)
  have sub: "sub_status s = Canceled" if "s \<in> set (subscriptions d)" "sub_organizationId s = org" for s
    using none(1) that by (cases "sub_status s") (auto simp: count_where_zero LIVE_SUBSCRIPTION_STATUSES_def)
  have fields: "organizations d' = organizations d1" "members d' = members d1" "invitations d' = invitations d1"
      "subscriptions d' = subscriptions d1" "users d' = users d1"
    using publishAll_outbox [OF pub] by auto
  obtain e where e: "outbox d' = outbox d @ [e]" "ob_eventName e = ''organizations.purged''"
    using pub fresh
    by (auto simp: publishAll_def lifecycle_event_def createIntegrationEvent_def insert_skip_def d1
        outbox_insert_row_def split: sum.splits)
  have gone: "findMembershipIncludingArchived org actor' d' = None"
    by (auto simp: findMembershipIncludingArchived_def find_None_iff fields d1 set_delete_where member_key_def)
  show ?thesis using Inr own requireOwner_owns [OF u(1), of org actor] mem g(2) none(2) sub os e gone
    by (auto simp: fields d1 delete_where_def count_where_zero purge_def requireOwner_def)
qed

definition sample_archived :: db where
  "sample_archived = empty_db\<lparr>users := [sample_user ''u1''],
     organizations := [sample_org\<lparr>org_archivedAt := Some 0\<rparr>], members := [sample_owner ''u1'']\<rparr>"

lemma sample_archived_inv: "tenancy_inv sample_archived"
  by (simp add: tenancy_inv_def sample_archived_def empty_db_def unique_on_def has_owner_def owns_def
      sample_owner_def sample_org_def sample_user_def)

theorem purge_complete_and_guarded_witness:
  "\<exists>d'. purge any_zod ''e1'' 0 ''g1'' ''u1'' sample_archived = (Inr (), d') \<and> members d' = []"
proof -
  obtain d1 where d1: "purgeWithClient ''g1'' sample_archived = (Inr True, d1)" "outbox d1 = []"
    by (simp add: purgeWithClient_def sample_archived_def empty_db_def sample_org_def count_where_def)
  obtain d' where "publishAll any_zod [lifecycle_event ''e1'' 0 ORGANIZATION_PURGED ''g1'' ''u1''] d1 = (Inr (), d')"
    using publish_lifecycle [of ORGANIZATION_PURGED any_zod "''e1''" "''g1''" "''u1''" 0 d1] d1(2)
    by (auto simp: any_zod_def)
  then have run: "purge any_zod ''e1'' 0 ''g1'' ''u1'' sample_archived = (Inr (), d')"
  proof -
    have "requireOwner ''g1'' ''u1'' sample_archived = Inr ()"
      by (simp add: requireOwner_def findMembershipIncludingArchived_def sample_archived_def empty_db_def
          sample_owner_def member_key_def)
    moreover have "findByIdIncludingArchived ''g1'' sample_archived = Some (sample_org\<lparr>org_archivedAt := Some 0\<rparr>)"
      by (simp add: findByIdIncludingArchived_def sample_archived_def empty_db_def sample_org_def)
    ultimately show ?thesis using d1(1) \<open>publishAll any_zod _ d1 = (Inr (), d')\<close>
      by (simp add: purge_def purge_organization_def withinTransaction_def transaction_def)
  qed
  have "outbox sample_archived = []" and "members sample_archived = [sample_owner ''u1'']"
    by (simp_all add: sample_archived_def empty_db_def)
  then show ?thesis using run purge_complete_and_guarded [OF sample_archived_inv run]
    by (auto simp: sample_owner_def)
qed

lemma setArchivedAt_changed:
  assumes u: "unique_on org_id (organizations d)" and g: "g \<in> set (organizations d)" "(org_archivedAt g = None) = (t \<noteq> None)"
  shows "fst (setArchivedAt (org_id g) t d)"
    and "find (\<lambda>x. org_id x = org_id g) (organizations (snd (setArchivedAt (org_id g) t d))) = Some (g\<lparr>org_archivedAt := t\<rparr>)"
    and "unique_on org_id (organizations (snd (setArchivedAt (org_id g) t d)))"
  using count_where_unique [OF u g(1), of "\<lambda>x. org_id x = org_id g \<and> (if t = None then org_archivedAt x \<noteq> None else org_archivedAt x = None)"]
    find_unique [OF u g(1)] u g(2)
  by (simp_all add: setArchivedAt_def Let_def find_update_where unique_on_update split: if_splits)

lemma setArchivedAt_undone:
  assumes u: "unique_on org_id (organizations d)" and g: "g \<in> set (organizations d)" "org_archivedAt g = None"
    and d1: "organizations d1 = organizations (snd (setArchivedAt (org_id g) (Some now) d))"
  shows "organizations (snd (setArchivedAt (org_id g) None d1)) = organizations d"
proof -
  have row: "(if org_id y = org_id g \<and> org_archivedAt y \<noteq> None then y\<lparr>org_archivedAt := None\<rparr> else y) = x"
    if "x \<in> set (organizations d)"
      "y = (if org_id x = org_id g \<and> org_archivedAt x = None then x\<lparr>org_archivedAt := Some now\<rparr> else x)" for x y
    using that g(2) unique_onD [OF u that(1) g(1)] by (cases "org_id x = org_id g") (auto simp del: not_None_eq)
  have "organizations (snd (setArchivedAt (org_id g) None d1))
      = map (\<lambda>y. if org_id y = org_id g \<and> org_archivedAt y \<noteq> None then y\<lparr>org_archivedAt := None\<rparr> else y)
          (map (\<lambda>x. if org_id x = org_id g \<and> org_archivedAt x = None then x\<lparr>org_archivedAt := Some now\<rparr> else x) (organizations d))"
    by (simp add: d1 setArchivedAt_def Let_def update_where_def del: map_map)
  then show ?thesis
    by (simp only: map_map comp_def) (rule map_idI, rule row, assumption, rule refl)
qed

lemma findById_unique:
  assumes u: "unique_on org_id (organizations d)" and g: "g \<in> set (organizations d)"
  shows "findById (org_id g) d = (if org_archivedAt g = None then Some g else None)"
proof (cases "org_archivedAt g = None")
  case True
  then show ?thesis using find_unique_where [OF u g, of "\<lambda>x. org_id x = org_id g \<and> org_archivedAt x = None"]
    by (simp add: findById_def)
next
  case False
  then show ?thesis using unique_onD [OF u _ g] by (fastforce simp: findById_def find_None_iff)
qed

text \<open>
  Archiving and restoring are idempotent and inverse. An owner archives a live organization in one
  transaction with one event; archiving again succeeds, changes nothing and publishes nothing; restoring
  brings the organization table back to what it was, with one event of its own.
\<close>

theorem archive_restore:
  assumes inv: "tenancy_inv d" and g: "g \<in> set (organizations d)" "org_archivedAt g = None"
    and own: "owns (org_id g) actor (members d)"
    and formats: "z_uuid7 z i" "z_uuid7 z j" "z_uuid7 z (org_id g)" "z_uuid7 z actor" "\<And>t. z_iso_datetime z (toISOString t)"
    and fresh: "i \<notin> ob_eventId ` set (outbox d)" "j \<notin> insert i (ob_eventId ` set (outbox d))"
  shows "\<exists>d1 d2. archive z i now (org_id g) actor d = (Inr (), d1)
    \<and> findById (org_id g) d1 = None \<and> findById (org_id g) d = Some g
    \<and> (\<exists>e. outbox d1 = outbox d @ [e] \<and> ob_eventName e = ''organizations.archived'')
    \<and> archive z i' now' (org_id g) actor d1 = (Inr (), d1)
    \<and> restore z j now'' (org_id g) actor d1 = (Inr (), d2) \<and> organizations d2 = organizations d
    \<and> (\<exists>e. outbox d2 = outbox d1 @ [e] \<and> ob_eventName e = ''organizations.restored'')"
proof -
  have u: "unique_on member_key (members d)" "unique_on org_id (organizations d)"
    using inv by (simp_all add: tenancy_inv_def)
  have find: "find (\<lambda>x. org_id x = org_id g) (organizations d) = Some g" by (rule find_unique [OF u(2) g(1)])
  define da where "da = snd (setArchivedAt (org_id g) (Some now) d)"
  note set1 = setArchivedAt_changed [OF u(2) g(1), of "Some now", folded da_def]
  have changed: "setArchivedAt (org_id g) (Some now) d = (True, da)" using set1(1) g(2) by (simp add: da_def prod_eq_iff)
  have da: "members da = members d" "outbox da = outbox d" by (simp_all add: da_def setArchivedAt_def Let_def)
  obtain e1 where e1: "ob_eventName e1 = ''organizations.archived''" "ob_eventId e1 = i"
      "publishAll z [lifecycle_event i now ORGANIZATION_ARCHIVED (org_id g) actor] da = (Inr (), da\<lparr>outbox := outbox da @ [e1]\<rparr>)"
    using publish_lifecycle [of ORGANIZATION_ARCHIVED z i "org_id g" actor now da] formats fresh da(2) by auto
  define d1 where "d1 = da\<lparr>outbox := outbox da @ [e1]\<rparr>"
  have own1: "requireOwner (org_id g) actor d = Inr ()" "requireOwner (org_id g) actor d1 = Inr ()"
    using own u(1) by (simp_all add: requireOwner_owns d1_def da)
  have arch: "archive z i now (org_id g) actor d = (Inr (), d1)"
    using own1(1) find changed e1(3) g(2)
    by (simp add: archive_def changeState_def transaction_def findByIdIncludingArchived_def isAlreadyInState_def d1_def)
  let ?g = "g\<lparr>org_archivedAt := Some now\<rparr>"
  have find1: "find (\<lambda>x. org_id x = org_id g) (organizations d1) = Some ?g" and u1: "unique_on org_id (organizations d1)"
    using set1 g(2) by (simp_all add: d1_def)
  then have in1: "?g \<in> set (organizations d1)" by (auto simp: find_Some_iff)
  have again: "archive z i' now' (org_id g) actor d1 = (Inr (), d1)"
    using own1(2) find1
    by (simp add: archive_def changeState_def transaction_def findByIdIncludingArchived_def isAlreadyInState_def)
  define dr where "dr = snd (setArchivedAt (org_id g) None d1)"
  have set2: "setArchivedAt (org_id g) None d1 = (True, dr)"
    using setArchivedAt_changed(1) [OF u1 in1, of None] by (simp add: dr_def prod_eq_iff)
  have os: "organizations dr = organizations d"
    unfolding dr_def by (rule setArchivedAt_undone [OF u(2) g]) (simp add: d1_def da_def)
  have dr: "outbox dr = outbox d1" by (simp add: dr_def setArchivedAt_def Let_def)
  obtain e2 where e2: "ob_eventName e2 = ''organizations.restored''"
      "publishAll z [lifecycle_event j now'' ORGANIZATION_RESTORED (org_id g) actor] dr = (Inr (), dr\<lparr>outbox := outbox dr @ [e2]\<rparr>)"
    using publish_lifecycle [of ORGANIZATION_RESTORED z j "org_id g" actor now'' dr] formats fresh dr da(2) e1(2)
    by (auto simp: d1_def)
  have rest: "restore z j now'' (org_id g) actor d1 = (Inr (), dr\<lparr>outbox := outbox dr @ [e2]\<rparr>)"
    using own1(2) find1 set2 e2(2)
    by (simp add: restore_def changeState_def transaction_def findByIdIncludingArchived_def isAlreadyInState_def)
  show ?thesis
    using arch again rest os e1(1) e2(1) dr da(2) findById_unique [OF u(2) g(1)] findById_unique [OF u1 in1] g(2)
    by (auto simp: d1_def)
qed

definition sample_live :: db where
  "sample_live = empty_db\<lparr>users := [sample_user ''u1''], organizations := [sample_org], members := [sample_owner ''u1'']\<rparr>"

theorem archive_restore_witness:
  "\<exists>d1 d2. archive any_zod ''e1'' 7 ''g1'' ''u1'' sample_live = (Inr (), d1)
    \<and> restore any_zod ''e2'' 9 ''g1'' ''u1'' d1 = (Inr (), d2) \<and> organizations d2 = organizations sample_live"
proof -
  have inv: "tenancy_inv sample_live"
    by (simp add: tenancy_inv_def sample_live_def empty_db_def unique_on_def has_owner_def owns_def
        sample_owner_def sample_org_def sample_user_def)
  have g: "sample_org \<in> set (organizations sample_live)" "org_archivedAt sample_org = None" "org_id sample_org = ''g1''"
    and own: "owns ''g1'' ''u1'' (members sample_live)" and out: "outbox sample_live = []"
    by (simp_all add: sample_live_def empty_db_def sample_org_def owns_def sample_owner_def)
  have z: "z_uuid7 any_zod x" "z_iso_datetime any_zod x" for x by (simp_all add: any_zod_def)
  from archive_restore [OF inv g(1,2), of "''u1''" any_zod "''e1''" "''e2''" 7 undefined undefined 9] own z g(3) out
  show ?thesis by auto
qed

end
