(* ===== verification/Access.thy ===== *)
theory Access
  imports Organizations
begin

text \<open>
  What stands between an HTTP request and a handler: the request ids of
  \<open>platform/observability/request-id.ts\<close>, the session shape of \<open>platform/auth/authenticated-session.ts\<close>,
  the guards of \<open>platform/auth/auth.guards.ts\<close>, \<open>bootstrap/http/api-throttler.guard.ts\<close>,
  \<open>modules/organizations/http/tenant-context.guard.ts\<close> and
  \<open>platform/tenant-context/tenant-roles.guard.ts\<close> in the order \<open>bootstrap/api.module.ts\<close> registers them,
  and \<open>requireTenant\<close>.

  A guard is an action on the request record, because the session and the tenant are written on it. The
  metadata a guard reads through the reflector is a field of \<open>route_metadata\<close>; the session lookup of
  Better Auth, the throttler's base guard and the UUID check are parameters.
\<close>

section \<open>The request\<close>

record request_ids =
  ids_requestId :: string
  ids_correlationId :: string

record authenticated_session =
  as_userId :: uuid
  as_email :: string
  as_emailVerified :: bool
  as_role :: string
  as_sessionId :: string

record tenant_context =
  tc_organizationId :: uuid
  tc_userId :: uuid
  tc_role :: organization_role

text \<open>A header is absent, one string, or the array of a header that was sent several times.\<close>

datatype header_value = NoHeader | Header string | Headers "string list"

record http_request =
  rq_headers :: "string \<Rightarrow> header_value"
  rq_url :: string
  rq_ip :: string
  rq_ids :: "request_ids option"
  rq_authSession :: "authenticated_session option"
  rq_tenantContext :: "tenant_context option"

record route_metadata =
  rm_isPublic :: "bool option"
  rm_requiredRoles :: "string list option"
  rm_tenantRequired :: "bool option"
  rm_requiredTenantRoles :: "organization_role list option"

section \<open>Request ids\<close>

definition REQUEST_ID_HEADER :: string where "REQUEST_ID_HEADER = ''x-request-id''"

definition CORRELATION_ID_HEADER :: string where "CORRELATION_ID_HEADER = ''x-correlation-id''"

definition MAX_ID_LENGTH :: nat where "MAX_ID_LENGTH = 128"

definition SAFE_ID_PATTERN :: "string \<Rightarrow> bool" where
  "SAFE_ID_PATTERN s \<longleftrightarrow>
     s \<noteq> []
     \<and> list_all (\<lambda>c. 65 \<le> code_unit c \<and> code_unit c \<le> 90 \<or> 97 \<le> code_unit c \<and> code_unit c \<le> 122
                  \<or> 48 \<le> code_unit c \<and> code_unit c \<le> 57 \<or> c \<in> set ''_.:-'') s"

definition isSafeId :: "string \<Rightarrow> bool" where
  "isSafeId v \<longleftrightarrow> 0 < length v \<and> length v \<le> MAX_ID_LENGTH \<and> SAFE_ID_PATTERN v"

definition firstHeaderValue :: "header_value \<Rightarrow> string option" where
  "firstHeaderValue v =
     (case v of NoHeader \<Rightarrow> None | Header s \<Rightarrow> Some s | Headers ss \<Rightarrow> (case ss of [] \<Rightarrow> None | s # _ \<Rightarrow> Some s))"

definition resolveRequestId :: "string \<Rightarrow> (string \<Rightarrow> header_value) \<Rightarrow> bool \<Rightarrow> string" where
  "resolveRequestId newId headers trustInbound =
     (if \<not> trustInbound then newId
      else (case firstHeaderValue (headers REQUEST_ID_HEADER) of
              Some inbound \<Rightarrow> if isSafeId inbound then inbound else newId
            | None \<Rightarrow> newId))"

definition resolveCorrelationId :: "(string \<Rightarrow> header_value) \<Rightarrow> string \<Rightarrow> string" where
  "resolveCorrelationId headers fallback =
     (case firstHeaderValue (headers CORRELATION_ID_HEADER) of
        Some inbound \<Rightarrow> if isSafeId inbound then inbound else fallback
      | None \<Rightarrow> fallback)"

text \<open>The ids are stamped on the request the first time and read back afterwards.\<close>

definition ensureRequestIds :: "string \<Rightarrow> bool \<Rightarrow> http_request \<Rightarrow> request_ids \<times> http_request" where
  "ensureRequestIds newId trustInbound r =
     (case rq_ids r of
        Some ids \<Rightarrow> (ids, r)
      | None \<Rightarrow>
          (let requestId = resolveRequestId newId (rq_headers r) trustInbound;
               ids = \<lparr>ids_requestId = requestId,
                      ids_correlationId = resolveCorrelationId (rq_headers r) requestId\<rparr>
           in (ids, r\<lparr>rq_ids := Some ids\<rparr>)))"

section \<open>The session\<close>

text \<open>
  \<open>sessionShape\<close>: the role defaults to \<open>member\<close> when the property is absent or undefined.
\<close>

definition undefined_or_absent :: "(string \<times> js) list \<Rightarrow> string \<Rightarrow> bool" where
  "undefined_or_absent kvs k \<longleftrightarrow> map_of kvs k = None \<or> map_of kvs k = Some (JsOther ''undefined'')"

definition session_role :: "(string \<times> js) list \<Rightarrow> string option" where
  "session_role u =
     (if undefined_or_absent u ''role'' then Some ''member''
      else (case map_of u ''role'' of Some (JsStr r) \<Rightarrow> if r \<noteq> [] then Some r else None | _ \<Rightarrow> None))"

definition toAuthenticatedSession :: "js \<Rightarrow> authenticated_session option" where
  "toAuthenticatedSession raw =
     (case raw of
        JsObj kvs \<Rightarrow>
          (case (map_of kvs ''user'', map_of kvs ''session'') of
             (Some (JsObj u), Some (JsObj s)) \<Rightarrow>
               (case (map_of u ''id'', map_of u ''email'', map_of u ''emailVerified'', session_role u, map_of s ''id'') of
                  (Some (JsStr i), Some (JsStr e), Some (JsBool v), Some r, Some (JsStr sid)) \<Rightarrow>
                    if i \<noteq> [] \<and> e \<noteq> [] \<and> sid \<noteq> []
                    then Some \<lparr>as_userId = i, as_email = e, as_emailVerified = v, as_role = r, as_sessionId = sid\<rparr>
                    else None
                | _ \<Rightarrow> None)
           | _ \<Rightarrow> None)
      | _ \<Rightarrow> None)"

text \<open>\<open>AuthService.getSession\<close>, over what Better Auth returns for the headers.\<close>

definition getSession :: "((string \<Rightarrow> header_value) \<Rightarrow> js) \<Rightarrow> (string \<Rightarrow> header_value) \<Rightarrow> authenticated_session option" where
  "getSession api_getSession headers = toAuthenticatedSession (api_getSession headers)"

section \<open>Guards\<close>

definition UnauthorizedException :: "string \<Rightarrow> failure" where
  "UnauthorizedException message = HttpFailure 401 message"

definition ForbiddenException :: failure where
  "ForbiddenException = HttpFailure 403 ''Forbidden''"

type_synonym guard = "(http_request, bool) action"

definition BetterAuthGuard_canActivate :: "((string \<Rightarrow> header_value) \<Rightarrow> js) \<Rightarrow> route_metadata \<Rightarrow> guard" where
  "BetterAuthGuard_canActivate api_getSession meta r =
     (if rm_isPublic meta = Some True then (Inr True, r)
      else (case getSession api_getSession (rq_headers r) of
              None \<Rightarrow> (Inl (UnauthorizedException ''Unauthorized''), r)
            | Some s \<Rightarrow> (Inr True, r\<lparr>rq_authSession := Some s\<rparr>)))"

definition getTracker :: "http_request \<Rightarrow> string" where
  "getTracker r =
     (case rq_authSession r of
        Some s \<Rightarrow> ''session:'' @ as_sessionId s
      | None \<Rightarrow> ''ip:'' @ rq_ip r)"

text \<open>A failure that carries an HTTP status is the limiter working; any other lets the request through.\<close>

definition isThrottled :: "failure \<Rightarrow> bool" where
  "isThrottled e = (case e of HttpFailure _ _ \<Rightarrow> True | _ \<Rightarrow> False)"

definition handleRequest :: "failure + bool \<Rightarrow> failure + bool" where
  "handleRequest base =
     (case base of
        Inr allowed \<Rightarrow> Inr allowed
      | Inl e \<Rightarrow> if isThrottled e then Inl e else Inr True)"

definition ApiThrottlerGuard_canActivate :: "(string \<Rightarrow> failure + bool) \<Rightarrow> guard" where
  "ApiThrottlerGuard_canActivate base r = (handleRequest (base (getTracker r)), r)"

definition RolesGuard_canActivate :: "route_metadata \<Rightarrow> guard" where
  "RolesGuard_canActivate meta r =
     (case rm_requiredRoles meta of
        None \<Rightarrow> (Inr True, r)
      | Some required \<Rightarrow>
          if required = [] then (Inr True, r)
          else (case rq_authSession r of
                  None \<Rightarrow> (Inl (UnauthorizedException ''Unauthorized''), r)
                | Some s \<Rightarrow>
                    if as_role s \<notin> set required then (Inl ForbiddenException, r) else (Inr True, r)))"

definition TenantContextGuard_canActivate :: "(uuid \<Rightarrow> bool) \<Rightarrow> db \<Rightarrow> route_metadata \<Rightarrow> guard" where
  "TenantContextGuard_canActivate isUuidV7 d meta r =
     (let required = (rm_tenantRequired meta = Some True);
          otherwise = (\<lambda>e. if required then (Inl e, r) else (Inr True, r))
      in case rq_headers r ''x-organization-id'' of
           Header organizationId \<Rightarrow>
             if \<not> isUuidV7 organizationId then otherwise (UnauthorizedException ''X-Organization-Id is required.'')
             else (case rq_authSession r of
                     None \<Rightarrow> otherwise (UnauthorizedException ''Unauthorized'')
                   | Some user \<Rightarrow>
                       (case findMembership organizationId (as_userId user) d of
                          None \<Rightarrow> otherwise ForbiddenException
                        | Some m \<Rightarrow>
                            (Inr True,
                             r\<lparr>rq_tenantContext := Some \<lparr>tc_organizationId = organizationId,
                                 tc_userId = as_userId user, tc_role = om_role m\<rparr>\<rparr>)))
         | _ \<Rightarrow> otherwise (UnauthorizedException ''X-Organization-Id is required.''))"

definition TenantRolesGuard_canActivate :: "route_metadata \<Rightarrow> guard" where
  "TenantRolesGuard_canActivate meta r =
     (case rm_requiredTenantRoles meta of
        None \<Rightarrow> (Inr True, r)
      | Some required \<Rightarrow>
          if required = [] then (Inr True, r)
          else (case rq_tenantContext r of
                  None \<Rightarrow> (Inl (UnauthorizedException ''Tenant context is required.''), r)
                | Some t \<Rightarrow>
                    if tc_role t \<notin> set required then (Inl ForbiddenException, r) else (Inr True, r)))"

text \<open>
  The application guards run in the order of their registration; a guard that answers \<open>false\<close> is
  reported as a forbidden resource, and the first failure ends the request.
\<close>

fun run_guards :: "guard list \<Rightarrow> (http_request, unit) action" where
  "run_guards [] r = (Inr (), r)"
| "run_guards (g # gs) r =
     (case g r of
        (Inl e, r') \<Rightarrow> (Inl e, r')
      | (Inr allowed, r') \<Rightarrow>
          if allowed then run_guards gs r' else (Inl (HttpFailure 403 ''Forbidden resource''), r'))"

definition APP_GUARDS ::
  "((string \<Rightarrow> header_value) \<Rightarrow> js) \<Rightarrow> (string \<Rightarrow> failure + bool) \<Rightarrow> (uuid \<Rightarrow> bool) \<Rightarrow> db \<Rightarrow> route_metadata \<Rightarrow> guard list"
where
  "APP_GUARDS api_getSession base isUuidV7 d meta =
     [BetterAuthGuard_canActivate api_getSession meta,
      ApiThrottlerGuard_canActivate base,
      RolesGuard_canActivate meta,
      TenantContextGuard_canActivate isUuidV7 d meta,
      TenantRolesGuard_canActivate meta]"

text \<open>\<open>requireTenant\<close> reads the context that the tenant interceptor made current from the request.\<close>

definition requireTenant :: "http_request \<Rightarrow> failure + tenant_context" where
  "requireTenant r =
     (case rq_tenantContext r of
        Some t \<Rightarrow> Inr t
      | None \<Rightarrow> Inl (PlainError ''Tenant context is required for this operation.''))"

definition requireCaller :: "http_request \<Rightarrow> failure + authenticated_session" where
  "requireCaller r =
     (case rq_authSession r of
        Some s \<Rightarrow> Inr s
      | None \<Rightarrow> Inl (UnauthorizedException ''Unauthorized''))"

section \<open>What the guards establish\<close>

text \<open>A request as it arrives: nothing has been written on it.\<close>

definition fresh_request :: "http_request \<Rightarrow> bool" where
  "fresh_request r \<longleftrightarrow> rq_authSession r = None \<and> rq_tenantContext r = None"

lemma run_guards_Inr:
  "run_guards (g # gs) r = (Inr (), r') \<longleftrightarrow> (\<exists>r1. g r = (Inr True, r1) \<and> run_guards gs r1 = (Inr (), r'))"
  by (auto split: prod.splits sum.splits if_splits)

lemma BetterAuthGuard_Inr:
  assumes "BetterAuthGuard_canActivate api meta r = (Inr True, r1)"
  shows "(rm_isPublic meta = Some True \<and> r1 = r)
         \<or> (\<exists>s. getSession api (rq_headers r) = Some s \<and> r1 = r\<lparr>rq_authSession := Some s\<rparr>)"
  using assms by (auto simp: BetterAuthGuard_canActivate_def split: if_splits option.splits)

lemma throttler_request: "ApiThrottlerGuard_canActivate base r = (x, r1) \<Longrightarrow> r1 = r"
  by (simp add: ApiThrottlerGuard_canActivate_def)

lemma RolesGuard_Inr:
  assumes "RolesGuard_canActivate meta r = (Inr True, r1)"
  shows "r1 = r \<and> (\<forall>required. rm_requiredRoles meta = Some required \<and> required \<noteq> []
                     \<longrightarrow> (\<exists>s. rq_authSession r = Some s \<and> as_role s \<in> set required))"
  using assms by (auto simp: RolesGuard_canActivate_def split: option.splits if_splits)

definition live_member :: "db \<Rightarrow> tenant_context \<Rightarrow> bool" where
  "live_member d t \<longleftrightarrow>
     live_organization (tc_organizationId t) d
     \<and> (\<exists>m \<in> set (members d). member_key m = (tc_organizationId t, tc_userId t) \<and> om_role m = tc_role t)"

lemma findMembership_Some:
  "findMembership g u d = Some m \<Longrightarrow> m \<in> set (members d) \<and> member_key m = (g, u) \<and> live_organization g d"
  by (auto simp: findMembership_def find_Some_iff member_key_def)

lemma TenantContextGuard_Inr:
  assumes "TenantContextGuard_canActivate isUuidV7 d meta r = (Inr True, r1)"
  shows "(r1 = r \<and> rm_tenantRequired meta \<noteq> Some True)
         \<or> (\<exists>s t. rq_authSession r = Some s \<and> r1 = r\<lparr>rq_tenantContext := Some t\<rparr> \<and> tc_userId t = as_userId s
                  \<and> rq_headers r ''x-organization-id'' = Header (tc_organizationId t)
                  \<and> isUuidV7 (tc_organizationId t) \<and> live_member d t)"
proof -
  have member: "live_member d \<lparr>tc_organizationId = g, tc_userId = u, tc_role = om_role m\<rparr>"
    if "findMembership g u d = Some m" for g u m
    using findMembership_Some [OF that] by (auto simp: live_member_def)
  show ?thesis
    using assms unfolding TenantContextGuard_canActivate_def Let_def
    by (auto split: header_value.splits option.splits if_splits dest!: member intro!: exI)
qed

lemma TenantRolesGuard_Inr:
  assumes "TenantRolesGuard_canActivate meta r = (Inr True, r1)"
  shows "r1 = r \<and> (\<forall>required. rm_requiredTenantRoles meta = Some required \<and> required \<noteq> []
                     \<longrightarrow> (\<exists>t. rq_tenantContext r = Some t \<and> tc_role t \<in> set required))"
  using assms by (auto simp: TenantRolesGuard_canActivate_def split: option.splits if_splits)

text \<open>The request a handler sees, and what is then known of it.\<close>

definition authorized :: "((string \<Rightarrow> header_value) \<Rightarrow> js) \<Rightarrow> (uuid \<Rightarrow> bool) \<Rightarrow> db \<Rightarrow> route_metadata \<Rightarrow> http_request \<Rightarrow> bool" where
  "authorized api_getSession isUuidV7 d meta r \<longleftrightarrow>
     (rm_isPublic meta = Some True \<or> rq_authSession r \<noteq> None)
     \<and> (\<forall>s. rq_authSession r = Some s \<longrightarrow> getSession api_getSession (rq_headers r) = Some s)
     \<and> (\<forall>required. rm_requiredRoles meta = Some required \<and> required \<noteq> []
          \<longrightarrow> (\<exists>s. rq_authSession r = Some s \<and> as_role s \<in> set required))
     \<and> (rm_tenantRequired meta = Some True \<longrightarrow> rq_tenantContext r \<noteq> None)
     \<and> (\<forall>t. rq_tenantContext r = Some t \<longrightarrow>
          live_member d t \<and> rq_headers r ''x-organization-id'' = Header (tc_organizationId t)
          \<and> isUuidV7 (tc_organizationId t)
          \<and> (\<exists>s. rq_authSession r = Some s \<and> tc_userId t = as_userId s))
     \<and> (\<forall>required. rm_requiredTenantRoles meta = Some required \<and> required \<noteq> []
          \<longrightarrow> (\<exists>t. rq_tenantContext r = Some t \<and> tc_role t \<in> set required))"

lemma guards_authorize:
  assumes fresh: "fresh_request r"
      and run: "run_guards (APP_GUARDS api base isUuidV7 d meta) r = (Inr (), r')"
  shows "authorized api isUuidV7 d meta r' \<and> rq_headers r' = rq_headers r"
proof -
  obtain r1 r1' r1'' r2 r2' where auth: "BetterAuthGuard_canActivate api meta r = (Inr True, r1)"
    and throttle: "ApiThrottlerGuard_canActivate base r1 = (Inr True, r1')"
    and roles: "RolesGuard_canActivate meta r1' = (Inr True, r1'')"
    and tenant: "TenantContextGuard_canActivate isUuidV7 d meta r1'' = (Inr True, r2)"
    and troles: "TenantRolesGuard_canActivate meta r2 = (Inr True, r2')" and final: "r' = r2'"
    using run unfolding APP_GUARDS_def run_guards_Inr run_guards.simps(1) by blast
  have [simp]: "r1' = r1" "r1'' = r1" "r2' = r2" "r' = r2"
    using throttler_request [OF throttle] RolesGuard_Inr [OF roles] TenantRolesGuard_Inr [OF troles] final by auto
  show ?thesis
    using BetterAuthGuard_Inr [OF auth] RolesGuard_Inr [OF roles] TenantContextGuard_Inr [OF tenant]
      TenantRolesGuard_Inr [OF troles] fresh
    unfolding authorized_def fresh_request_def by auto
qed

text \<open>The stamped ids are stable, and the request id never comes from an untrusted or unsafe header.\<close>

lemma ensureRequestIds_stable:
  "ensureRequestIds n trust r = (ids, r') \<Longrightarrow> ensureRequestIds n' trust' r' = (ids, r')"
  by (auto simp: ensureRequestIds_def Let_def split: option.splits)

end
