(* ===== verification/Pagination.thy ===== *)
theory Pagination
  imports Errors Js_Date
begin

text \<open>
  Pagination (\<open>src/src/shared/pagination\<close>): opaque cursors and list envelopes, and the keyset
  query that the repositories of uploads, audit entries and profiles share. The locale
  \<open>keyset_list\<close> states what such a query promises and proves once that following the cursors
  visits every row exactly once, newest first.

  The UUID check is the parameter \<open>isUuidV7\<close>. How the runtime decodes a string that is not over
  the base64url alphabet is the parameter \<open>lenient\<close>.
\<close>

section \<open>base64url\<close>

definition b64_alphabet :: string where
  "b64_alphabet = ''ABCDEFGHIJKLMNOPQRSTUVWXYZabcdefghijklmnopqrstuvwxyz0123456789-_''"

definition b64_char :: "nat \<Rightarrow> char" where
  "b64_char n = b64_alphabet ! n"

definition b64_value :: "char \<Rightarrow> nat option" where
  "b64_value c = map_of (zip b64_alphabet [0..<64]) c"

fun b64_encode :: "nat list \<Rightarrow> nat list" where
  "b64_encode [] = []"
| "b64_encode [a] = [a div 4, a mod 4 * 16]"
| "b64_encode [a, b] = [a div 4, a mod 4 * 16 + b div 16, b mod 16 * 4]"
| "b64_encode (a # b # c # r) =
     [a div 4, a mod 4 * 16 + b div 16, b mod 16 * 4 + c div 64, c mod 64] @ b64_encode r"

fun b64_decode :: "nat list \<Rightarrow> nat list" where
  "b64_decode [] = []"
| "b64_decode [s] = []"
| "b64_decode [s, t] = [s * 4 + t div 16]"
| "b64_decode [s, t, u] = [s * 4 + t div 16, t mod 16 * 16 + u div 4]"
| "b64_decode (s # t # u # v # r) =
     [s * 4 + t div 16, t mod 16 * 16 + u div 4, u mod 4 * 64 + v] @ b64_decode r"

section \<open>Cursors\<close>

record decoded_cursor =
  sortValue :: date
  cursor_id :: uuid

definition encodeCursor :: "date \<Rightarrow> uuid \<Rightarrow> string" where
  "encodeCursor t i = map b64_char (b64_encode (utf8 (toISOString t @ '':'' @ i)))"

definition malformedCursor :: failure where
  "malformedCursor = malformed CURSOR_MALFORMED ''The pagination cursor could not be decoded.''"

text \<open>
  The bytes of a cursor as text. A byte above 127 yields a character that is in no canonical
  timestamp and in no UUID, so such a cursor fails the checks below whatever that character is.
\<close>

definition cursor_text :: "(string \<Rightarrow> nat list) \<Rightarrow> string \<Rightarrow> string option" where
  "cursor_text lenient raw =
     (let bytes = (if list_all (\<lambda>c. b64_value c \<noteq> None) raw then b64_decode (map (\<lambda>c. the (b64_value c)) raw)
                   else lenient raw)
      in if list_all (\<lambda>b. b < 128) bytes then Some (map char_of bytes) else None)"

definition decodeCursor :: "(uuid \<Rightarrow> bool) \<Rightarrow> (string \<Rightarrow> nat list) \<Rightarrow> string \<Rightarrow> failure + decoded_cursor" where
  "decodeCursor isUuidV7 lenient raw =
     (case cursor_text lenient raw of
        None \<Rightarrow> Inl malformedCursor
      | Some decoded \<Rightarrow>
          (let i = rev (takeWhile (\<lambda>c. c \<noteq> CHR '':'') (rev decoded)) in
           if length decoded \<le> length i + 1 then Inl malformedCursor
           else
             (let timestampPart = take (length decoded - length i - 1) decoded in
              case date_parse timestampPart of
                None \<Rightarrow> Inl malformedCursor
              | Some t \<Rightarrow>
                  if \<not> valid_date t \<or> toISOString t \<noteq> timestampPart then Inl malformedCursor
                  else if \<not> isUuidV7 i then Inl malformedCursor
                  else Inr \<lparr>sortValue = t, cursor_id = i\<rparr>)))"

definition decodeOptionalCursor ::
  "(uuid \<Rightarrow> bool) \<Rightarrow> (string \<Rightarrow> nat list) \<Rightarrow> string option \<Rightarrow> failure + decoded_cursor option"
where
  "decodeOptionalCursor isUuidV7 lenient raw =
     (case raw of
        None \<Rightarrow> Inr None
      | Some s \<Rightarrow> if s = [] then Inr None else map_sum id Some (decodeCursor isUuidV7 lenient s))"

section \<open>List envelopes\<close>

record 'a list_response =
  lr_object :: string
  lr_url :: string
  lr_data :: "'a list"
  lr_hasMore :: bool
  lr_lastCursor :: "string option"
  lr_totalCount :: "nat option"

definition buildListResponse ::
  "string \<Rightarrow> 'a list \<Rightarrow> nat \<Rightarrow> ('a \<Rightarrow> string) \<Rightarrow> nat option \<Rightarrow> 'a list_response"
where
  "buildListResponse url rows limit cursorOf totalCount =
     (let hasMore = limit < length rows;
          data = (if hasMore then take limit rows else rows)
      in \<lparr>lr_object = ''list'', lr_url = url, lr_data = data, lr_hasMore = hasMore,
          lr_lastCursor = (if data = [] then None else Some (cursorOf (last data))),
          lr_totalCount = totalCount\<rparr>)"

definition collectionUrl :: "string \<Rightarrow> string" where
  "collectionUrl url = hd (split_on (\<lambda>c. c = CHR ''?'') url)"

section \<open>Keyset queries\<close>

text \<open>
  \<open>WHERE ... AND (createdAt < c OR (createdAt = c AND id < i)) ORDER BY createdAt DESC, id DESC\<close> with
  a limit, on the pairs of a creation time and an id.
\<close>

definition keyset_before :: "decoded_cursor option \<Rightarrow> date \<times> uuid \<Rightarrow> bool" where
  "keyset_before cursor k =
     (case cursor of
        None \<Rightarrow> True
      | Some c \<Rightarrow> fst k < sortValue c \<or> (fst k = sortValue c \<and> snd k < cursor_id c))"

definition keyset_query ::
  "('r \<Rightarrow> date \<times> uuid) \<Rightarrow> ('r \<Rightarrow> bool) \<Rightarrow> decoded_cursor option \<Rightarrow> nat \<Rightarrow> 'r list \<Rightarrow> 'r list"
where
  "keyset_query key p cursor limit rows =
     take limit (rev (order_by key (filter (\<lambda>r. p r \<and> keyset_before cursor (key r)) rows)))"

text \<open>What a client does: ask for one row more than the page, show the page, continue after its last row.\<close>

definition page_of :: "nat \<Rightarrow> 'r list \<Rightarrow> 'r list \<times> bool" where
  "page_of limit rows = (if limit < length rows then (take limit rows, True) else (rows, False))"

fun walk_pages :: "nat \<Rightarrow> (decoded_cursor option \<Rightarrow> nat \<Rightarrow> 'r list) \<Rightarrow> ('r \<Rightarrow> date \<times> uuid) \<Rightarrow> nat
    \<Rightarrow> decoded_cursor option \<Rightarrow> 'r list" where
  "walk_pages 0 q key limit cursor = []"
| "walk_pages (Suc n) q key limit cursor =
     (let (page, hasMore) = page_of limit (q cursor (limit + 1))
      in if hasMore
         then page @ walk_pages n q key limit
                (Some \<lparr>sortValue = fst (key (last page)), cursor_id = snd (key (last page))\<rparr>)
         else page)"

definition newest :: "('r \<Rightarrow> date \<times> uuid) \<Rightarrow> 'r list \<Rightarrow> 'r list" where
  "newest key rows = rev (order_by key rows)"

locale keyset_list =
  fixes q :: "decoded_cursor option \<Rightarrow> nat \<Rightarrow> 'r list"
    and key :: "'r \<Rightarrow> date \<times> uuid"
    and rows :: "'r list"
  assumes q_keyset: "q cursor n = take n (rev (order_by key (filter (\<lambda>r. keyset_before cursor (key r)) rows)))"
begin

lemma newest_sorted:
  assumes "unique_on key rows"
  shows "sorted_wrt (\<lambda>a b. key b < key a) (newest key rows)"
proof -
  have "sorted (map key (order_by key rows))" and "distinct (map key (order_by key rows))"
    using assms by (auto simp: order_by_def unique_on_def distinct_map)
  then have "sorted_wrt (<) (map key (order_by key rows))" by (simp add: strict_sorted_iff)
  then show ?thesis by (simp add: newest_def sorted_wrt_rev sorted_wrt_map)
qed

lemma filter_newest:
  "rev (order_by key (filter p rows)) = filter p (newest key rows)"
  by (simp add: newest_def order_by_def filter_sort flip: rev_filter)

lemma q_newest: "q cursor n = take n (filter (\<lambda>r. keyset_before cursor (key r)) (newest key rows))"
  by (simp add: q_keyset filter_newest)

text \<open>The rows after a row of the list are the ones below its key.\<close>

lemma after_row:
  assumes u: "unique_on key rows" and eq: "newest key rows = xs @ r # ys"
  shows "filter (\<lambda>x. keyset_before (Some \<lparr>sortValue = fst (key r), cursor_id = snd (key r)\<rparr>) (key x)) (newest key rows) = ys"
proof -
  have "sorted_wrt (\<lambda>a b. key b < key a) (xs @ r # ys)" using newest_sorted [OF u] eq by simp
  then have above: "\<forall>x \<in> set xs. key r < key x" and below: "\<forall>y \<in> set ys. key y < key r"
    by (auto simp: sorted_wrt_append)
  have kb: "keyset_before (Some \<lparr>sortValue = fst (key r), cursor_id = snd (key r)\<rparr>) (key x) \<longleftrightarrow> key x < key r" for x
    by (auto simp: keyset_before_def less_prod_def prod_eq_iff)
  show ?thesis unfolding kb eq using above below
    by (auto simp: filter_empty_conv dest: order.asym)
qed

lemma walk_from:
  assumes u: "unique_on key rows" and "newest key rows = xs @ ys" and "filter (\<lambda>r. keyset_before cursor (key r)) (newest key rows) = ys"
    and "0 < limit" and "length ys \<le> n * limit" and "0 < n"
  shows "walk_pages n q key limit cursor = ys"
  using assms(2-)
proof (induction n arbitrary: xs ys cursor)
  case (Suc n)
  have qs: "q cursor (limit + 1) = take (limit + 1) ys" using Suc.prems(2) by (simp add: q_newest)
  show ?case
  proof (cases "limit < length ys")
    case False
    then show ?thesis using qs by (simp add: page_of_def min_def split: if_splits)
  next
    case True
    let ?page = "take limit ys"
    have p: "page_of limit (q cursor (limit + 1)) = (?page, True)"
      using qs True by (simp add: page_of_def min_def)
    have ne: "?page \<noteq> []" using Suc.prems(3) True by (cases ys) auto
    have split: "newest key rows = (xs @ butlast ?page) @ last ?page # drop limit ys"
      using Suc.prems(1) ne by (metis append.assoc append_Cons append_Nil append_butlast_last_id append_take_drop_id)
    have n: "0 < n" using True Suc.prems(4) by (cases n) auto
    have len: "length (drop limit ys) \<le> n * limit" using Suc.prems(4) by simp
    have "newest key rows = (xs @ ?page) @ drop limit ys" using Suc.prems(1) by simp
    from Suc.IH [OF this after_row [OF u split] Suc.prems(3) len n] show ?thesis
      using p by simp
  qed
qed simp

lemma walk_complete:
  assumes "unique_on key rows" and "0 < limit" and "length rows \<le> n * limit" and "0 < n"
  shows "walk_pages n q key limit None = (newest key rows)"
proof -
  have "filter (\<lambda>r. keyset_before None (key r)) (newest key rows) = (newest key rows)" by (simp add: keyset_before_def)
  moreover have "length (newest key rows) \<le> n * limit" using assms(3) by (simp add: newest_def)
  ultimately show ?thesis using walk_from [of "[]" "newest key rows" None limit n] assms by simp
qed

end

lemma keyset_query_filter:
  "keyset_query key p cursor n rows
     = take n (rev (order_by key (filter (\<lambda>r. keyset_before cursor (key r)) (filter p rows))))"
  by (simp add: keyset_query_def conj_commute)

section \<open>Cursors round trip\<close>

lemma b64_alphabet_props: "length b64_alphabet = 64" "distinct b64_alphabet"
  by (simp_all add: b64_alphabet_def)

lemma b64_value_char: "n < 64 \<Longrightarrow> b64_value (b64_char n) = Some n"
  unfolding b64_value_def b64_char_def using map_of_zip_nth [of b64_alphabet "[0..<64]" n] b64_alphabet_props by simp

lemma b64_encode_range: "\<forall>b \<in> set bs. b < 256 \<Longrightarrow> \<forall>s \<in> set (b64_encode bs). s < 64"
  by (induction bs rule: b64_encode.induct) auto

lemma b64_roundtrip: "\<forall>b \<in> set bs. b < 256 \<Longrightarrow> b64_decode (b64_encode bs) = bs"
proof (induction bs rule: b64_encode.induct)
  case (2 a)
  then show ?case by simp
next
  case (3 a b)
  then have "b div 16 < 16" by (simp add: less_mult_imp_div_less)
  then show ?case by simp
next
  case (4 a b c r)
  then have lt: "b div 16 < 16" "c div 64 < 4" by (simp_all add: less_mult_imp_div_less)
  have "a div 4 * 4 + (a mod 4 * 16 + b div 16) div 16 = a" using lt by simp
  moreover have "(a mod 4 * 16 + b div 16) mod 16 * 16 + (b mod 16 * 4 + c div 64) div 4 = b" using lt by simp
  moreover have "(b mod 16 * 4 + c div 64) mod 4 * 64 + c mod 64 = c" using lt by simp
  ultimately show ?case using 4 by simp
qed simp

lemma utf8_ascii: "\<forall>c \<in> set s. code_unit c < 128 \<Longrightarrow> utf8 s = map code_unit s"
  by (induction s) (auto simp: utf8_def utf8_char_cases)

definition ascii :: "string \<Rightarrow> bool" where
  "ascii s \<longleftrightarrow> (\<forall>c \<in> set s. code_unit c < 128)"

lemma ascii_append [simp]: "ascii (s @ t) \<longleftrightarrow> ascii s \<and> ascii t"
  by (auto simp: ascii_def)

lemma ascii_pad [simp]: "ascii (pad k n)"
proof (induction k arbitrary: n)
  case (Suc k)
  have "code_unit (char_of (48 + n mod 10) :: char) < 128"
  proof -
    have "n mod 10 < 10" by simp
    then have "48 + n mod 10 < 58" by simp
    then show ?thesis by (simp add: of_char_of)
  qed
  with Suc show ?case by (simp add: ascii_def)
qed (simp add: ascii_def)

lemma ascii_toISOString: "ascii (toISOString t)"
proof -
  have lits: "ascii ''-''" "ascii ''T''" "ascii '':''" "ascii ''.''" "ascii ''Z''" "ascii ''+''"
    by (simp_all add: ascii_def)
  have "ascii (iso_year y)" for y unfolding iso_year_def using lits by (simp del: pad.simps append.simps)
  then show ?thesis unfolding toISOString_def Let_def using lits
    by (simp del: pad.simps append.simps split: prod.split)
qed

lemma cursor_text_encode:
  assumes "ascii s"
  shows "cursor_text lenient (map b64_char (b64_encode (utf8 s))) = Some s"
proof -
  have bytes: "utf8 s = map code_unit s" using assms by (simp add: utf8_ascii ascii_def)
  have "\<forall>b \<in> set (utf8 s). b < 256" unfolding bytes by auto
  then have range: "\<forall>n \<in> set (b64_encode (utf8 s)). n < 64" and dec: "b64_decode (b64_encode (utf8 s)) = utf8 s"
    by (rule b64_encode_range, rule b64_roundtrip)
  have vals: "map (\<lambda>c. the (b64_value c)) (map b64_char (b64_encode (utf8 s))) = b64_encode (utf8 s)"
    using range by (simp add: b64_value_char map_idI)
  have "list_all (\<lambda>c. b64_value c \<noteq> None) (map b64_char (b64_encode (utf8 s)))"
    using range by (auto simp: list_all_iff b64_value_char)
  moreover have "list_all (\<lambda>b. b < 128) (utf8 s)" using assms by (auto simp: bytes list_all_iff ascii_def)
  moreover have "map char_of (utf8 s) = s" by (simp add: bytes comp_def)
  ultimately show ?thesis unfolding cursor_text_def Let_def vals dec by simp
qed

lemma decode_encode:
  assumes "valid_date t" and "isUuidV7 i" and "ascii i" and "CHR '':'' \<notin> set i"
  shows "decodeCursor isUuidV7 lenient (encodeCursor t i) = Inr \<lparr>sortValue = t, cursor_id = i\<rparr>"
proof -
  let ?s = "toISOString t @ '':'' @ i"
  have "ascii [CHR '':'']" by (simp add: ascii_def)
  then have "ascii ?s" using assms(3) ascii_toISOString by (simp del: append.simps)
  then have text_eq: "cursor_text lenient (encodeCursor t i) = Some ?s"
    unfolding encodeCursor_def by (rule cursor_text_encode)
  have "takeWhile (\<lambda>c. c \<noteq> CHR '':'') (rev ?s) = rev i"
    using assms(4) by (simp add: takeWhile_append)
  then have id: "rev (takeWhile (\<lambda>c. c \<noteq> CHR '':'') (rev ?s)) = i" by simp
  have ne: "toISOString t \<noteq> []"
    using date_parse_toISOString [OF assms(1)] by (auto simp: date_parse_def num_def split: option.splits if_splits)
  show ?thesis unfolding decodeCursor_def text_eq option.case Let_def id
    using ne assms(1,2) date_parse_toISOString [OF assms(1)] by simp
qed

text \<open>
  A list operation that takes the cursor as the client sends it: it decodes the cursor, asks the
  query for one row more than the page, and returns the views of the page, whether there is more,
  and the cursor of the last row.
\<close>

type_synonym 'v listing = "'v list \<times> bool \<times> string option"

definition cursor_safe :: "(uuid \<Rightarrow> bool) \<Rightarrow> date \<times> uuid \<Rightarrow> bool" where
  "cursor_safe isUuidV7 k \<longleftrightarrow> valid_date (fst k) \<and> isUuidV7 (snd k) \<and> ascii (snd k) \<and> CHR '':'' \<notin> set (snd k)"

definition listing_of :: "('r \<Rightarrow> date \<times> uuid) \<Rightarrow> ('r \<Rightarrow> 'v) \<Rightarrow> 'r list \<times> bool \<Rightarrow> 'v listing" where
  "listing_of key view paged =
     (let (page, hasMore) = paged
      in (map view page, hasMore,
          if page = [] then None else Some (encodeCursor (fst (key (last page))) (snd (key (last page))))))"

fun walk_listing :: "nat \<Rightarrow> (string option \<Rightarrow> failure + 'v listing) \<Rightarrow> string option \<Rightarrow> failure + 'v list" where
  "walk_listing 0 list_page cursor = Inr []"
| "walk_listing (Suc n) list_page cursor =
     (case list_page cursor of
        Inl e \<Rightarrow> Inl e
      | Inr (views, hasMore, lastCursor) \<Rightarrow>
          if hasMore then map_sum id ((@) views) (walk_listing n list_page lastCursor) else Inr views)"

lemma encodeCursor_nonempty: "encodeCursor t i \<noteq> []"
proof
  assume e: "encodeCursor t i = []"
  have "b64_encode bs \<noteq> []" if "bs \<noteq> []" for bs using that by (cases bs rule: b64_encode.cases) auto
  moreover have "utf8 (a @ CHR '':'' # b) \<noteq> []" for a b by (auto simp: utf8_def utf8_char_cases)
  ultimately show False using e by (simp add: encodeCursor_def)
qed

lemma decode_own_cursor:
  "cursor_safe v k \<Longrightarrow>
    decodeOptionalCursor v lenient (Some (encodeCursor (fst k) (snd k))) = Inr (Some \<lparr>sortValue = fst k, cursor_id = snd k\<rparr>)"
  using encodeCursor_nonempty [of "fst k" "snd k"]
  by (simp add: decodeOptionalCursor_def decode_encode cursor_safe_def)

locale cursor_list = keyset_list q key rows
  for q :: "decoded_cursor option \<Rightarrow> nat \<Rightarrow> 'r list" and key :: "'r \<Rightarrow> date \<times> uuid" and rows :: "'r list" +
  fixes list_page :: "string option \<Rightarrow> failure + 'v listing"
    and view :: "'r \<Rightarrow> 'v"
    and isUuidV7 :: "uuid \<Rightarrow> bool"
    and lenient :: "string \<Rightarrow> nat list"
    and limit :: nat
  assumes list_page_ok: "decodeOptionalCursor isUuidV7 lenient raw = Inr cursor \<Longrightarrow>
      list_page raw = Inr (listing_of key view (page_of limit (q cursor (limit + 1))))"
begin

lemma q_rows: "set (q cursor n) \<subseteq> set rows"
  by (auto simp: q_newest newest_def dest!: in_set_takeD)

lemma walk_listing_pages:
  assumes safe: "\<forall>r \<in> set rows. cursor_safe isUuidV7 (key r)" and pos: "0 < limit"
  shows "decodeOptionalCursor isUuidV7 lenient raw = Inr cursor \<Longrightarrow>
    walk_listing n list_page raw = Inr (map view (walk_pages n q key limit cursor))"
proof (induction n arbitrary: raw cursor)
  case (Suc n)
  obtain page more where p: "page_of limit (q cursor (limit + 1)) = (page, more)"
    by (cases "page_of limit (q cursor (limit + 1))")
  show ?case
  proof (cases more)
    case False
    then show ?thesis using list_page_ok [OF Suc.prems] p by (simp add: listing_of_def)
  next
    case True
    then have page: "page \<noteq> []" "set page \<subseteq> set (q cursor (limit + 1))"
      using p pos by (auto simp: page_of_def dest: in_set_takeD split: if_splits)
    then have "cursor_safe isUuidV7 (key (last page))" using safe q_rows by (meson last_in_set subsetD)
    from Suc.IH [OF decode_own_cursor [OF this]] show ?thesis
      using list_page_ok [OF Suc.prems] p True page(1) by (simp add: listing_of_def)
  qed
qed simp

text \<open>Following the cursors from the first page lists every row once, newest first.\<close>

lemma walk_listing_complete:
  assumes "unique_on key rows" and "\<forall>r \<in> set rows. cursor_safe isUuidV7 (key r)" and "0 < limit"
    and "length rows \<le> n * limit" and "0 < n"
  shows "walk_listing n list_page None = Inr (map view (newest key rows))"
  using walk_listing_pages [OF assms(2,3), of None None n] walk_complete [OF assms(1,3,4,5)]
  by (simp add: decodeOptionalCursor_def)

end

text \<open>
  A cursor that the server hands out for a row decodes to exactly that row's creation time and id,
  for every representable timestamp (also before the year 0 and after 9999) and every UUID the
  validator accepts.\<close>

theorem cursor_roundtrip:
  assumes "valid_date t" and "isUuidV7 i" and "ascii i" and "CHR '':'' \<notin> set i"
  shows "decodeOptionalCursor isUuidV7 lenient (Some (encodeCursor t i)) = Inr (Some \<lparr>sortValue = t, cursor_id = i\<rparr>)"
  using decode_own_cursor [of isUuidV7 "(t, i)" lenient] assms by (simp add: cursor_safe_def)

theorem cursor_roundtrip_witness:
  "decodeOptionalCursor (\<lambda>i. i = ''018f-a1'') (\<lambda>_. []) (Some (encodeCursor 1700000000123 ''018f-a1''))
     = Inr (Some \<lparr>sortValue = 1700000000123, cursor_id = ''018f-a1''\<rparr>)"
  by (rule cursor_roundtrip) (simp_all add: valid_date_def ascii_def)

text \<open>
  Nothing else decodes: an accepted cursor is a timestamp in the canonical form and a UUID, so a
  tampered cursor is answered with the malformed-cursor error and never with another row's position
  that its text does not spell.\<close>

theorem decoded_cursor_canonical:
  "decodeCursor isUuidV7 lenient raw = Inr c \<Longrightarrow>
     cursor_text lenient raw = Some (toISOString (sortValue c) @ '':'' @ cursor_id c)
     \<and> valid_date (sortValue c) \<and> isUuidV7 (cursor_id c)"
proof -
  assume dec: "decodeCursor isUuidV7 lenient raw = Inr c"
  then obtain s where s: "cursor_text lenient raw = Some s" by (auto simp: decodeCursor_def split: option.splits)
  define i where "i = rev (takeWhile (\<lambda>c. c \<noteq> CHR '':'') (rev s))"
  define ts where "ts = take (length s - length i - 1) s"
  have long: "length i + 1 < length s" and c: "date_parse ts = Some (sortValue c)" "valid_date (sortValue c)"
      "toISOString (sortValue c) = ts" "isUuidV7 i" "cursor_id c = i"
    using dec s by (auto simp: decodeCursor_def Let_def i_def [symmetric] ts_def split: option.splits if_splits)
  have "rev s = rev i @ dropWhile (\<lambda>c. c \<noteq> CHR '':'') (rev s)" by (simp add: i_def)
  moreover from this long have ne: "dropWhile (\<lambda>c. c \<noteq> CHR '':'') (rev s) \<noteq> []"
    by (metis append_Nil2 length_rev less_add_one not_less_iff_gr_or_eq order.strict_trans)
  ultimately obtain rest where "rev s = rev i @ CHR '':'' # rest"
    using hd_dropWhile [OF ne] by (metis list.collapse)
  then have split: "s = rev rest @ CHR '':'' # i" by (metis rev.simps(2) rev_append rev_rev_ident append.assoc append_Cons append_Nil)
  then have "ts = rev rest" by (simp add: ts_def)
  then show ?thesis using s split c by simp
qed

theorem decoded_cursor_canonical_witness:
  "cursor_text (\<lambda>_. []) (encodeCursor 0 ''a'') = Some (toISOString 0 @ '':'' @ ''a'') \<and> valid_date 0"
proof -
  have "decodeCursor (\<lambda>i. i = ''a'') (\<lambda>_. []) (encodeCursor 0 ''a'') = Inr \<lparr>sortValue = 0, cursor_id = ''a''\<rparr>"
    by (rule decode_encode) (simp_all add: valid_date_def ascii_def)
  from decoded_cursor_canonical [OF this] show ?thesis by simp
qed

end
