(* ===== verification/Users.thy ===== *)
theory Users
  imports Outbox Pagination
begin

text \<open>
  The users module (\<open>src/src/modules/users\<close>): the display name, the profile aggregate, its
  repository, the use cases that create, read, list, update and delete a profile, and the two queue
  listeners that follow the account's life.
\<close>

section \<open>Display names\<close>

definition containsControlCharacter :: "string \<Rightarrow> bool" where
  "containsControlCharacter s \<longleftrightarrow> (\<exists>c \<in> set s. code_unit c < 32 \<or> code_unit c = 127)"

definition MIN_LENGTH :: nat where "MIN_LENGTH = 2"

definition MAX_LENGTH :: nat where "MAX_LENGTH = 80"

definition display_name_error :: "string \<Rightarrow> string \<Rightarrow> failure" where
  "display_name_error detail message =
     validation_with DISPLAY_NAME_INVALID detail
       [\<lparr>fe_path = ''displayName'', fe_code = wire_code DISPLAY_NAME_INVALID, fe_message = message, fe_rule = None\<rparr>]"

definition DisplayName_of :: "string \<Rightarrow> failure + string" where
  "DisplayName_of raw =
     (let trimmed = trim raw in
      if length trimmed < MIN_LENGTH \<or> MAX_LENGTH < length trimmed
      then Inl (display_name_error
             (''Display name must be between '' @ show_nat MIN_LENGTH @ '' and '' @ show_nat MAX_LENGTH @ '' characters.'')
             ''invalid length'')
      else if containsControlCharacter trimmed
      then Inl (display_name_error ''Display name must not contain control characters.'' ''invalid characters'')
      else Inr trimmed)"

section \<open>The profile\<close>

datatype user_profile_event =
    UserProfileCreated uuid uuid
  | UserProfileRenamed uuid string string
  | UserAvatarChanged uuid "uuid option"

record user_profile =
  profile_row :: user_profile_row
  profile_events :: "user_profile_event list"

definition UserProfile_create :: "uuid \<Rightarrow> date \<Rightarrow> uuid \<Rightarrow> string \<Rightarrow> failure + user_profile" where
  "UserProfile_create newId now userId displayName =
     (case DisplayName_of displayName of
        Inl e \<Rightarrow> Inl e
      | Inr name \<Rightarrow>
          Inr \<lparr>profile_row =
                 \<lparr>up_id = newId, up_userId = userId, up_displayName = name, up_avatarFileId = None,
                  up_createdAt = now, up_updatedAt = now\<rparr>,
               profile_events = [UserProfileCreated newId userId]\<rparr>)"

definition UserProfile_rehydrate :: "user_profile_row \<Rightarrow> user_profile" where
  "UserProfile_rehydrate r = \<lparr>profile_row = r, profile_events = []\<rparr>"

definition rename_profile :: "string \<Rightarrow> date \<Rightarrow> user_profile \<Rightarrow> failure + user_profile" where
  "rename_profile displayName now p =
     (case DisplayName_of displayName of
        Inl e \<Rightarrow> Inl e
      | Inr nextName \<Rightarrow>
          if nextName = up_displayName (profile_row p) then Inr p
          else Inr (p\<lparr>profile_row := (profile_row p)\<lparr>up_displayName := nextName, up_updatedAt := now\<rparr>,
                      profile_events := profile_events p @
                        [UserProfileRenamed (up_id (profile_row p)) (up_displayName (profile_row p)) nextName]\<rparr>))"

definition changeAvatar :: "uuid option \<Rightarrow> date \<Rightarrow> user_profile \<Rightarrow> user_profile" where
  "changeAvatar fileId now p =
     (if fileId = up_avatarFileId (profile_row p) then p
      else p\<lparr>profile_row := (profile_row p)\<lparr>up_avatarFileId := fileId, up_updatedAt := now\<rparr>,
             profile_events := profile_events p @ [UserAvatarChanged (up_id (profile_row p)) fileId]\<rparr>)"

section \<open>The repository\<close>

definition findByUserId :: "uuid \<Rightarrow> db \<Rightarrow> user_profile option" where
  "findByUserId userId d = map_option UserProfile_rehydrate (find (\<lambda>r. up_userId r = userId) (userProfiles d))"

record user_identity =
  ui_userId :: uuid
  ui_email :: string
  ui_emailVerified :: bool
  ui_role :: string
  ui_createdAt :: date

definition to_identity :: "auth_user \<Rightarrow> user_identity" where
  "to_identity u =
     \<lparr>ui_userId = au_id u, ui_email = au_email u, ui_emailVerified = au_emailVerified u, ui_role = au_role u,
      ui_createdAt = au_createdAt u\<rparr>"

definition findIdentity :: "uuid \<Rightarrow> db \<Rightarrow> user_identity option" where
  "findIdentity userId d = map_option to_identity (find (\<lambda>u. au_id u = userId) (users d))"

text \<open>\<open>upsert\<close> on the unique user id; an insert also needs a free primary key and an existing account.\<close>

definition save_profile :: "user_profile \<Rightarrow> (db, unit) action" where
  "save_profile p d =
     (let new = profile_row p in
      if up_userId new \<in> up_userId ` set (userProfiles d)
      then (Inr (), d\<lparr>userProfiles := update_where (\<lambda>r. up_userId r = up_userId new)
              (\<lambda>r. r\<lparr>up_displayName := up_displayName new, up_avatarFileId := up_avatarFileId new,
                     up_updatedAt := up_updatedAt new\<rparr>) (userProfiles d)\<rparr>)
      else
        (case require_reference (up_userId new \<in> au_id ` set (users d)) ''user_profile_user_id_fkey'' of
           Inl e \<Rightarrow> (Inl e, d)
         | Inr _ \<Rightarrow>
             (case insert_unique up_id ''user_profile_pkey'' new (userProfiles d) of
                Inl e \<Rightarrow> (Inl e, d)
              | Inr rows \<Rightarrow> (Inr (), d\<lparr>userProfiles := rows\<rparr>))))"

definition deleteByUserId :: "uuid \<Rightarrow> db \<Rightarrow> bool \<times> db" where
  "deleteByUserId userId d =
     (0 < count_where (\<lambda>r. up_userId r = userId) (userProfiles d),
      d\<lparr>userProfiles := delete_where (\<lambda>r. up_userId r = userId) (userProfiles d)\<rparr>)"

definition profile_key :: "user_profile_row \<Rightarrow> date \<times> uuid" where
  "profile_key r = (up_createdAt r, up_id r)"

definition in_live_organization :: "uuid \<Rightarrow> db \<Rightarrow> user_profile_row \<Rightarrow> bool" where
  "in_live_organization organizationId d r \<longleftrightarrow>
     (\<exists>m \<in> set (members d). om_userId m = up_userId r \<and> om_organizationId m = organizationId
        \<and> (\<exists>g \<in> set (organizations d). org_id g = organizationId \<and> org_archivedAt g = None))"

definition listPage_users ::
  "decoded_cursor option \<Rightarrow> nat \<Rightarrow> uuid option \<Rightarrow> db \<Rightarrow> (user_profile \<times> user_identity) list"
where
  "listPage_users cursor limit organizationId d =
     concat (map (\<lambda>r. case findIdentity (up_userId r) d of
                        None \<Rightarrow> []
                      | Some i \<Rightarrow> [(UserProfile_rehydrate r, i)])
       (keyset_query profile_key
          (\<lambda>r. case organizationId of None \<Rightarrow> True | Some org \<Rightarrow> in_live_organization org d r)
          cursor limit (userProfiles d)))"

definition existsUsableForOwner :: "uuid \<Rightarrow> uuid \<Rightarrow> db \<Rightarrow> bool" where
  "existsUsableForOwner fileId ownerId d \<longleftrightarrow>
     0 < count_where (\<lambda>r. sf_id r = fileId \<and> sf_ownerId r = ownerId \<and> sf_status r = Confirmed) (storedFiles d)"

section \<open>Use cases\<close>

record user_profile_view =
  upv_id :: uuid
  upv_userId :: uuid
  upv_email :: string
  upv_emailVerified :: bool
  upv_role :: string
  upv_displayName :: string
  upv_avatarFileId :: "uuid option"
  upv_createdAt :: string
  upv_updatedAt :: string

definition toUserProfileView :: "user_profile \<Rightarrow> user_identity \<Rightarrow> user_profile_view" where
  "toUserProfileView p i =
     (let r = profile_row p in
      \<lparr>upv_id = up_id r, upv_userId = up_userId r, upv_email = ui_email i, upv_emailVerified = ui_emailVerified i,
       upv_role = ui_role i, upv_displayName = up_displayName r, upv_avatarFileId = up_avatarFileId r,
       upv_createdAt = toISOString (up_createdAt r), upv_updatedAt = toISOString (up_updatedAt r)\<rparr>)"

definition DeleteUserProfile_execute :: "uuid \<Rightarrow> db \<Rightarrow> bool \<times> db" where
  "DeleteUserProfile_execute userId d = deleteByUserId userId d"

definition defaultDisplayName :: "string \<Rightarrow> string" where
  "defaultDisplayName email =
     (let localPart = hd (split_on (\<lambda>c. c = CHR ''@'') email)
      in if 2 \<le> length localPart then take 80 localPart else localPart @ ''-user'')"

definition EnsureUserProfile_execute ::
  "uuid \<Rightarrow> date \<Rightarrow> uuid \<Rightarrow> string \<Rightarrow> string option \<Rightarrow> (db, bool) action"
where
  "EnsureUserProfile_execute newId now userId email displayName d =
     (case findByUserId userId d of
        Some _ \<Rightarrow> (Inr False, d)
      | None \<Rightarrow>
          (case UserProfile_create newId now userId
                  (case displayName of Some n \<Rightarrow> n | None \<Rightarrow> defaultDisplayName email) of
             Inl e \<Rightarrow> (Inl e, d)
           | Inr p \<Rightarrow>
               (case save_profile p d of
                  (Inl e, d') \<Rightarrow> (Inl e, d')
                | (Inr _, d') \<Rightarrow> (Inr True, d'))))"

definition GetUserProfile_execute :: "uuid \<Rightarrow> db \<Rightarrow> failure + user_profile_view" where
  "GetUserProfile_execute userId d =
     (case (findByUserId userId d, findIdentity userId d) of
        (Some p, Some i) \<Rightarrow> Inr (toUserProfileView p i)
      | _ \<Rightarrow> Inl (notFound USER_PROFILE_NOT_FOUND ''Profile not found.''))"

definition MAX_PAGE_SIZE_users :: nat where "MAX_PAGE_SIZE_users = 100"

definition DEFAULT_PAGE_SIZE_users :: nat where "DEFAULT_PAGE_SIZE_users = 20"

definition ListUserProfiles_execute ::
  "(uuid \<Rightarrow> bool) \<Rightarrow> (string \<Rightarrow> nat list) \<Rightarrow> string option \<Rightarrow> nat option \<Rightarrow> uuid option \<Rightarrow> db
     \<Rightarrow> failure + user_profile_view listing"
where
  "ListUserProfiles_execute isUuidV7 lenient startingAfter limit organizationId d =
     (let n = min (case limit of Some l \<Rightarrow> l | None \<Rightarrow> DEFAULT_PAGE_SIZE_users) MAX_PAGE_SIZE_users in
      case decodeOptionalCursor isUuidV7 lenient startingAfter of
        Inl e \<Rightarrow> Inl e
      | Inr cursor \<Rightarrow>
          (let (page, hasMore) = page_of n (listPage_users cursor (n + 1) organizationId d)
           in Inr (map (\<lambda>(p, i). toUserProfileView p i) page, hasMore,
                   if page = [] then None
                   else Some (encodeCursor (up_createdAt (profile_row (fst (last page))))
                                (up_id (profile_row (fst (last page))))))))"

definition assertAvatarUsable :: "uuid option \<Rightarrow> uuid \<Rightarrow> db \<Rightarrow> failure + unit" where
  "assertAvatarUsable avatarFileId ownerId d =
     (case avatarFileId of
        None \<Rightarrow> Inr ()
      | Some f \<Rightarrow>
          if existsUsableForOwner f ownerId d then Inr ()
          else Inl (notFound UPLOAD_NOT_FOUND ''No usable confirmed upload with that id belongs to you.''))"

text \<open>An absent field is \<open>None\<close>; an avatar that is present and \<open>null\<close> is \<open>Some None\<close>.\<close>

definition UpdateUserProfile_execute ::
  "date \<Rightarrow> uuid \<Rightarrow> uuid \<Rightarrow> string option \<Rightarrow> uuid option option \<Rightarrow> (db, user_profile_view) action"
where
  "UpdateUserProfile_execute now callerId targetUserId displayName avatarFileId d =
     (if callerId \<noteq> targetUserId
      then (Inl (forbidden FORBIDDEN ''A profile may only be edited by its owner.''), d)
      else
        (case findByUserId targetUserId d of
           None \<Rightarrow> (Inl (notFound USER_PROFILE_NOT_FOUND ''Profile not found.''), d)
         | Some p0 \<Rightarrow>
             (case (case displayName of None \<Rightarrow> Inr p0 | Some n \<Rightarrow> rename_profile n now p0) of
                Inl e \<Rightarrow> (Inl e, d)
              | Inr p1 \<Rightarrow>
                  (case (case avatarFileId of
                           None \<Rightarrow> Inr p1
                         | Some a \<Rightarrow>
                             (case assertAvatarUsable a callerId d of
                                Inl e \<Rightarrow> Inl e
                              | Inr _ \<Rightarrow> Inr (changeAvatar a now p1))) of
                     Inl e \<Rightarrow> (Inl e, d)
                   | Inr p2 \<Rightarrow>
                       (case save_profile p2 d of
                          (Inl e, d') \<Rightarrow> (Inl e, d')
                        | (Inr _, d') \<Rightarrow>
                            (case findIdentity targetUserId d' of
                               None \<Rightarrow> (Inl (notFound USER_NOT_FOUND ''User not found.''), d')
                             | Some i \<Rightarrow> (Inr (toUserProfileView p2 i), d')))))))"

section \<open>Listeners\<close>

definition payload_string :: "integration_event \<Rightarrow> string \<Rightarrow> string" where
  "payload_string e k = (case ie_payload e of JsObj kvs \<Rightarrow> str_of (field kvs k) | _ \<Rightarrow> [])"

definition CreateProfileOnRegistration_handle :: "zod \<Rightarrow> uuid \<Rightarrow> date \<Rightarrow> js \<Rightarrow> (db, bool) action" where
  "CreateProfileOnRegistration_handle z newId now data d =
     (case parseIntegrationEvent z USER_REGISTERED data of
        None \<Rightarrow> (Inl (validation VALIDATION_FAILED ''users.registered payload did not match the published contract.''), d)
      | Some e \<Rightarrow>
          EnsureUserProfile_execute newId now (payload_string e ''userId'') (payload_string e ''email'') None d)"

definition DeleteProfileOnUserDeleted_handle :: "zod \<Rightarrow> js \<Rightarrow> (db, bool) action" where
  "DeleteProfileOnUserDeleted_handle z data d =
     (case parseIntegrationEvent z USER_DELETED data of
        None \<Rightarrow> (Inl (validation VALIDATION_FAILED ''users.deleted payload did not match the published contract.''), d)
      | Some e \<Rightarrow>
          (let (deleted, d') = DeleteUserProfile_execute (payload_string e ''userId'') d in (Inr deleted, d')))"

section \<open>Display names are valid where they are written\<close>

definition valid_name :: "string \<Rightarrow> bool" where
  "valid_name n \<longleftrightarrow> 2 \<le> length n \<and> length n \<le> 80 \<and> trim n = n \<and> \<not> containsControlCharacter n"

lemma DisplayName_of_valid: "DisplayName_of raw = Inr n \<Longrightarrow> valid_name n \<and> n = trim raw"
  by (auto simp: DisplayName_of_def valid_name_def Let_def MIN_LENGTH_def MAX_LENGTH_def trim_idem split: if_splits)

lemma DisplayName_of_ok: "valid_name n \<Longrightarrow> DisplayName_of n = Inr n"
  by (simp add: DisplayName_of_def valid_name_def MIN_LENGTH_def MAX_LENGTH_def)

lemma no_space_valid:
  assumes "\<forall>c \<in> set n. \<not> is_js_space c \<and> 32 \<le> code_unit c \<and> code_unit c \<noteq> 127" and "2 \<le> length n" and "length n \<le> 80"
  shows "valid_name n"
proof -
  have "trim n = n" by (rule trim_id) (use assms(1) in blast)
  then show ?thesis using assms by (auto simp: valid_name_def containsControlCharacter_def)
qed

text \<open>The name made from an address whose local part has neither blanks nor control characters is valid.\<close>

lemma defaultDisplayName_valid:
  assumes "\<forall>c \<in> set email. \<not> is_js_space c \<and> 32 \<le> code_unit c \<and> code_unit c \<noteq> 127"
  shows "valid_name (defaultDisplayName email)"
proof -
  define p where "p = hd (split_on (\<lambda>c. c = CHR ''@'') email)"
  have sub: "set p \<subseteq> set email" unfolding p_def hd_split_on by (auto dest: set_takeWhileD)
  have suffix: "\<forall>c \<in> set ''-user''. \<not> is_js_space c \<and> 32 \<le> code_unit c \<and> code_unit c \<noteq> 127"
    by (simp add: is_js_space_def)
  have "set (defaultDisplayName email) \<subseteq> set p \<union> set ''-user''"
    unfolding defaultDisplayName_def Let_def p_def [symmetric] by (auto dest: in_set_takeD)
  then have "\<forall>c \<in> set (defaultDisplayName email). \<not> is_js_space c \<and> 32 \<le> code_unit c \<and> code_unit c \<noteq> 127"
    using sub suffix assms by blast
  then show ?thesis
    by (rule no_space_valid) (auto simp: defaultDisplayName_def Let_def p_def [symmetric])
qed

section \<open>The profile table\<close>

definition profiles_inv :: "db \<Rightarrow> bool" where
  "profiles_inv d \<longleftrightarrow>
     unique_on up_userId (userProfiles d) \<and> unique_on up_id (userProfiles d)
     \<and> (\<forall>r \<in> set (userProfiles d). valid_name (up_displayName r) \<and> up_userId r \<in> au_id ` set (users d))"

text \<open>What each operation does to the tables, and to which row.\<close>

lemma save_profile_cases:
  assumes "save_profile p d = (r, d')"
  shows "(\<exists>e. r = Inl e \<and> d' = d) \<or>
    (r = Inr () \<and> up_userId (profile_row p) \<in> up_userId ` set (userProfiles d)
      \<and> d' = d\<lparr>userProfiles := update_where (\<lambda>x. up_userId x = up_userId (profile_row p))
              (\<lambda>x. x\<lparr>up_displayName := up_displayName (profile_row p), up_avatarFileId := up_avatarFileId (profile_row p),
                     up_updatedAt := up_updatedAt (profile_row p)\<rparr>) (userProfiles d)\<rparr>) \<or>
    (r = Inr () \<and> up_userId (profile_row p) \<notin> up_userId ` set (userProfiles d)
      \<and> up_userId (profile_row p) \<in> au_id ` set (users d) \<and> up_id (profile_row p) \<notin> up_id ` set (userProfiles d)
      \<and> d' = d\<lparr>userProfiles := userProfiles d @ [profile_row p]\<rparr>)"
  using assms by (auto simp: save_profile_def Let_def insert_unique_def require_reference_def split: if_splits)

lemma save_profile_inv:
  assumes inv: "profiles_inv d" and valid: "valid_name (up_displayName (profile_row p))" and run: "save_profile p d = (r, d')"
  shows "profiles_inv d'"
  using save_profile_cases [OF run]
proof (elim disjE exE conjE)
  assume "d' = d"
  then show ?thesis using inv by simp
next
  assume d': "d' = d\<lparr>userProfiles := update_where (\<lambda>x. up_userId x = up_userId (profile_row p))
      (\<lambda>x. x\<lparr>up_displayName := up_displayName (profile_row p), up_avatarFileId := up_avatarFileId (profile_row p),
             up_updatedAt := up_updatedAt (profile_row p)\<rparr>) (userProfiles d)\<rparr>"
  have keys: "up_userId x \<in> au_id ` set (users d)" if "x \<in> set (userProfiles d)" for x
    using inv that by (simp add: profiles_inv_def)
  show ?thesis unfolding d' using inv valid keys
    by (auto simp: profiles_inv_def set_update_where intro!: unique_on_update) (metis keys)+
next
  assume "d' = d\<lparr>userProfiles := userProfiles d @ [profile_row p]\<rparr>"
    and "up_userId (profile_row p) \<notin> up_userId ` set (userProfiles d)" "up_id (profile_row p) \<notin> up_id ` set (userProfiles d)"
    and "up_userId (profile_row p) \<in> au_id ` set (users d)"
  then show ?thesis using inv valid by (auto simp: profiles_inv_def unique_on_append)
qed

lemma rename_valid:
  "rename_profile n now p = Inr p' \<Longrightarrow> valid_name (up_displayName (profile_row p'))
     \<and> up_displayName (profile_row p') = trim n \<and> up_userId (profile_row p') = up_userId (profile_row p)
     \<and> up_id (profile_row p') = up_id (profile_row p) \<and> up_avatarFileId (profile_row p') = up_avatarFileId (profile_row p)
     \<and> up_createdAt (profile_row p') = up_createdAt (profile_row p)"
  by (auto simp: rename_profile_def split: sum.splits if_splits dest!: DisplayName_of_valid)

lemma changeAvatar_fields [simp]:
  "up_displayName (profile_row (changeAvatar a now p)) = up_displayName (profile_row p)"
  "up_userId (profile_row (changeAvatar a now p)) = up_userId (profile_row p)"
  "up_id (profile_row (changeAvatar a now p)) = up_id (profile_row p)"
  "up_createdAt (profile_row (changeAvatar a now p)) = up_createdAt (profile_row p)"
  "up_avatarFileId (profile_row (changeAvatar a now p)) = a"
  by (simp_all add: changeAvatar_def)

lemma Ensure_inv:
  assumes inv: "profiles_inv d" and run: "EnsureUserProfile_execute newId now u email name d = (r, d')"
  shows "profiles_inv d'"
proof (cases "findByUserId u d")
  case (Some p)
  then show ?thesis using run inv by (simp add: EnsureUserProfile_execute_def)
next
  case None
  let ?n = "case name of Some n \<Rightarrow> n | None \<Rightarrow> defaultDisplayName email"
  show ?thesis
  proof (cases "UserProfile_create newId now u ?n")
    case (Inl e)
    then show ?thesis using run inv None by (simp add: EnsureUserProfile_execute_def)
  next
    case (Inr p)
    then have "valid_name (up_displayName (profile_row p))"
      by (auto simp: UserProfile_create_def split: sum.splits dest: DisplayName_of_valid)
    moreover obtain r' where "save_profile p d = (r', d')"
      using run None Inr by (auto simp: EnsureUserProfile_execute_def split: prod.splits sum.splits)
    ultimately show ?thesis using save_profile_inv [OF inv] by blast
  qed
qed

text \<open>The profile that an update is about to write.\<close>

definition updated_profile :: "date \<Rightarrow> uuid \<Rightarrow> string option \<Rightarrow> uuid option option \<Rightarrow> db \<Rightarrow> failure + user_profile" where
  "updated_profile now u name avatar d =
     (case findByUserId u d of
        None \<Rightarrow> Inl (notFound USER_PROFILE_NOT_FOUND ''Profile not found.'')
      | Some p0 \<Rightarrow>
          (case (case name of None \<Rightarrow> Inr p0 | Some n \<Rightarrow> rename_profile n now p0) of
             Inl e \<Rightarrow> Inl e
           | Inr p1 \<Rightarrow>
               (case avatar of
                  None \<Rightarrow> Inr p1
                | Some a \<Rightarrow>
                    (case assertAvatarUsable a u d of Inl e \<Rightarrow> Inl e | Inr _ \<Rightarrow> Inr (changeAvatar a now p1)))))"

lemma Update_unfold:
  "UpdateUserProfile_execute now u u name avatar d =
     (case updated_profile now u name avatar d of
        Inl e \<Rightarrow> (Inl e, d)
      | Inr p \<Rightarrow>
          (case save_profile p d of
             (Inl e, d') \<Rightarrow> (Inl e, d')
           | (Inr _, d') \<Rightarrow>
               (case findIdentity u d' of
                  None \<Rightarrow> (Inl (notFound USER_NOT_FOUND ''User not found.''), d')
                | Some i \<Rightarrow> (Inr (toUserProfileView p i), d'))))"
  by (auto simp: UpdateUserProfile_execute_def updated_profile_def split: option.split sum.split)

lemma updated_profile_ok:
  assumes inv: "profiles_inv d" and p: "updated_profile now u name avatar d = Inr p"
  shows "\<exists>r \<in> set (userProfiles d). up_userId r = u \<and> up_userId (profile_row p) = u \<and> up_id (profile_row p) = up_id r
    \<and> up_createdAt (profile_row p) = up_createdAt r
    \<and> valid_name (up_displayName (profile_row p))
    \<and> up_displayName (profile_row p) = (case name of None \<Rightarrow> up_displayName r | Some n \<Rightarrow> trim n)
    \<and> up_avatarFileId (profile_row p) = (case avatar of None \<Rightarrow> up_avatarFileId r | Some a \<Rightarrow> a)
    \<and> (\<forall>f. avatar = Some (Some f) \<longrightarrow> existsUsableForOwner f u d)"
proof -
  obtain r where r: "find (\<lambda>r. up_userId r = u) (userProfiles d) = Some r"
    using p by (auto simp: updated_profile_def findByUserId_def split: option.splits)
  then have mem: "r \<in> set (userProfiles d)" "up_userId r = u" by (auto simp: find_Some_iff)
  obtain p1 where p1: "(case name of None \<Rightarrow> Inr (UserProfile_rehydrate r) | Some n \<Rightarrow> rename_profile n now (UserProfile_rehydrate r)) = Inr p1"
    using p r by (auto simp: updated_profile_def findByUserId_def split: sum.splits)
  have "valid_name (up_displayName r)" using inv mem(1) by (simp add: profiles_inv_def)
  then have f1: "valid_name (up_displayName (profile_row p1))" "up_userId (profile_row p1) = u"
      "up_displayName (profile_row p1) = (case name of None \<Rightarrow> up_displayName r | Some n \<Rightarrow> trim n)"
      "up_avatarFileId (profile_row p1) = up_avatarFileId r" "up_id (profile_row p1) = up_id r" "up_createdAt (profile_row p1) = up_createdAt r"
    using p1 mem(2) by (auto simp: UserProfile_rehydrate_def dest!: rename_valid split: option.splits)
  have "p = (case avatar of None \<Rightarrow> p1 | Some a \<Rightarrow> changeAvatar a now p1)" and "\<forall>f. avatar = Some (Some f) \<longrightarrow> existsUsableForOwner f u d"
    using p r p1 by (auto simp: updated_profile_def findByUserId_def assertAvatarUsable_def split: option.splits sum.splits if_splits)
  then show ?thesis using f1 mem by (intro bexI [OF _ mem(1)]) (auto split: option.splits)
qed

lemma Update_refused:
  assumes "c \<noteq> u \<or> isl (updated_profile now u name avatar d)" and "UpdateUserProfile_execute now c u name avatar d = (r, d')"
  shows "d' = d \<and> isl r"
proof (cases "c = u")
  case True
  then show ?thesis using assms by (auto simp: Update_unfold split: sum.splits)
next
  case False
  then show ?thesis using assms(2) by (auto simp: UpdateUserProfile_execute_def)
qed

lemma Update_inv:
  assumes inv: "profiles_inv d" and run: "UpdateUserProfile_execute now c u name avatar d = (r, d')"
  shows "profiles_inv d'"
proof (cases "c = u \<and> \<not> isl (updated_profile now u name avatar d)")
  case False
  then show ?thesis using Update_refused [OF _ run] inv by auto
next
  case True
  then obtain p where p: "updated_profile now u name avatar d = Inr p" by (cases "updated_profile now u name avatar d") auto
  then obtain r' where "save_profile p d = (r', d')"
    using run True by (auto simp: Update_unfold split: prod.splits sum.splits option.splits)
  then show ?thesis using save_profile_inv [OF inv] updated_profile_ok [OF inv p] by blast
qed

text \<open>Any sequence of the module's operations, between which other components may add accounts.\<close>

inductive profile_step :: "db \<Rightarrow> db \<Rightarrow> bool" where
  account: "profile_step d (d\<lparr>users := users d @ us\<rparr>)"
| account_gone: "profile_step d (d\<lparr>users := delete_where (\<lambda>x. au_id x = u) (users d),
      userProfiles := delete_where (\<lambda>p. up_userId p = u) (userProfiles d)\<rparr>)"
| register: "CreateProfileOnRegistration_handle z newId now data d = (r, d') \<Longrightarrow> profile_step d d'"
| ensure: "EnsureUserProfile_execute newId now u email name d = (r', d') \<Longrightarrow> profile_step d d'"
| update: "UpdateUserProfile_execute now c u name avatar d = (v, d') \<Longrightarrow> profile_step d d'"
| removed: "DeleteProfileOnUserDeleted_handle z data d = (r, d') \<Longrightarrow> profile_step d d'"

lemma deleteByUserId_inv: "profiles_inv d \<Longrightarrow> profiles_inv (snd (deleteByUserId u d))"
  by (auto simp: profiles_inv_def deleteByUserId_def set_delete_where intro: unique_on_delete)

lemma profile_step_inv: "profile_step d d' \<Longrightarrow> profiles_inv d \<Longrightarrow> profiles_inv d'"
proof (induction rule: profile_step.induct)
  case (account d us)
  then show ?case by (auto simp: profiles_inv_def)
next
  case (account_gone d u)
  then show ?case by (fastforce simp: profiles_inv_def set_delete_where intro: unique_on_delete)
next
  case (register z newId now data d r d')
  then show ?case using Ensure_inv by (auto simp: CreateProfileOnRegistration_handle_def split: option.splits)
next
  case (ensure newId now u email name d r' d')
  then show ?case using Ensure_inv by blast
next
  case (update now c u name avatar d v d')
  then show ?case using Update_inv by blast
next
  case (removed z data d r d')
  have "d' = d \<or> (\<exists>u. d' = snd (deleteByUserId u d))"
    using removed(1) by (auto simp: DeleteProfileOnUserDeleted_handle_def DeleteUserProfile_execute_def split: option.splits prod.splits)
      (metis snd_conv)
  then show ?case using removed(2) deleteByUserId_inv by auto
qed

section \<open>Properties\<close>



text \<open>
  Updating a profile, on every branch. A success was asked by the owner, writes only the owner's
  row, with the trimmed valid name when one was sent and with the avatar when one was sent, which is
  then a confirmed upload of the owner; creation time and ids do not change. A failure changes nothing.\<close>

theorem update_profile_outcomes:
  assumes inv: "profiles_inv d" and run: "UpdateUserProfile_execute now c u name avatar d = (res, d')"
  shows "case res of
      Inl e \<Rightarrow> d' = d
    | Inr v \<Rightarrow> c = u \<and> (\<exists>r \<in> set (userProfiles d). \<exists>nm av t. up_userId r = u
        \<and> nm = (case name of None \<Rightarrow> up_displayName r | Some n \<Rightarrow> trim n) \<and> valid_name nm
        \<and> av = (case avatar of None \<Rightarrow> up_avatarFileId r | Some a \<Rightarrow> a)
        \<and> (\<forall>f. avatar = Some (Some f) \<longrightarrow> existsUsableForOwner f u d)
        \<and> d' = d\<lparr>userProfiles := update_where (\<lambda>x. up_userId x = u)
              (\<lambda>x. x\<lparr>up_displayName := nm, up_avatarFileId := av, up_updatedAt := t\<rparr>) (userProfiles d)\<rparr>
        \<and> upv_displayName v = nm \<and> upv_avatarFileId v = av \<and> upv_id v = up_id r)"
proof (cases "c = u \<and> \<not> isl (updated_profile now u name avatar d)")
  case False
  then have "d' = d \<and> isl res" using Update_refused [OF _ run] by blast
  then show ?thesis by (cases res) auto
next
  case True
  then obtain p where p: "updated_profile now u name avatar d = Inr p" by (cases "updated_profile now u name avatar d") auto
  from updated_profile_ok [OF inv p] obtain r where r: "r \<in> set (userProfiles d)" "up_userId r = u" "up_userId (profile_row p) = u"
      "up_id (profile_row p) = up_id r" "valid_name (up_displayName (profile_row p))"
      "up_displayName (profile_row p) = (case name of None \<Rightarrow> up_displayName r | Some n \<Rightarrow> trim n)"
      "up_avatarFileId (profile_row p) = (case avatar of None \<Rightarrow> up_avatarFileId r | Some a \<Rightarrow> a)"
      "\<forall>f. avatar = Some (Some f) \<longrightarrow> existsUsableForOwner f u d" by blast
  let ?d = "d\<lparr>userProfiles := update_where (\<lambda>x. up_userId x = u)
      (\<lambda>x. x\<lparr>up_displayName := up_displayName (profile_row p), up_avatarFileId := up_avatarFileId (profile_row p),
             up_updatedAt := up_updatedAt (profile_row p)\<rparr>) (userProfiles d)\<rparr>"
  have "up_userId (profile_row p) \<in> up_userId ` set (userProfiles d)" using r(1,2,3) by force
  then have save: "save_profile p d = (Inr (), ?d)" using r(3) by (simp add: save_profile_def Let_def)
  have "u \<in> au_id ` set (users d)" using inv r(1,2) by (auto simp: profiles_inv_def)
  then obtain i where "findIdentity u ?d = Some i"
    by (cases "find (\<lambda>x. au_id x = u) (users d)") (auto simp: findIdentity_def find_None_iff)
  then have "res = Inr (toUserProfileView p i)" "d' = ?d"
    using run True p save by (auto simp: Update_unfold)
  then show ?thesis using True r
    by (auto simp: toUserProfileView_def Let_def intro!: bexI [OF _ r(1)] exI [of _ "up_updatedAt (profile_row p)"])
qed

definition sample_profile_db :: db where
  "sample_profile_db = empty_db\<lparr>
     users := [\<lparr>au_id = ''u'', au_name = ''Ann'', au_email = ''ann@x.io'', au_emailVerified = True, au_role = ''user'', au_createdAt = 0\<rparr>],
     userProfiles := [\<lparr>up_id = ''p'', up_userId = ''u'', up_displayName = ''ann'', up_avatarFileId = None, up_createdAt = 0, up_updatedAt = 0\<rparr>]\<rparr>"

lemma sample_profile_inv: "profiles_inv sample_profile_db"
  by (simp add: profiles_inv_def sample_profile_db_def unique_on_def valid_name_def trim_def trim_start_def
      is_js_space_def containsControlCharacter_def)

theorem update_profile_outcomes_witness:
  "snd (UpdateUserProfile_execute 9 ''x'' ''u'' (Some ''Bob'') None sample_profile_db) = sample_profile_db"
proof -
  have run: "UpdateUserProfile_execute 9 ''x'' ''u'' (Some ''Bob'') None sample_profile_db
      = (Inl (forbidden FORBIDDEN ''A profile may only be edited by its owner.''), sample_profile_db)"
    by (simp add: UpdateUserProfile_execute_def)
  from update_profile_outcomes [OF sample_profile_inv run] run show ?thesis by simp
qed

lemma registration_profile:
  assumes event: "parseIntegrationEvent z USER_REGISTERED data = Some e"
    and email: "\<forall>c \<in> set (payload_string e ''email''). \<not> is_js_space c \<and> 32 \<le> code_unit c \<and> code_unit c \<noteq> 127"
    and inv: "profiles_inv d" and account: "payload_string e ''userId'' \<in> au_id ` set (users d)"
    and fresh: "newId \<notin> up_id ` set (userProfiles d)"
  shows "\<exists>created d'. CreateProfileOnRegistration_handle z newId now data d = (Inr created, d')
    \<and> count_where (\<lambda>r. up_userId r = payload_string e ''userId'') (userProfiles d') = 1 \<and> profiles_inv d'
    \<and> (\<forall>newId' now'. CreateProfileOnRegistration_handle z newId' now' data d' = (Inr False, d'))"
proof -
  let ?u = "payload_string e ''userId''"
  have again: "CreateProfileOnRegistration_handle z i t data d1 = (Inr False, d1)" if "?u \<in> up_userId ` set (userProfiles d1)" for i t d1
  proof -
    have "find (\<lambda>r. up_userId r = ?u) (userProfiles d1) \<noteq> None" using that by (auto simp: find_None_iff)
    then show ?thesis using event by (auto simp: CreateProfileOnRegistration_handle_def EnsureUserProfile_execute_def findByUserId_def)
  qed
  have once: "count_where (\<lambda>r. up_userId r = ?u) (userProfiles d1) = 1" if i: "profiles_inv d1" and m: "?u \<in> up_userId ` set (userProfiles d1)" for d1
  proof -
    obtain r where "r \<in> set (userProfiles d1)" "up_userId r = ?u" using m by auto
    then show ?thesis using i count_where_unique [of up_userId "userProfiles d1" r] by (auto simp: profiles_inv_def)
  qed
  show ?thesis
  proof (cases "?u \<in> up_userId ` set (userProfiles d)")
    case True
    then show ?thesis using again once [OF inv] inv by blast
  next
    case False
    then have none: "findByUserId ?u d = None" by (auto simp: findByUserId_def find_None_iff image_iff)
    let ?n = "defaultDisplayName (payload_string e ''email'')"
    let ?p = "\<lparr>profile_row = \<lparr>up_id = newId, up_userId = ?u, up_displayName = ?n, up_avatarFileId = None,
          up_createdAt = now, up_updatedAt = now\<rparr>, profile_events = [UserProfileCreated newId ?u]\<rparr>"
    let ?d = "d\<lparr>userProfiles := userProfiles d @ [profile_row ?p]\<rparr>"
    have "UserProfile_create newId now ?u ?n = Inr ?p"
      using DisplayName_of_ok [OF defaultDisplayName_valid [OF email]] by (simp add: UserProfile_create_def)
    moreover have "save_profile ?p d = (Inr (), ?d)"
      using False account fresh by (simp add: save_profile_def insert_unique_def require_reference_def)
    ultimately have ens: "EnsureUserProfile_execute newId now ?u (payload_string e ''email'') None d = (Inr True, ?d)"
      using none by (simp add: EnsureUserProfile_execute_def)
    then have run: "CreateProfileOnRegistration_handle z newId now data d = (Inr True, ?d)"
      using event by (simp add: CreateProfileOnRegistration_handle_def)
    have "profiles_inv ?d" by (rule Ensure_inv [OF inv ens])
    moreover have "?u \<in> up_userId ` set (userProfiles ?d)" by simp
    ultimately show ?thesis using run once again by blast
  qed
qed

text \<open>
  Every registration gets a profile, once. For an account whose address has neither blanks nor
  control characters, which is what the address check of the contract promises, handling its
  registered event succeeds and leaves exactly one profile for the account, with a valid name; and
  handling the event again, as often as it is redelivered, changes nothing.\<close>

theorem registration_creates_one_profile:
  assumes event: "parseIntegrationEvent z USER_REGISTERED data = Some e"
    and email: "\<forall>c \<in> set (payload_string e ''email''). \<not> is_js_space c \<and> 32 \<le> code_unit c \<and> code_unit c \<noteq> 127"
    and inv: "profiles_inv d" and account: "payload_string e ''userId'' \<in> au_id ` set (users d)"
    and fresh: "newId \<notin> up_id ` set (userProfiles d)"
  shows "\<exists>created d'. CreateProfileOnRegistration_handle z newId now data d = (Inr created, d')
    \<and> count_where (\<lambda>r. up_userId r = payload_string e ''userId'') (userProfiles d') = 1 \<and> profiles_inv d'
    \<and> (\<forall>newId' now'. CreateProfileOnRegistration_handle z newId' now' data d' = (Inr False, d'))"
  by (rule registration_profile [OF assms])

theorem registration_creates_one_profile_witness:
  "\<exists>created d'. CreateProfileOnRegistration_handle any_zod ''q'' 9
     (event_to_js (createIntegrationEvent ''e'' 0 USER_REGISTERED
        (JsObj [(''userId'', JsStr ''u''), (''email'', JsStr ''ann@x.io''), (''emailVerified'', JsBool True), (''registeredAt'', JsStr ''t'')]) None))
     (sample_profile_db\<lparr>userProfiles := []\<rparr>) = (Inr created, d')
     \<and> count_where (\<lambda>r. up_userId r = ''u'') (userProfiles d') = 1"
proof -
  define e where "e = createIntegrationEvent ''e'' 0 USER_REGISTERED
    (JsObj [(''userId'', JsStr ''u''), (''email'', JsStr ''ann@x.io''), (''emailVerified'', JsBool True), (''registeredAt'', JsStr ''t'')]) None"
  have "valid_event any_zod e" unfolding e_def
    by (rule createIntegrationEvent_valid) (simp_all add: any_zod_def userRegisteredPayloadSchema_def z_object_def is_bool_def)
  then have parsed: "parseIntegrationEvent any_zod USER_REGISTERED (event_to_js e) = Some e"
    by (rule parse_own_event) (simp add: e_def createIntegrationEvent_def)
  have u: "payload_string e ''userId'' = ''u''" "payload_string e ''email'' = ''ann@x.io''"
    by (simp_all add: e_def createIntegrationEvent_def payload_string_def field_def str_of_def)
  show ?thesis
    using registration_creates_one_profile [OF parsed, of "sample_profile_db\<lparr>userProfiles := []\<rparr>" "''q''" 9]
    unfolding u e_def [symmetric]
    by (auto simp: is_js_space_def profiles_inv_def unique_on_def sample_profile_db_def)
qed

end
