(* ===== verification/Audit_Log.thy ===== *)
theory Audit_Log
  imports Outbox Pagination "HOL-Library.Multiset"
begin

text \<open>
  The audit log (\<open>src/src/modules/audit-log\<close>): every integration event becomes one entry, keyed by
  the event's id; entries are listed per tenant with keyset cursors and deleted past their retention.
\<close>

section \<open>Entries\<close>

record create_audit_entry_input =
  ca_action :: string
  ca_resource :: string
  ca_actorId :: "uuid option"
  ca_organizationId :: "uuid option"
  ca_resourceId :: "uuid option"
  ca_requestId :: "uuid option"
  ca_metadata :: "js option"
  ca_occurredAt :: "date option"
  ca_id :: "uuid option"

definition createAuditEntry :: "uuid \<Rightarrow> date \<Rightarrow> create_audit_entry_input \<Rightarrow> audit_entry" where
  "createAuditEntry newId now i =
     \<lparr>al_id = (case ca_id i of Some x \<Rightarrow> x | None \<Rightarrow> newId),
      al_occurredAt = (case ca_occurredAt i of Some t \<Rightarrow> t | None \<Rightarrow> now),
      al_actorId = ca_actorId i, al_organizationId = ca_organizationId i, al_action = ca_action i,
      al_resource = ca_resource i, al_resourceId = ca_resourceId i, al_requestId = ca_requestId i,
      al_metadata = (case ca_metadata i of Some m \<Rightarrow> m | None \<Rightarrow> JsObj [])\<rparr>"

text \<open>
  \<open>JSON.parse(JSON.stringify(value))\<close>: a value that JSON cannot carry is dropped from an object and
  becomes \<open>null\<close> in an array; a big integer is refused.
\<close>

fun json_clone :: "js \<Rightarrow> failure + js option" and
    json_clone_items :: "js list \<Rightarrow> failure + js list" and
    json_clone_entries :: "(string \<times> js) list \<Rightarrow> failure + (string \<times> js) list"
where
  "json_clone (JsArr vs) = (case json_clone_items vs of Inl e \<Rightarrow> Inl e | Inr ws \<Rightarrow> Inr (Some (JsArr ws)))"
| "json_clone (JsObj kvs) = (case json_clone_entries kvs of Inl e \<Rightarrow> Inl e | Inr ws \<Rightarrow> Inr (Some (JsObj ws)))"
| "json_clone (JsOther t) =
     (if t = ''bigint'' then Inl (PlainError ''Do not know how to serialize a BigInt'') else Inr None)"
| "json_clone v = Inr (Some v)"
| "json_clone_items [] = Inr []"
| "json_clone_items (v # vs) =
     (case json_clone v of
        Inl e \<Rightarrow> Inl e
      | Inr w \<Rightarrow>
          (case json_clone_items vs of
             Inl e \<Rightarrow> Inl e
           | Inr ws \<Rightarrow> Inr ((case w of None \<Rightarrow> JsNull | Some x \<Rightarrow> x) # ws)))"
| "json_clone_entries [] = Inr []"
| "json_clone_entries ((k, v) # kvs) =
     (case json_clone v of
        Inl e \<Rightarrow> Inl e
      | Inr w \<Rightarrow>
          (case json_clone_entries kvs of
             Inl e \<Rightarrow> Inl e
           | Inr ws \<Rightarrow> Inr ((case w of None \<Rightarrow> [] | Some x \<Rightarrow> [(k, x)]) @ ws)))"

section \<open>The repository\<close>

definition recordIfAbsent :: "audit_entry \<Rightarrow> audit_entry list \<Rightarrow> (failure + bool) \<times> audit_entry list" where
  "recordIfAbsent e rows =
     (case json_clone (al_metadata e) of
        Inl err \<Rightarrow> (Inl err, rows)
      | Inr m \<Rightarrow>
          (let (rows', n) = insert_skip al_id (e\<lparr>al_metadata := (case m of Some v \<Rightarrow> v | None \<Rightarrow> JsNull)\<rparr>) rows
           in (Inr (0 < n), rows')))"

record audit_entry_filter =
  af_organizationId :: "uuid option"
  af_actorId :: "uuid option"
  af_resource :: "string option"

definition matches_filter :: "audit_entry_filter \<Rightarrow> audit_entry \<Rightarrow> bool" where
  "matches_filter f e \<longleftrightarrow>
     (case af_organizationId f of None \<Rightarrow> True | Some g \<Rightarrow> al_organizationId e = Some g)
     \<and> (case af_actorId f of None \<Rightarrow> True | Some a \<Rightarrow> al_actorId e = Some a)
     \<and> (case af_resource f of None \<Rightarrow> True | Some r \<Rightarrow> al_resource e = r)"

definition audit_key :: "audit_entry \<Rightarrow> date \<times> uuid" where
  "audit_key e = (al_occurredAt e, al_id e)"

definition toMetadata :: "js \<Rightarrow> js" where
  "toMetadata v = (case v of JsObj kvs \<Rightarrow> JsObj kvs | _ \<Rightarrow> JsObj [])"

definition listPage_audit ::
  "decoded_cursor option \<Rightarrow> nat \<Rightarrow> audit_entry_filter \<Rightarrow> audit_entry list \<Rightarrow> audit_entry list"
where
  "listPage_audit cursor limit f rows =
     map (\<lambda>e. e\<lparr>al_metadata := toMetadata (al_metadata e)\<rparr>)
       (keyset_query audit_key (matches_filter f) cursor limit rows)"

definition deleteOlderThan :: "date \<Rightarrow> nat \<Rightarrow> audit_entry list \<Rightarrow> audit_entry list \<times> nat" where
  "deleteOlderThan cutoff limit rows = delete_oldest al_id (\<lambda>e. al_occurredAt e < cutoff) al_occurredAt limit rows"

section \<open>Use cases\<close>

definition RecordAuditEntry_execute ::
  "uuid \<Rightarrow> date \<Rightarrow> create_audit_entry_input \<Rightarrow> audit_entry list \<Rightarrow> (failure + bool) \<times> audit_entry list"
where
  "RecordAuditEntry_execute newId now i rows = recordIfAbsent (createAuditEntry newId now i) rows"

record audit_entry_view =
  av_id :: uuid
  av_occurredAt :: string
  av_actorId :: "uuid option"
  av_organizationId :: "uuid option"
  av_action :: string
  av_resource :: string
  av_resourceId :: "uuid option"
  av_metadata :: js

definition toAuditView :: "audit_entry \<Rightarrow> audit_entry_view" where
  "toAuditView e =
     \<lparr>av_id = al_id e, av_occurredAt = toISOString (al_occurredAt e), av_actorId = al_actorId e,
      av_organizationId = al_organizationId e, av_action = al_action e, av_resource = al_resource e,
      av_resourceId = al_resourceId e, av_metadata = al_metadata e\<rparr>"

definition MAX_PAGE_SIZE_audit :: nat where "MAX_PAGE_SIZE_audit = 100"

definition DEFAULT_PAGE_SIZE_audit :: nat where "DEFAULT_PAGE_SIZE_audit = 20"

definition ListAuditEntries_execute ::
  "(uuid \<Rightarrow> bool) \<Rightarrow> (string \<Rightarrow> nat list) \<Rightarrow> string option \<Rightarrow> nat option \<Rightarrow> audit_entry_filter \<Rightarrow> audit_entry list
     \<Rightarrow> failure + audit_entry_view listing"
where
  "ListAuditEntries_execute isUuidV7 lenient startingAfter limit f rows =
     (let n = min (case limit of Some l \<Rightarrow> l | None \<Rightarrow> DEFAULT_PAGE_SIZE_audit) MAX_PAGE_SIZE_audit in
      case decodeOptionalCursor isUuidV7 lenient startingAfter of
        Inl e \<Rightarrow> Inl e
      | Inr cursor \<Rightarrow>
          (let (page, hasMore) = page_of n (listPage_audit cursor (n + 1) f rows)
           in Inr (map toAuditView page, hasMore,
                   if page = [] then None
                   else Some (encodeCursor (al_occurredAt (last page)) (al_id (last page))))))"

definition AUDIT_PRUNE_BATCH_SIZE :: nat where "AUDIT_PRUNE_BATCH_SIZE = 5000"

definition AUDIT_MAX_PASSES :: nat where "AUDIT_MAX_PASSES = 20"

definition PruneAuditEntries_execute :: "nat \<Rightarrow> date \<Rightarrow> audit_entry list \<Rightarrow> audit_entry list \<times> nat" where
  "PruneAuditEntries_execute retentionDays now rows =
     prune_loop AUDIT_MAX_PASSES AUDIT_PRUNE_BATCH_SIZE (deleteOlderThan (now - int retentionDays * 86400000)) rows"

section \<open>Listeners\<close>

definition readString :: "js \<Rightarrow> string \<Rightarrow> string option" where
  "readString v k =
     (case v of
        JsObj kvs \<Rightarrow> (case map_of kvs k of Some (JsStr s) \<Rightarrow> Some s | _ \<Rightarrow> None)
      | _ \<Rightarrow> None)"

definition or_else :: "'a option \<Rightarrow> 'a option \<Rightarrow> 'a option" where
  "or_else a b = (case a of None \<Rightarrow> b | Some x \<Rightarrow> Some x)"

definition audit_input :: "integration_event \<Rightarrow> create_audit_entry_input" where
  "audit_input e =
     (let payload = ie_payload e in
      \<lparr>ca_action = ie_name e, ca_resource = hd (split_on (\<lambda>c. c = CHR ''.'') (ie_name e)),
       ca_actorId = or_else (readString payload ''actorId'') (readString payload ''userId''),
       ca_organizationId = readString payload ''organizationId'',
       ca_resourceId = or_else (readString payload ''fileId'')
                         (or_else (readString payload ''userId'') (readString payload ''organizationId'')),
       ca_requestId = ie_correlationId e,
       ca_metadata = Some (JsObj [(''schemaVersion'', JsNum (of_int (ie_schemaVersion e)))]),
       ca_occurredAt = Some (case date_parse (ie_occurredAt e) of Some t \<Rightarrow> t | None \<Rightarrow> 0),
       ca_id = Some (ie_eventId e)\<rparr>)"

definition RecordIntegrationEvent_handle ::
  "zod \<Rightarrow> uuid \<Rightarrow> date \<Rightarrow> js \<Rightarrow> audit_entry list \<Rightarrow> (failure + bool) \<times> audit_entry list"
where
  "RecordIntegrationEvent_handle z newId now data rows =
     (case parseAnyIntegrationEvent z data of
        None \<Rightarrow>
          (Inl (validation AUDIT_ENTRY_INVALID ''Integration event envelope did not match the published contract.''), rows)
      | Some e \<Rightarrow> RecordAuditEntry_execute newId now (audit_input e) rows)"

definition PruneAuditLog_handle :: "nat \<Rightarrow> date \<Rightarrow> audit_entry list \<Rightarrow> audit_entry list \<times> nat" where
  "PruneAuditLog_handle retentionDays now rows = PruneAuditEntries_execute retentionDays now rows"

section \<open>Recording\<close>

text \<open>The entry of an event.\<close>

definition entry_of :: "integration_event \<Rightarrow> audit_entry" where
  "entry_of e = createAuditEntry [] 0 (audit_input e)"

lemma entry_of_created: "createAuditEntry newId now (audit_input e) = entry_of e"
  by (simp add: entry_of_def createAuditEntry_def audit_input_def Let_def)

lemma entry_of_fields [simp]:
  "al_id (entry_of e) = ie_eventId e" "al_action (entry_of e) = ie_name e" "al_requestId (entry_of e) = ie_correlationId e"
  "al_organizationId (entry_of e) = readString (ie_payload e) ''organizationId''"
  by (simp_all add: entry_of_def createAuditEntry_def audit_input_def Let_def)

lemma entry_of_clone: "json_clone (al_metadata (entry_of e)) = Inr (Some (al_metadata (entry_of e)))"
  by (simp add: entry_of_def createAuditEntry_def audit_input_def Let_def)

lemma recordIfAbsent_entry:
  "recordIfAbsent (entry_of e) rows =
     (if ie_eventId e \<in> al_id ` set rows then (Inr False, rows) else (Inr True, rows @ [entry_of e]))"
  by (simp add: recordIfAbsent_def entry_of_clone insert_skip_def)

lemma handle_event:
  assumes "parseAnyIntegrationEvent z data = Some e"
  shows "RecordIntegrationEvent_handle z newId now data rows =
    (if ie_eventId e \<in> al_id ` set rows then (Inr False, rows) else (Inr True, rows @ [entry_of e]))"
  using assms by (simp add: RecordIntegrationEvent_handle_def RecordAuditEntry_execute_def entry_of_created recordIfAbsent_entry)

section \<open>Contracts\<close>

interpretation audit_prune: batch_delete "deleteOlderThan cutoff" "count_where (\<lambda>e. al_occurredAt e < cutoff)"
    "filter (\<lambda>e. \<not> al_occurredAt e < cutoff)" "unique_on al_id" for cutoff
  by unfold_locales (simp_all add: deleteOlderThan_def delete_oldest_contract)

definition shown :: "audit_entry \<Rightarrow> audit_entry" where
  "shown e = e\<lparr>al_metadata := toMetadata (al_metadata e)\<rparr>"

lemma shown_key [simp]: "audit_key (shown e) = audit_key e"
  by (simp add: audit_key_def shown_def)

lemma page_of_map: "page_of n (map f xs) = map_prod (map f) id (page_of n xs)"
  by (simp add: page_of_def take_map)

lemma list_audit_page:
  assumes "decodeOptionalCursor v lenient raw = Inr cursor"
  shows "ListAuditEntries_execute v lenient raw (Some n) f rows
    = Inr (listing_of audit_key (toAuditView \<circ> shown)
        (page_of (min n MAX_PAGE_SIZE_audit) (keyset_query audit_key (matches_filter f) cursor (min n MAX_PAGE_SIZE_audit + 1) rows)))"
proof -
  obtain page more where p: "page_of (min n MAX_PAGE_SIZE_audit)
      (keyset_query audit_key (matches_filter f) cursor (min n MAX_PAGE_SIZE_audit + 1) rows) = (page, more)" by fastforce
  have "page_of (min n MAX_PAGE_SIZE_audit) (listPage_audit cursor (min n MAX_PAGE_SIZE_audit + 1) f rows) = (map shown page, more)"
    using p by (simp add: listPage_audit_def page_of_map shown_def)
  then show ?thesis using assms p
    by (cases "page = []") (simp_all add: ListAuditEntries_execute_def listing_of_def last_map shown_def audit_key_def)
qed

interpretation audit_list: cursor_list
  "\<lambda>cursor n. keyset_query audit_key (matches_filter f) cursor n rows" audit_key "filter (matches_filter f) rows"
  "\<lambda>raw. ListAuditEntries_execute isUuidV7 lenient raw (Some n) f rows" "toAuditView \<circ> shown" isUuidV7 lenient "min n MAX_PAGE_SIZE_audit"
  for f rows isUuidV7 lenient n
  by unfold_locales (rule keyset_query_filter, rule list_audit_page)

section \<open>Properties\<close>

text \<open>
  C37: The audit trail of one tenant is complete and private. Following the cursors from the first page
  lists, newest first and each once, exactly the entries of the requested organization (and of the
  requested actor and resource when given), and no entry of any other organization.\<close>

theorem audit_trail_complete:
  assumes "unique_on al_id rows" and "\<forall>e \<in> set rows. cursor_safe isUuidV7 (audit_key e)"
    and "0 < n" and "count_where (matches_filter f) rows \<le> pages * min n MAX_PAGE_SIZE_audit" and "0 < pages"
    and "af_organizationId f = Some org"
  shows "\<exists>es. walk_listing pages (\<lambda>raw. ListAuditEntries_execute isUuidV7 lenient raw (Some n) f rows) None
       = Inr (map (toAuditView \<circ> shown) es)
     \<and> mset es = mset (filter (matches_filter f) rows) \<and> sorted_wrt (\<lambda>a b. audit_key b < audit_key a) es
     \<and> (\<forall>e \<in> set es. al_organizationId e = Some org)"
proof -
  have "distinct (map audit_key rows)"
    using assms(1) by (auto simp: unique_on_def audit_key_def distinct_map inj_on_def)
  then have u: "unique_on audit_key (filter (matches_filter f) rows)"
    by (simp add: unique_on_def distinct_map_filter)
  let ?es = "newest audit_key (filter (matches_filter f) rows)"
  have "walk_listing pages (\<lambda>raw. ListAuditEntries_execute isUuidV7 lenient raw (Some n) f rows) None
      = Inr (map (toAuditView \<circ> shown) ?es)"
    by (rule audit_list.walk_listing_complete [OF u])
       (use assms in \<open>auto simp: count_where_def MAX_PAGE_SIZE_audit_def\<close>)
  moreover have "mset ?es = mset (filter (matches_filter f) rows)" by (simp add: newest_def order_by_def)
  moreover have "sorted_wrt (\<lambda>a b. audit_key b < audit_key a) ?es" by (rule audit_list.newest_sorted [OF u])
  moreover have "\<forall>e \<in> set ?es. al_organizationId e = Some org"
    using assms(6) by (auto simp: newest_def matches_filter_def)
  ultimately show ?thesis by blast
qed

definition sample_entry :: "uuid \<Rightarrow> uuid \<Rightarrow> audit_entry" where
  "sample_entry i org =
     \<lparr>al_id = i, al_occurredAt = 5, al_actorId = None, al_organizationId = Some org, al_action = ''a'',
      al_resource = ''r'', al_resourceId = None, al_requestId = None, al_metadata = JsObj []\<rparr>"

theorem audit_trail_complete_witness:
  "\<exists>es. walk_listing 1 (\<lambda>raw. ListAuditEntries_execute (\<lambda>_. True) (\<lambda>_. []) raw (Some 5)
        \<lparr>af_organizationId = Some ''g'', af_actorId = None, af_resource = None\<rparr> [sample_entry ''x'' ''g'', sample_entry ''y'' ''h'']) None
       = Inr (map (toAuditView \<circ> shown) es)
     \<and> mset es = {#sample_entry ''x'' ''g''#}"
proof -
  let ?f = "\<lparr>af_organizationId = Some ''g'', af_actorId = None, af_resource = None\<rparr>"
  let ?rows = "[sample_entry ''x'' ''g'', sample_entry ''y'' ''h'']"
  have fil: "filter (matches_filter ?f) ?rows = [sample_entry ''x'' ''g'']" by (simp add: matches_filter_def sample_entry_def)
  have u: "unique_on al_id ?rows" by (simp add: unique_on_def sample_entry_def)
  have safe: "\<forall>e \<in> set ?rows. cursor_safe (\<lambda>_. True) (audit_key e)"
    by (simp add: cursor_safe_def audit_key_def sample_entry_def valid_date_def ascii_def)
  have cnt: "count_where (matches_filter ?f) ?rows \<le> 1 * min 5 MAX_PAGE_SIZE_audit"
    unfolding count_where_def fil by (simp add: MAX_PAGE_SIZE_audit_def)
  from audit_trail_complete [OF u safe _ cnt, of "''g''" "\<lambda>_. []"] show ?thesis unfolding fil by auto
qed

text \<open>A worker that handles a list of jobs; a job that breaks the contract fails and writes nothing.\<close>

fun deliver_all :: "zod \<Rightarrow> js list \<Rightarrow> audit_entry list \<Rightarrow> audit_entry list" where
  "deliver_all z [] rows = rows"
| "deliver_all z (data # jobs) rows = deliver_all z jobs (snd (RecordIntegrationEvent_handle z [] 0 data rows))"

lemma handle_cases:
  "snd (RecordIntegrationEvent_handle z newId now data rows) =
     (case parseAnyIntegrationEvent z data of
        None \<Rightarrow> rows
      | Some e \<Rightarrow> if ie_eventId e \<in> al_id ` set rows then rows else rows @ [entry_of e])"
  by (cases "parseAnyIntegrationEvent z data")
     (simp_all add: handle_event, simp add: RecordIntegrationEvent_handle_def)

text \<open>
  C38: Every event is recorded exactly once. Whatever the order and number of deliveries of any list of
  jobs, the log keeps every entry it had, unchanged and in place, gains only entries of delivered
  events, ends with no two entries of one id, and has an entry for every delivered event that meets
  the contract.\<close>

theorem audit_exactly_once:
  assumes "unique_on al_id rows"
  shows "\<exists>new. deliver_all z jobs rows = rows @ new \<and> unique_on al_id (rows @ new)
    \<and> (\<forall>x \<in> set new. \<exists>data \<in> set jobs. \<exists>e. parseAnyIntegrationEvent z data = Some e \<and> x = entry_of e)
    \<and> (\<forall>data \<in> set jobs. \<forall>e. parseAnyIntegrationEvent z data = Some e \<longrightarrow> ie_eventId e \<in> al_id ` set (rows @ new))"
  using assms
proof (induction jobs arbitrary: rows)
  case (Cons data jobs)
  define rows1 where "rows1 = snd (RecordIntegrationEvent_handle z [] 0 data rows)"
  obtain add where add: "rows1 = rows @ add" "unique_on al_id rows1"
      "\<forall>x \<in> set add. \<exists>e. parseAnyIntegrationEvent z data = Some e \<and> x = entry_of e"
      "\<forall>e. parseAnyIntegrationEvent z data = Some e \<longrightarrow> ie_eventId e \<in> al_id ` set rows1"
  proof (cases "parseAnyIntegrationEvent z data")
    case None
    then show ?thesis using that [of "[]"] Cons.prems by (simp add: rows1_def handle_cases)
  next
    case (Some e)
    then show ?thesis using that [of "if ie_eventId e \<in> al_id ` set rows then [] else [entry_of e]"] Cons.prems
      by (auto simp: rows1_def handle_cases unique_on_append)
  qed
  from Cons.IH [OF add(2)] obtain new where new: "deliver_all z jobs rows1 = rows1 @ new" "unique_on al_id (rows1 @ new)"
      "\<forall>x \<in> set new. \<exists>data \<in> set jobs. \<exists>e. parseAnyIntegrationEvent z data = Some e \<and> x = entry_of e"
      "\<forall>data \<in> set jobs. \<forall>e. parseAnyIntegrationEvent z data = Some e \<longrightarrow> ie_eventId e \<in> al_id ` set (rows1 @ new)" by blast
  show ?case
  proof (intro exI [of _ "add @ new"] conjI)
    show "deliver_all z (data # jobs) rows = rows @ add @ new" using new(1) add(1) by (simp add: rows1_def)
    show "unique_on al_id (rows @ add @ new)" using new(2) add(1) by simp
    show "\<forall>x \<in> set (add @ new). \<exists>data \<in> set (data # jobs). \<exists>e. parseAnyIntegrationEvent z data = Some e \<and> x = entry_of e"
      using new(3) add(3) by fastforce
    show "\<forall>data \<in> set (data # jobs). \<forall>e. parseAnyIntegrationEvent z data = Some e \<longrightarrow> ie_eventId e \<in> al_id ` set (rows @ add @ new)"
      using new(4) add(1,4) by fastforce
  qed
qed simp

theorem audit_exactly_once_witness:
  "\<exists>new. deliver_all any_zod [event_to_js (sample_event ''e1'' None), event_to_js (sample_event ''e1'' None)] [] = new
     \<and> unique_on al_id new \<and> ''e1'' \<in> al_id ` set new"
proof -
  have p: "parseAnyIntegrationEvent any_zod (event_to_js (sample_event ''e1'' None)) = Some (sample_event ''e1'' None)"
    by (rule parse_event_to_js [OF sample_event_valid])
  have id: "ie_eventId (sample_event ''e1'' None) = ''e1''" by (simp add: sample_event_def createIntegrationEvent_def)
  have "unique_on al_id ([] :: audit_entry list)" by (simp add: unique_on_def)
  from audit_exactly_once [OF this, of any_zod "[event_to_js (sample_event ''e1'' None), event_to_js (sample_event ''e1'' None)]"]
  show ?thesis using p id by auto
qed

end
