(* ===== verification/Billing.thy ===== *)
theory Billing
  imports Outbox
begin

text \<open>
  The billing module (\<open>src/src/modules/billing\<close>): the signed webhook endpoint, the inbox with its
  leases, the worker that applies an event, the retention of the inbox, and the entitlement service
  with its bounded per-process cache.

  The keyed digest, \<open>JSON.parse\<close> and the provider's applier are parameters, and so is the broker.
  Every statement of the inbox repository is one definition on the table of inbox rows.
\<close>

section \<open>The signature\<close>

definition hex_digit :: "char \<Rightarrow> nat option" where
  "hex_digit c =
     (let n = code_unit c in
      if 48 \<le> n \<and> n \<le> 57 then Some (n - 48)
      else if 97 \<le> n \<and> n \<le> 102 then Some (n - 87)
      else if 65 \<le> n \<and> n \<le> 70 then Some (n - 55)
      else None)"

fun decode_hex :: "string \<Rightarrow> nat list" where
  "decode_hex (a # b # cs) = (16 * the (hex_digit a) + the (hex_digit b)) # decode_hex cs"
| "decode_hex _ = []"

definition decodeSignature :: "string \<Rightarrow> nat list option" where
  "decodeSignature signature =
     (let trimmed = trim signature in
      if trimmed = [] \<or> \<not> list_all (\<lambda>c. hex_digit c \<noteq> None) trimmed \<or> odd (length trimmed) then None
      else Some (decode_hex trimmed))"

definition rejected :: failure where
  "rejected = forbidden FORBIDDEN ''The webhook signature is not valid.''"

definition parseJsonObject :: "(string \<Rightarrow> js option) \<Rightarrow> string \<Rightarrow> failure + js" where
  "parseJsonObject json payload =
     (case json payload of Some (JsObj kvs) \<Rightarrow> Inr (JsObj kvs) | _ \<Rightarrow> Inl rejected)"

text \<open>\<open>HmacBillingWebhookVerifier.verify\<close> with the digest of the payload under the shared secret.\<close>

definition verify_webhook ::
  "(string \<Rightarrow> nat list \<Rightarrow> nat list) \<Rightarrow> (string \<Rightarrow> js option) \<Rightarrow> string \<Rightarrow> string \<Rightarrow> string \<Rightarrow> failure + js"
where
  "verify_webhook hmac json secret payload signature =
     (let expected = hmac secret (utf8 payload) in
      case decodeSignature signature of
        None \<Rightarrow> Inl rejected
      | Some provided \<Rightarrow>
          if length provided \<noteq> length expected then Inl rejected
          else if provided \<noteq> expected then Inl rejected
          else parseJsonObject json payload)"

section \<open>The inbox table\<close>

fun webhook_toJsonMember :: "js \<Rightarrow> failure + js" and
    webhook_toJsonMembers :: "js list \<Rightarrow> failure + js list" and
    webhook_toJsonEntries :: "(string \<times> js) list \<Rightarrow> failure + (string \<times> js) list"
where
  "webhook_toJsonMember (JsArr vs) = (case webhook_toJsonMembers vs of Inl e \<Rightarrow> Inl e | Inr ws \<Rightarrow> Inr (JsArr ws))"
| "webhook_toJsonMember (JsObj kvs) = (case webhook_toJsonEntries kvs of Inl e \<Rightarrow> Inl e | Inr ws \<Rightarrow> Inr (JsObj ws))"
| "webhook_toJsonMember (JsOther t) =
     Inl (PlainError (''Cannot serialize webhook payload value of type '' @ t @ ''.''))"
| "webhook_toJsonMember v = Inr v"
| "webhook_toJsonMembers [] = Inr []"
| "webhook_toJsonMembers (v # vs) =
     (case webhook_toJsonMember v of
        Inl e \<Rightarrow> Inl e
      | Inr w \<Rightarrow> (case webhook_toJsonMembers vs of Inl e \<Rightarrow> Inl e | Inr ws \<Rightarrow> Inr (w # ws)))"
| "webhook_toJsonEntries [] = Inr []"
| "webhook_toJsonEntries ((k, v) # kvs) =
     (case webhook_toJsonMember v of
        Inl e \<Rightarrow> Inl e
      | Inr w \<Rightarrow> (case webhook_toJsonEntries kvs of Inl e \<Rightarrow> Inl e | Inr ws \<Rightarrow> Inr ((k, w) # ws)))"

type_synonym inbox = "webhook_inbox_event list"

definition inbox_key :: "webhook_inbox_event \<Rightarrow> string \<times> string" where
  "inbox_key r = (wi_provider r, wi_providerEventId r)"

definition PROCESSING_LEASE_MS :: int where
  "PROCESSING_LEASE_MS = 10 * 60 * 1000"

text \<open>\<open>createMany\<close> with \<open>skipDuplicates\<close>: nothing is inserted when any unique key is taken.\<close>

definition insert_webhook ::
  "uuid \<Rightarrow> uuid \<Rightarrow> date \<Rightarrow> string \<times> string \<Rightarrow> js \<Rightarrow> inbox \<Rightarrow> nat \<times> inbox"
where
  "insert_webhook rowId token now k payload rows =
     (if k \<in> inbox_key ` set rows \<or> rowId \<in> wi_id ` set rows then (0, rows)
      else (1, rows @ [\<lparr>wi_id = rowId, wi_provider = fst k, wi_providerEventId = snd k, wi_payload = payload,
                        wi_receivedAt = now, wi_processingAt = Some now, wi_processingToken = Some token,
                        wi_processedAt = None, wi_failedAt = None, wi_lastError = None\<rparr>]))"

definition reclaimable :: "date \<Rightarrow> webhook_inbox_event \<Rightarrow> bool" where
  "reclaimable now r \<longleftrightarrow>
     wi_processedAt r = None
     \<and> (wi_failedAt r \<noteq> None
        \<or> (case wi_processingAt r of None \<Rightarrow> False | Some t \<Rightarrow> t < now - PROCESSING_LEASE_MS))"

definition reclaim_webhook :: "uuid \<Rightarrow> date \<Rightarrow> string \<times> string \<Rightarrow> js \<Rightarrow> inbox \<Rightarrow> nat \<times> inbox" where
  "reclaim_webhook token now k payload rows =
     (count_where (\<lambda>r. inbox_key r = k \<and> reclaimable now r) rows,
      update_where (\<lambda>r. inbox_key r = k \<and> reclaimable now r)
        (\<lambda>r. r\<lparr>wi_receivedAt := now, wi_processingAt := Some now, wi_processingToken := Some token,
               wi_failedAt := None, wi_lastError := None, wi_payload := payload\<rparr>) rows)"

text \<open>\<open>claim\<close>: the insert, and when it inserted nothing, the update of a failed or abandoned row.\<close>

definition claim_webhook ::
  "uuid \<Rightarrow> uuid \<Rightarrow> date \<Rightarrow> string \<times> string \<Rightarrow> js \<Rightarrow> inbox \<Rightarrow> (failure + uuid option) \<times> inbox"
where
  "claim_webhook rowId token now k payload rows =
     (case webhook_toJsonMember payload of
        Inl e \<Rightarrow> (Inl e, rows)
      | Inr p \<Rightarrow>
          (let (created, rows1) = insert_webhook rowId token now k p rows in
           if created = 1 then (Inr (Some token), rows1)
           else (let (retried, rows2) = reclaim_webhook token now k p rows1
                 in (Inr (if retried = 1 then Some token else None), rows2))))"

definition holds_claim :: "string \<times> string \<Rightarrow> uuid \<Rightarrow> webhook_inbox_event \<Rightarrow> bool" where
  "holds_claim k token r \<longleftrightarrow> inbox_key r = k \<and> wi_processingToken r = Some token \<and> wi_processedAt r = None"

definition findClaimed :: "string \<times> string \<Rightarrow> uuid \<Rightarrow> inbox \<Rightarrow> js option" where
  "findClaimed k token rows =
     (case find (holds_claim k token) rows of
        None \<Rightarrow> None
      | Some r \<Rightarrow> (case wi_payload r of JsObj kvs \<Rightarrow> Some (JsObj kvs) | _ \<Rightarrow> None))"

definition markProcessed :: "date \<Rightarrow> string \<times> string \<Rightarrow> uuid \<Rightarrow> inbox \<Rightarrow> inbox" where
  "markProcessed now k token =
     update_where (holds_claim k token)
       (\<lambda>r. r\<lparr>wi_processingAt := None, wi_processingToken := None, wi_processedAt := Some now, wi_failedAt := None\<rparr>)"

definition markFailed :: "date \<Rightarrow> string \<times> string \<Rightarrow> uuid \<Rightarrow> string \<Rightarrow> inbox \<Rightarrow> inbox" where
  "markFailed now k token err =
     update_where (holds_claim k token)
       (\<lambda>r. r\<lparr>wi_processingAt := None, wi_processingToken := None, wi_failedAt := Some now,
              wi_lastError := Some (take 2000 err)\<rparr>)"

definition processed_before :: "date \<Rightarrow> webhook_inbox_event \<Rightarrow> bool" where
  "processed_before cutoff r = (case wi_processedAt r of None \<Rightarrow> False | Some t \<Rightarrow> t < cutoff)"

definition deleteProcessedBefore :: "date \<Rightarrow> nat \<Rightarrow> inbox \<Rightarrow> inbox \<times> nat" where
  "deleteProcessedBefore cutoff limit rows =
     delete_oldest wi_id (processed_before cutoff) (\<lambda>r. case wi_processedAt r of None \<Rightarrow> 0 | Some t \<Rightarrow> t) limit rows"

section \<open>The inbox service\<close>

datatype webhook_result = Accepted uuid | Duplicate

text \<open>\<open>receive\<close>, with the verifier when one is configured.\<close>

definition inbox_receive ::
  "(string \<Rightarrow> string \<Rightarrow> failure + js) option \<Rightarrow> uuid \<Rightarrow> uuid \<Rightarrow> date \<Rightarrow> string \<Rightarrow> string \<Rightarrow> string \<Rightarrow> string
     \<Rightarrow> inbox \<Rightarrow> (failure + webhook_result) \<times> inbox"
where
  "inbox_receive verifier rowId token now provider eventId rawPayload signature rows =
     (case verifier of
        None \<Rightarrow> (Inl (PlainError ''Billing webhook verifier is not configured.''), rows)
      | Some verify \<Rightarrow>
          (case verify rawPayload signature of
             Inl e \<Rightarrow> (Inl e, rows)
           | Inr payload \<Rightarrow>
               (case claim_webhook rowId token now (provider, eventId) payload rows of
                  (Inl e, rows') \<Rightarrow> (Inl e, rows')
                | (Inr None, rows') \<Rightarrow> (Inr Duplicate, rows')
                | (Inr (Some t), rows') \<Rightarrow> (Inr (Accepted t), rows'))))"

datatype apply_outcome = Processed | ClaimLost

definition applyClaimed ::
  "date \<Rightarrow> string \<times> string \<Rightarrow> uuid \<Rightarrow> (js \<Rightarrow> ('h, unit) action) \<Rightarrow> inbox \<times> 'h
     \<Rightarrow> (failure + apply_outcome) \<times> inbox \<times> 'h"
where
  "applyClaimed now k token handle s =
     (case findClaimed k token (fst s) of
        None \<Rightarrow> (Inr ClaimLost, s)
      | Some payload \<Rightarrow>
          (case handle payload (snd s) of
             (Inr _, h) \<Rightarrow> (Inr Processed, markProcessed now k token (fst s), h)
           | (Inl e, h) \<Rightarrow> (Inl e, markFailed now k token (describeError e) (fst s), h)))"

section \<open>Applying an event\<close>

definition length_between :: "nat \<Rightarrow> nat \<Rightarrow> string \<Rightarrow> bool" where
  "length_between lo hi s \<longleftrightarrow> lo \<le> length s \<and> length s \<le> hi"

definition webhookEventSchema :: "zod \<Rightarrow> schema" where
  "webhookEventSchema z =
     [(''type'', False, is_str (\<lambda>s. s \<in> {''subscription.updated'', ''subscription.canceled''})),
      (''organizationId'', False, is_str (z_uuid7 z)),
      (''planCode'', True, is_str (length_between 1 64)),
      (''status'', True, is_str (\<lambda>s. s \<in> {''trialing'', ''active'', ''past_due'', ''canceled'', ''paused''})),
      (''providerRef'', True, is_str (length_between 0 255)),
      (''currentPeriodEnd'', True, is_str (z_iso_datetime z))]"

definition ApplyWebhookEvent_execute ::
  "zod \<Rightarrow> (string \<Rightarrow> js \<Rightarrow> ('h, unit) action) option \<Rightarrow> string \<Rightarrow> js \<Rightarrow> ('h, unit) action"
where
  "ApplyWebhookEvent_execute z applier provider payload h =
     (case z_object (webhookEventSchema z) payload of
        None \<Rightarrow> (Inr (), h)
      | Some event \<Rightarrow>
          (case applier of None \<Rightarrow> (Inr (), h) | Some apply_event \<Rightarrow> apply_event provider event h))"

definition jobSchema :: "zod \<Rightarrow> schema" where
  "jobSchema z =
     [(''provider'', False, is_str (length_between 1 32)),
      (''providerEventId'', False, is_str (length_between 1 255)),
      (''claimToken'', False, is_str (z_uuid7 z))]"

definition ApplyBillingWebhook_handle ::
  "zod \<Rightarrow> (string \<Rightarrow> js \<Rightarrow> ('h, unit) action) option \<Rightarrow> date \<Rightarrow> js \<Rightarrow> inbox \<times> 'h
     \<Rightarrow> (failure + apply_outcome) \<times> inbox \<times> 'h"
where
  "ApplyBillingWebhook_handle z applier now data s =
     (case z_object (jobSchema z) data of
        Some (JsObj kvs) \<Rightarrow>
          (let provider = str_of (field kvs ''provider'') in
           applyClaimed now (provider, str_of (field kvs ''providerEventId''))
             (str_of (field kvs ''claimToken''))
             (\<lambda>payload. ApplyWebhookEvent_execute z applier provider payload) s)
      | _ \<Rightarrow> (Inl (validation VALIDATION_FAILED ''Billing webhook job payload did not match its schema.''), s))"

section \<open>The endpoint\<close>

definition dispatchClaimed :: "'b broker_add \<Rightarrow> string \<Rightarrow> string \<Rightarrow> uuid \<Rightarrow> ('b, unit) action" where
  "dispatchClaimed add provider eventId token b =
     (case send add (QUEUES BILLING_APPLY_WEBHOOK)
             (JsObj [(''provider'', JsStr provider), (''providerEventId'', JsStr eventId), (''claimToken'', JsStr token)])
             \<lparr>startAfterSeconds = None, singletonKey = Some (''billing-webhook:'' @ token), singletonSeconds = None\<rparr> b of
        (Inl e, b') \<Rightarrow> (Inl e, b')
      | (Inr _, b') \<Rightarrow> (Inr (), b'))"

definition PROVIDER_PATTERN :: "string \<Rightarrow> bool" where
  "PROVIDER_PATTERN s \<longleftrightarrow>
     length_between 1 32 s
     \<and> list_all (\<lambda>c. 97 \<le> code_unit c \<and> code_unit c \<le> 122 \<or> 48 \<le> code_unit c \<and> code_unit c \<le> 57 \<or> c = CHR ''-'') s"

definition BillingWebhook_receive ::
  "(string \<Rightarrow> string \<Rightarrow> failure + js) option \<Rightarrow> 'b broker_add \<Rightarrow> uuid \<Rightarrow> uuid \<Rightarrow> date
     \<Rightarrow> string \<Rightarrow> string option \<Rightarrow> string option \<Rightarrow> string option \<Rightarrow> (inbox \<times> 'b, unit) action"
where
  "BillingWebhook_receive verifier add rowId token now provider rawBody signature eventId s =
     (if verifier = None then (Inl (HttpFailure 503 ''Billing webhooks are not configured.''), s)
      else if \<not> PROVIDER_PATTERN provider
      then (Inl (validation VALIDATION_FAILED ''Unknown billing provider.''), s)
      else
        (case (signature, eventId) of
           (Some sig, Some eid) \<Rightarrow>
             if 255 < length eid
             then (Inl (validation VALIDATION_FAILED ''x-billing-signature and x-billing-event-id are both required.''), s)
             else
               (case rawBody of
                  None \<Rightarrow> (Inl (HttpFailure 503 ''The raw request body was not captured.''), s)
                | Some raw \<Rightarrow>
                    (case inbox_receive verifier rowId token now provider eid raw sig (fst s) of
                       (Inl e, rows) \<Rightarrow> (Inl e, (rows, snd s))
                     | (Inr Duplicate, rows) \<Rightarrow> (Inr (), (rows, snd s))
                     | (Inr (Accepted t), rows) \<Rightarrow>
                         (case dispatchClaimed add provider eid t (snd s) of
                            (Inl e, b) \<Rightarrow> (Inl e, (rows, b))
                          | (Inr _, b) \<Rightarrow> (Inr (), (rows, b)))))
         | _ \<Rightarrow> (Inl (validation VALIDATION_FAILED ''x-billing-signature and x-billing-event-id are both required.''), s)))"

definition verifierProviders ::
  "(string \<Rightarrow> nat list \<Rightarrow> nat list) \<Rightarrow> (string \<Rightarrow> js option) \<Rightarrow> string option \<Rightarrow> (string \<Rightarrow> string \<Rightarrow> failure + js) option"
where
  "verifierProviders hmac json secret =
     (case secret of
        None \<Rightarrow> None
      | Some s \<Rightarrow> if s = [] then None else Some (verify_webhook hmac json s))"

section \<open>Retention\<close>

definition INBOX_BATCH_SIZE :: nat where "INBOX_BATCH_SIZE = 5000"

definition INBOX_MAX_PASSES :: nat where "INBOX_MAX_PASSES = 20"

definition DEFAULT_BILLING_WEBHOOK_RETENTION_DAYS :: nat where
  "DEFAULT_BILLING_WEBHOOK_RETENTION_DAYS = 90"

definition PruneBillingWebhookInbox_execute :: "date \<Rightarrow> nat \<Rightarrow> inbox \<Rightarrow> inbox \<times> nat" where
  "PruneBillingWebhookInbox_execute now retentionDays rows =
     prune_loop INBOX_MAX_PASSES INBOX_BATCH_SIZE (deleteProcessedBefore (now - int retentionDays * 86400000)) rows"

definition PruneBillingWebhookInbox_handle :: "date \<Rightarrow> inbox \<Rightarrow> inbox \<times> nat" where
  "PruneBillingWebhookInbox_handle now rows =
     PruneBillingWebhookInbox_execute now DEFAULT_BILLING_WEBHOOK_RETENTION_DAYS rows"

section \<open>Entitlements\<close>

record entitlement_set =
  es_features :: "string list"
  es_limits :: "(string \<times> rat) list"

definition EMPTY_ENTITLEMENTS :: entitlement_set where
  "EMPTY_ENTITLEMENTS = \<lparr>es_features = [], es_limits = []\<rparr>"

fun all_strings :: "js list \<Rightarrow> string list option" where
  "all_strings [] = Some []"
| "all_strings (v # vs) = (case v of JsStr s \<Rightarrow> map_option ((#) s) (all_strings vs) | _ \<Rightarrow> None)"

fun all_limits :: "(string \<times> js) list \<Rightarrow> (string \<times> rat) list option" where
  "all_limits [] = Some []"
| "all_limits ((k, v) # kvs) =
     (case v of JsNum n \<Rightarrow> if 0 \<le> n then map_option ((#) (k, n)) (all_limits kvs) else None | _ \<Rightarrow> None)"

text \<open>\<open>entitlementSchema\<close>, with the two defaults, and what \<open>parseEntitlements\<close> falls back to.\<close>

definition entitlementSchema :: "js \<Rightarrow> entitlement_set option" where
  "entitlementSchema v =
     (case v of
        JsObj kvs \<Rightarrow>
          (case (case map_of kvs ''features'' of
                   None \<Rightarrow> Some [] | Some (JsArr vs) \<Rightarrow> all_strings vs | Some _ \<Rightarrow> None) of
             None \<Rightarrow> None
           | Some fs \<Rightarrow>
               (case (case map_of kvs ''limits'' of
                        None \<Rightarrow> Some [] | Some (JsObj ls) \<Rightarrow> all_limits ls | Some _ \<Rightarrow> None) of
                  None \<Rightarrow> None
                | Some ls \<Rightarrow> Some \<lparr>es_features = fs, es_limits = ls\<rparr>))
      | _ \<Rightarrow> None)"

definition parseEntitlements :: "js \<Rightarrow> entitlement_set" where
  "parseEntitlements v = (case entitlementSchema v of Some e \<Rightarrow> e | None \<Rightarrow> EMPTY_ENTITLEMENTS)"

record current_subscription =
  cs_organizationId :: uuid
  cs_planCode :: string
  cs_planName :: string
  cs_status :: subscription_status
  cs_provider :: string
  cs_currentPeriodEnd :: "date option"
  cs_entitlements :: entitlement_set

definition subscription_plan :: "subscription \<Rightarrow> db \<Rightarrow> plan option" where
  "subscription_plan s d = find (\<lambda>p. pl_id p = sub_planId s) (plans d)"

definition findCurrentSubscription :: "uuid \<Rightarrow> db \<Rightarrow> current_subscription option" where
  "findCurrentSubscription organizationId d =
     (case find (\<lambda>s. sub_organizationId s = organizationId \<and> sub_status s \<in> {Trialing, Active}
                     \<and> (case subscription_plan s d of None \<Rightarrow> False | Some p \<Rightarrow> pl_active p)) (subscriptions d) of
        None \<Rightarrow> None
      | Some s \<Rightarrow>
          (case subscription_plan s d of
             None \<Rightarrow> None
           | Some p \<Rightarrow>
               Some \<lparr>cs_organizationId = sub_organizationId s, cs_planCode = pl_code p, cs_planName = pl_name p,
                     cs_status = sub_status s, cs_provider = sub_provider s,
                     cs_currentPeriodEnd = sub_currentPeriodEnd s,
                     cs_entitlements = parseEntitlements (pl_entitlements p)\<rparr>))"

text \<open>The cache is a JavaScript \<open>Map\<close>: its entries in insertion order.\<close>

definition CACHE_TTL_MS :: int where "CACHE_TTL_MS = 30000"

definition MAX_CACHED_TENANTS :: nat where "MAX_CACHED_TENANTS = 10000"

record cache_entry =
  en_value :: entitlement_set
  en_freshUntilMs :: date

type_synonym entitlement_cache = "(uuid \<times> cache_entry) list"

definition map_set :: "'k \<Rightarrow> 'v \<Rightarrow> ('k \<times> 'v) list \<Rightarrow> ('k \<times> 'v) list" where
  "map_set k v kvs =
     (if k \<in> fst ` set kvs then map (\<lambda>(k', v'). if k' = k then (k', v) else (k', v')) kvs else kvs @ [(k, v)])"

definition remember :: "uuid \<Rightarrow> cache_entry \<Rightarrow> entitlement_cache \<Rightarrow> entitlement_cache" where
  "remember organizationId e cache =
     map_set organizationId e (if MAX_CACHED_TENANTS \<le> length cache then tl cache else cache)"

definition currentEntitlements :: "uuid \<Rightarrow> db \<Rightarrow> entitlement_set" where
  "currentEntitlements organizationId d =
     (case findCurrentSubscription organizationId d of Some s \<Rightarrow> cs_entitlements s | None \<Rightarrow> EMPTY_ENTITLEMENTS)"

definition getFor :: "date \<Rightarrow> uuid \<Rightarrow> db \<Rightarrow> entitlement_cache \<Rightarrow> entitlement_set \<times> entitlement_cache" where
  "getFor now organizationId d cache =
     (case map_of cache organizationId of
        Some e \<Rightarrow>
          if now < en_freshUntilMs e then (en_value e, cache)
          else (let v = currentEntitlements organizationId d
                in (v, remember organizationId \<lparr>en_value = v, en_freshUntilMs = now + CACHE_TTL_MS\<rparr> cache))
      | None \<Rightarrow>
          (let v = currentEntitlements organizationId d
           in (v, remember organizationId \<lparr>en_value = v, en_freshUntilMs = now + CACHE_TTL_MS\<rparr> cache)))"

definition hasFeature :: "date \<Rightarrow> uuid \<Rightarrow> string \<Rightarrow> db \<Rightarrow> entitlement_cache \<Rightarrow> bool \<times> entitlement_cache" where
  "hasFeature now organizationId feature d cache =
     (let (e, cache') = getFor now organizationId d cache in (feature \<in> set (es_features e), cache'))"

definition limitFor :: "date \<Rightarrow> uuid \<Rightarrow> string \<Rightarrow> db \<Rightarrow> entitlement_cache \<Rightarrow> rat option \<times> entitlement_cache" where
  "limitFor now organizationId metric d cache =
     (let (e, cache') = getFor now organizationId d cache in (map_of (es_limits e) metric, cache'))"

definition GetEntitlements_execute ::
  "date \<Rightarrow> uuid \<Rightarrow> db \<Rightarrow> entitlement_cache \<Rightarrow> (string list \<times> (string \<times> rat) list) \<times> entitlement_cache"
where
  "GetEntitlements_execute now organizationId d cache =
     (let (e, cache') = getFor now organizationId d cache in ((es_features e, es_limits e), cache'))"

section \<open>The inbox as a state machine\<close>

text \<open>
  What the columns of an inbox row encode, and the abstract inbox: a map from an event's key to its
  state. The two operations of the abstract inbox are claiming and settling.
\<close>

datatype inbox_state = Processing uuid date | ProcessedAt date | FailedAt date

definition row_state :: "webhook_inbox_event \<Rightarrow> inbox_state option" where
  "row_state r =
     (case (wi_processingToken r, wi_processingAt r, wi_processedAt r, wi_failedAt r) of
        (Some t, Some a, None, None) \<Rightarrow> Some (Processing t a)
      | (None, None, Some p, None) \<Rightarrow> Some (ProcessedAt p)
      | (None, None, None, Some f) \<Rightarrow> Some (FailedAt f)
      | _ \<Rightarrow> None)"

definition inbox_inv :: "inbox \<Rightarrow> bool" where
  "inbox_inv rows \<longleftrightarrow> unique_on inbox_key rows \<and> unique_on wi_id rows \<and> (\<forall>r \<in> set rows. row_state r \<noteq> None)"

definition abs_inbox :: "inbox \<Rightarrow> string \<times> string \<rightharpoonup> inbox_state" where
  "abs_inbox rows k = Option.bind (find (\<lambda>r. inbox_key r = k) rows) row_state"

definition spec_claim ::
  "uuid \<Rightarrow> date \<Rightarrow> string \<times> string \<Rightarrow> (string \<times> string \<rightharpoonup> inbox_state) \<Rightarrow> bool \<times> (string \<times> string \<rightharpoonup> inbox_state)"
where
  "spec_claim token now k m =
     (let free = (case m k of
                    None \<Rightarrow> True
                  | Some (Processing _ since) \<Rightarrow> since < now - PROCESSING_LEASE_MS
                  | Some (ProcessedAt _) \<Rightarrow> False
                  | Some (FailedAt _) \<Rightarrow> True)
      in (free, if free then m(k \<mapsto> Processing token now) else m))"

definition spec_settle ::
  "uuid \<Rightarrow> string \<times> string \<Rightarrow> inbox_state \<Rightarrow> (string \<times> string \<rightharpoonup> inbox_state) \<Rightarrow> (string \<times> string \<rightharpoonup> inbox_state)"
where
  "spec_settle token k st m =
     (case m k of
        Some (Processing t _) \<Rightarrow> if t = token then m(k \<mapsto> st) else m
      | _ \<Rightarrow> m)"

lemma find_key:
  assumes "unique_on inbox_key rows" and "r \<in> set rows"
  shows "find (\<lambda>x. inbox_key x = inbox_key r) rows = Some r"
  by (rule find_unique [OF assms])

lemma abs_inbox_row: "unique_on inbox_key rows \<Longrightarrow> r \<in> set rows \<Longrightarrow> abs_inbox rows (inbox_key r) = row_state r"
  by (simp add: abs_inbox_def find_key)

lemma abs_inbox_none: "k \<notin> inbox_key ` set rows \<Longrightarrow> abs_inbox rows k = None"
proof -
  assume "k \<notin> inbox_key ` set rows"
  then have "find (\<lambda>r. inbox_key r = k) rows = None" by (auto simp: find_None_iff)
  then show ?thesis by (simp add: abs_inbox_def)
qed

text \<open>A statement that updates the row of one key changes the abstract inbox at that key only.\<close>

lemma abs_inbox_update:
  assumes u: "unique_on inbox_key rows" and f: "\<And>r. inbox_key (f r) = inbox_key r"
  shows "abs_inbox (update_where (\<lambda>r. inbox_key r = k \<and> q r) f rows) =
    (case find (\<lambda>r. inbox_key r = k) rows of
       None \<Rightarrow> abs_inbox rows
     | Some r \<Rightarrow> if q r then (abs_inbox rows)(k := row_state (f r)) else abs_inbox rows)"
proof (rule ext)
  fix k'
  let ?g = "\<lambda>r. if inbox_key r = k \<and> q r then f r else r"
  have fk: "inbox_key (?g r) = inbox_key r" for r using f by simp
  have "find (\<lambda>r. inbox_key r = k') (map ?g rows) = map_option ?g (find (\<lambda>r. inbox_key r = k') rows)"
    by (induction rows) (simp_all add: fk)
  then have abs: "abs_inbox (update_where (\<lambda>r. inbox_key r = k \<and> q r) f rows) k'
      = Option.bind (map_option ?g (find (\<lambda>r. inbox_key r = k') rows)) row_state"
    by (simp add: abs_inbox_def update_where_def)
  show "abs_inbox (update_where (\<lambda>r. inbox_key r = k \<and> q r) f rows) k' =
    (case find (\<lambda>r. inbox_key r = k) rows of None \<Rightarrow> abs_inbox rows
     | Some r \<Rightarrow> if q r then (abs_inbox rows)(k := row_state (f r)) else abs_inbox rows) k'"
  proof (cases "find (\<lambda>r. inbox_key r = k') rows")
    case None
    then show ?thesis unfolding abs by (auto simp: abs_inbox_def split: option.split)
  next
    case (Some r)
    then have "inbox_key r = k'" by (auto simp: find_Some_iff)
    then show ?thesis unfolding abs using Some by (auto simp: abs_inbox_def split: option.split)
  qed
qed

lemma inbox_inv_update:
  assumes "inbox_inv rows" and "\<And>r. inbox_key (f r) = inbox_key r" and "\<And>r. wi_id (f r) = wi_id r"
    and "\<And>r. r \<in> set rows \<Longrightarrow> p r \<Longrightarrow> row_state (f r) \<noteq> None"
  shows "inbox_inv (update_where p f rows)"
  using assms by (auto simp: inbox_inv_def set_update_where intro: unique_on_update)

lemma reclaimable_state:
  assumes "row_state r = Some st"
  shows "reclaimable now r \<longleftrightarrow>
    (case st of Processing _ since \<Rightarrow> since < now - PROCESSING_LEASE_MS | ProcessedAt _ \<Rightarrow> False | FailedAt _ \<Rightarrow> True)"
  using assms by (auto simp: row_state_def reclaimable_def split: option.splits)

lemma claim_state: "row_state r = Some st \<Longrightarrow>
    holds_claim k token r \<longleftrightarrow> inbox_key r = k \<and> (\<exists>since. st = Processing token since)"
  by (auto simp: row_state_def holds_claim_def split: option.splits)

lemma reclaim_refines:
  assumes inv: "inbox_inv rows" and found: "k \<in> inbox_key ` set rows"
    and run: "reclaim_webhook token now k p rows = (n, rows')"
  shows "inbox_inv rows' \<and> (n = 1, abs_inbox rows') = spec_claim token now k (abs_inbox rows)"
proof -
  let ?f = "\<lambda>r. r\<lparr>wi_receivedAt := now, wi_processingAt := Some now, wi_processingToken := Some token,
               wi_failedAt := None, wi_lastError := None, wi_payload := p\<rparr>"
  have u: "unique_on inbox_key rows" using inv by (simp add: inbox_inv_def)
  have st: "row_state (?f r) = Some (Processing token now)" if "reclaimable now r" for r
    using that by (auto simp: row_state_def reclaimable_def)
  obtain r where r: "r \<in> set rows" "inbox_key r = k" using found by auto
  obtain st where rs: "row_state r = Some st" using inv r(1) by (auto simp: inbox_inv_def)
  have rows': "rows' = update_where (\<lambda>r. inbox_key r = k \<and> reclaimable now r) ?f rows"
    and n: "n = count_where (\<lambda>r. inbox_key r = k \<and> reclaimable now r) rows"
    using run by (simp_all add: reclaim_webhook_def)
  have inv': "inbox_inv rows'" unfolding rows'
    by (rule inbox_inv_update [OF inv]) (auto simp: inbox_key_def dest: st)
  have abs': "abs_inbox rows' = (if reclaimable now r then (abs_inbox rows)(k \<mapsto> Processing token now) else abs_inbox rows)"
  proof -
    have "inbox_key (?f x) = inbox_key x" for x by (simp add: inbox_key_def)
    from abs_inbox_update [OF u, of ?f, OF this] show ?thesis
      unfolding rows' using find_key [OF u r(1)] st r(2) by simp
  qed
  have n1: "n = 1 \<longleftrightarrow> reclaimable now r"
  proof
    assume "reclaimable now r"
    then show "n = 1" unfolding n using r by (intro count_where_unique [OF u r(1)]) auto
  next
    assume "n = 1"
    then obtain x where "x \<in> set rows" "inbox_key x = k" "reclaimable now x"
      unfolding n using count_where_pos [of "\<lambda>r. inbox_key r = k \<and> reclaimable now r" rows] by auto
    then show "reclaimable now r" using unique_onD [OF u _ r(1)] r(2) by metis
  qed
  have "abs_inbox rows k = Some st" using abs_inbox_row [OF u r(1)] rs r(2) by simp
  then have "fst (spec_claim token now k (abs_inbox rows)) \<longleftrightarrow> reclaimable now r"
    by (auto simp: spec_claim_def Let_def reclaimable_state [OF rs] split: inbox_state.split)
  then show ?thesis using inv' abs' n1 by (auto simp: spec_claim_def Let_def)
qed

lemma insert_refines:
  assumes inv: "inbox_inv rows" and new: "k \<notin> inbox_key ` set rows" "rowId \<notin> wi_id ` set rows"
    and run: "insert_webhook rowId token now k p rows = (n, rows')"
  shows "n = 1 \<and> inbox_inv rows' \<and> (True, abs_inbox rows') = spec_claim token now k (abs_inbox rows)"
proof -
  define r where "r = \<lparr>wi_id = rowId, wi_provider = fst k, wi_providerEventId = snd k, wi_payload = p,
      wi_receivedAt = now, wi_processingAt = Some now, wi_processingToken = Some token,
      wi_processedAt = None, wi_failedAt = None, wi_lastError = None\<rparr>"
  have n: "n = 1" and rows': "rows' = rows @ [r]" using run new by (simp_all add: insert_webhook_def r_def)
  have rk: "inbox_key r = k" "wi_id r = rowId" and rs: "row_state r = Some (Processing token now)"
    by (simp_all add: r_def inbox_key_def row_state_def)
  have inv': "inbox_inv rows'" unfolding rows' using inv new rk rs
    by (auto simp: inbox_inv_def unique_on_append)
  have "abs_inbox rows' k' = ((abs_inbox rows)(k \<mapsto> Processing token now)) k'" for k'
  proof (cases "k' = k")
    case True
    then show ?thesis using abs_inbox_row [of rows' r] inv' rk rs by (simp add: inbox_inv_def rows')
  next
    case False
    then have "find (\<lambda>x. inbox_key x = k') (rows @ [r]) = find (\<lambda>x. inbox_key x = k') rows"
      using rk(1) by (induction rows) auto
    then show ?thesis using False by (simp add: abs_inbox_def rows')
  qed
  then have "abs_inbox rows' = (abs_inbox rows)(k \<mapsto> Processing token now)" by blast
  then show ?thesis using n inv' abs_inbox_none [OF new(1)] by (simp add: spec_claim_def)
qed

lemma settle_refines:
  assumes inv: "inbox_inv rows" and f: "\<And>r. inbox_key (f r) = inbox_key r" "\<And>r. wi_id (f r) = wi_id r"
    and st: "\<And>r. holds_claim k token r \<Longrightarrow> row_state r \<noteq> None \<Longrightarrow> row_state (f r) = Some st"
  shows "inbox_inv (update_where (holds_claim k token) f rows)
    \<and> abs_inbox (update_where (holds_claim k token) f rows) = spec_settle token k st (abs_inbox rows)"
proof -
  have u: "unique_on inbox_key rows" using inv by (simp add: inbox_inv_def)
  let ?q = "\<lambda>r. wi_processingToken r = Some token \<and> wi_processedAt r = None"
  have h: "holds_claim k token = (\<lambda>r. inbox_key r = k \<and> ?q r)" by (auto simp: holds_claim_def fun_eq_iff)
  have inv': "inbox_inv (update_where (holds_claim k token) f rows)"
    by (rule inbox_inv_update [OF inv f]) (use inv st in \<open>auto simp: inbox_inv_def\<close>)
  have "abs_inbox (update_where (holds_claim k token) f rows) = spec_settle token k st (abs_inbox rows)"
  proof (cases "k \<in> inbox_key ` set rows")
    case False
    then have "find (\<lambda>r. inbox_key r = k) rows = None" by (auto simp: find_None_iff)
    then show ?thesis unfolding h using abs_inbox_update [OF u f(1), of k ?q] abs_inbox_none [OF False]
      by (simp add: spec_settle_def)
  next
    case True
    then obtain r where r: "r \<in> set rows" "inbox_key r = k" by auto
    obtain s0 where rs: "row_state r = Some s0" using inv r(1) by (auto simp: inbox_inv_def)
    have "abs_inbox rows k = Some s0" using abs_inbox_row [OF u r(1)] rs r(2) by simp
    moreover have "?q r \<longleftrightarrow> (\<exists>since. s0 = Processing token since)"
      using claim_state [OF rs, of k token] r(2) by (simp add: holds_claim_def)
    moreover have "?q r \<Longrightarrow> row_state (f r) = Some st" using st [of r] r(2) rs by (simp add: holds_claim_def)
    ultimately show ?thesis unfolding h using abs_inbox_update [OF u f(1), of k ?q] find_key [OF u r(1)] r(2)
      by (auto simp: spec_settle_def split: inbox_state.split)
  qed
  with inv' show ?thesis by blast
qed

lemma markProcessed_refines:
  "inbox_inv rows \<Longrightarrow> inbox_inv (markProcessed now k token rows)
     \<and> abs_inbox (markProcessed now k token rows) = spec_settle token k (ProcessedAt now) (abs_inbox rows)"
  unfolding markProcessed_def
  by (rule settle_refines) (auto simp: inbox_key_def row_state_def holds_claim_def split: option.splits)

lemma markFailed_refines:
  "inbox_inv rows \<Longrightarrow> inbox_inv (markFailed now k token err rows)
     \<and> abs_inbox (markFailed now k token err rows) = spec_settle token k (FailedAt now) (abs_inbox rows)"
  unfolding markFailed_def
  by (rule settle_refines) (auto simp: inbox_key_def row_state_def holds_claim_def split: option.splits)

lemma claim_refines:
  assumes inv: "inbox_inv rows" and new: "rowId \<notin> wi_id ` set rows"
    and p: "webhook_toJsonMember payload = Inr p"
    and run: "claim_webhook rowId token now k payload rows = (res, rows')"
  shows "inbox_inv rows' \<and> (\<exists>ok. res = Inr (if ok then Some token else None)
      \<and> (ok, abs_inbox rows') = spec_claim token now k (abs_inbox rows))"
proof (cases "k \<in> inbox_key ` set rows")
  case True
  then have "insert_webhook rowId token now k p rows = (0, rows)" by (simp add: insert_webhook_def)
  moreover obtain n where rec: "reclaim_webhook token now k p rows = (n, rows')"
    using run p calculation by (auto simp: claim_webhook_def split: prod.splits)
  ultimately have "res = Inr (if n = 1 then Some token else None)"
    using run p by (simp add: claim_webhook_def)
  with reclaim_refines [OF inv True rec] show ?thesis by blast
next
  case False
  obtain n r1 where ins: "insert_webhook rowId token now k p rows = (n, r1)" by fastforce
  note i = insert_refines [OF inv False new ins]
  then have "res = Inr (Some token)" "rows' = r1" using run p ins by (simp_all add: claim_webhook_def)
  with i show ?thesis by auto
qed

interpretation inbox_prune: batch_delete "deleteProcessedBefore cutoff" "count_where (processed_before cutoff)"
    "filter (\<lambda>r. \<not> processed_before cutoff r)" "unique_on wi_id" for cutoff
  by unfold_locales (simp_all add: deleteProcessedBefore_def delete_oldest_contract)

section \<open>Signatures\<close>

definition hex_of :: "nat list \<Rightarrow> string" where
  "hex_of bs = concat (map (\<lambda>b. [''0123456789abcdef'' ! (b div 16), ''0123456789abcdef'' ! (b mod 16)]) bs)"

lemma hex_digit_nth:
  assumes "n < 16"
  shows "hex_digit (''0123456789abcdef'' ! n) = Some n" and "\<not> is_js_space (''0123456789abcdef'' ! n)"
proof -
  have n: "n \<in> {0, 1, 2, 3, 4, 5, 6, 7, 8, 9, 10, 11, 12, 13, 14, 15}"
    using assms by (simp only: insert_iff empty_iff) arith
  show "hex_digit (''0123456789abcdef'' ! n) = Some n" using n by (auto simp: hex_digit_def)
  show "\<not> is_js_space (''0123456789abcdef'' ! n)" using n by (auto simp: is_js_space_def)
qed

lemma hex_of_chars: "\<forall>b \<in> set bs. b < 256 \<Longrightarrow> c \<in> set (hex_of bs) \<Longrightarrow> hex_digit c \<noteq> None \<and> \<not> is_js_space c"
proof -
  assume bs: "\<forall>b \<in> set bs. b < 256" and "c \<in> set (hex_of bs)"
  then obtain b where b: "b < 256" "c = ''0123456789abcdef'' ! (b div 16) \<or> c = ''0123456789abcdef'' ! (b mod 16)"
    by (auto simp: hex_of_def)
  have "b div 16 < 16" "b mod 16 < 16" using b(1) by (simp_all add: less_mult_imp_div_less)
  then show ?thesis using b(2) hex_digit_nth by force
qed

lemma decode_hex_of: "\<forall>b \<in> set bs. b < 256 \<Longrightarrow> decode_hex (hex_of bs) = bs"
proof (induction bs)
  case (Cons b bs)
  then have "b div 16 < 16" "b mod 16 < 16" by (simp_all add: less_mult_imp_div_less)
  then show ?case using Cons hex_digit_nth(1) by (simp add: hex_of_def)
qed (simp add: hex_of_def)

lemma decodeSignature_hex:
  assumes "\<forall>b \<in> set bs. b < 256" and "bs \<noteq> []"
  shows "decodeSignature (hex_of bs) = Some bs"
proof -
  have "trim (hex_of bs) = hex_of bs" by (rule trim_id) (use hex_of_chars [OF assms(1)] in blast)
  moreover have "list_all (\<lambda>c. hex_digit c \<noteq> None) (hex_of bs)" using hex_of_chars [OF assms(1)] by (simp add: list_all_iff)
  moreover have "even (length (hex_of bs))" by (induction bs) (simp_all add: hex_of_def)
  moreover have "hex_of bs \<noteq> []" using assms(2) by (cases bs) (simp_all add: hex_of_def)
  ultimately show ?thesis using decode_hex_of [OF assms(1)] by (simp add: decodeSignature_def)
qed

text \<open>
  C34: The webhook signature. The digest of the exact body under the shared secret, in hexadecimal, is
  accepted; a body is accepted only when the signature decodes to that digest and the body is a JSON
  object; and every refusal, whatever its reason, is the same error.\<close>

theorem webhook_signature:
  assumes "\<forall>b \<in> set (hmac secret (utf8 payload)). b < 256" and "hmac secret (utf8 payload) \<noteq> []"
  shows "verify_webhook hmac json secret payload (hex_of (hmac secret (utf8 payload))) = parseJsonObject json payload
    \<and> (case verify_webhook hmac json secret payload signature of
         Inr v \<Rightarrow> decodeSignature signature = Some (hmac secret (utf8 payload))
                  \<and> (\<exists>kvs. v = JsObj kvs \<and> json payload = Some (JsObj kvs))
       | Inl e \<Rightarrow> e = rejected)"
proof -
  have "verify_webhook hmac json secret payload (hex_of (hmac secret (utf8 payload))) = parseJsonObject json payload"
    by (simp add: verify_webhook_def decodeSignature_hex [OF assms])
  moreover have "case verify_webhook hmac json secret payload signature of
      Inr v \<Rightarrow> decodeSignature signature = Some (hmac secret (utf8 payload)) \<and> (\<exists>kvs. v = JsObj kvs \<and> json payload = Some (JsObj kvs))
    | Inl e \<Rightarrow> e = rejected"
    by (auto simp: verify_webhook_def parseJsonObject_def Let_def split: option.split js.split sum.split)
  ultimately show ?thesis ..
qed

theorem webhook_signature_witness:
  "verify_webhook (\<lambda>s m. [171, 16]) (\<lambda>_. Some (JsObj [])) ''secret'' ''{}'' ''ab10'' = Inr (JsObj [])"
proof -
  have "hex_of [171, 16] = ''ab10''" by (simp add: hex_of_def)
  then show ?thesis
    using webhook_signature [of "\<lambda>s m. [171, 16]" "''secret''" "''{}''" "\<lambda>_. Some (JsObj [])" "''ab10''"]
    by (simp add: parseJsonObject_def)
qed

section \<open>Properties of the inbox\<close>

text \<open>
  C31: The inbox refines a state machine with three states per event. From a table where every row is
  in exactly one state, each statement keeps that, and acts on the abstract inbox as specified: a
  claim succeeds exactly when the event is new, failed, or held longer than the lease, and settling
  an event has an effect only for the holder of its current token.\<close>

theorem inbox_refines_state_machine:
  assumes "inbox_inv rows" and "rowId \<notin> wi_id ` set rows" and "webhook_toJsonMember payload = Inr p"
  shows "(\<exists>ok rows'. claim_webhook rowId token now k payload rows = (Inr (if ok then Some token else None), rows')
        \<and> inbox_inv rows' \<and> (ok, abs_inbox rows') = spec_claim token now k (abs_inbox rows))
    \<and> inbox_inv (markProcessed now k token rows)
    \<and> abs_inbox (markProcessed now k token rows) = spec_settle token k (ProcessedAt now) (abs_inbox rows)
    \<and> inbox_inv (markFailed now k token err rows)
    \<and> abs_inbox (markFailed now k token err rows) = spec_settle token k (FailedAt now) (abs_inbox rows)"
proof -
  obtain res rows' where run: "claim_webhook rowId token now k payload rows = (res, rows')" by fastforce
  from claim_refines [OF assms run]
  have "\<exists>ok rows'. claim_webhook rowId token now k payload rows = (Inr (if ok then Some token else None), rows')
      \<and> inbox_inv rows' \<and> (ok, abs_inbox rows') = spec_claim token now k (abs_inbox rows)" using run by blast
  then show ?thesis using markProcessed_refines [OF assms(1)] markFailed_refines [OF assms(1)] by simp
qed

theorem inbox_refines_state_machine_witness:
  "\<exists>ok rows'. claim_webhook ''r1'' ''t1'' 5 (''acme'', ''e1'') (JsObj []) [] = (Inr (if ok then Some ''t1'' else None), rows')
     \<and> inbox_inv rows' \<and> (ok, abs_inbox rows') = spec_claim ''t1'' 5 (''acme'', ''e1'') (abs_inbox [])"
proof -
  have "inbox_inv []" by (simp add: inbox_inv_def unique_on_def)
  from inbox_refines_state_machine [OF this, of "''r1''" "JsObj []" "JsObj []" "''t1''" 5 "(''acme'', ''e1'')" "''x''"]
  show ?thesis by simp
qed

text \<open>The job a claim sends, and what the endpoint does once its checks have passed.\<close>

definition webhook_job :: "string \<Rightarrow> string \<Rightarrow> uuid \<Rightarrow> js" where
  "webhook_job provider eventId token =
     JsObj [(''provider'', JsStr provider), (''providerEventId'', JsStr eventId), (''claimToken'', JsStr token)]"

lemma receive_accepted:
  assumes "BillingWebhook_receive (Some verify) add rowId token now provider (Some raw) (Some sig) (Some eid) (rows, b) = (out, (rows', b'))"
    and "PROVIDER_PATTERN provider" and "length eid \<le> 255" and "verify raw sig = Inr payload"
    and "claim_webhook rowId token now (provider, eid) payload rows = (Inr c, rows1)"
  shows "rows' = rows1 \<and> (case c of None \<Rightarrow> out = Inr () \<and> b' = b | Some t \<Rightarrow> dispatchClaimed add provider eid t b = (out, b'))"
  using assms by (cases c) (auto simp: BillingWebhook_receive_def inbox_receive_def split: prod.splits sum.splits)



section \<open>Applying\<close>

lemma job_parsed:
  assumes "length_between 1 32 provider" "length_between 1 255 eid" "z_uuid7 z token"
  shows "z_object (jobSchema z) (webhook_job provider eid token) = Some (webhook_job provider eid token)"
  using assms by (simp add: z_object_def jobSchema_def webhook_job_def)

lemma handle_job:
  assumes "length_between 1 32 provider" "length_between 1 255 eid" "z_uuid7 z token"
  shows "ApplyBillingWebhook_handle z applier now (webhook_job provider eid token) s
     = applyClaimed now (provider, eid) token (\<lambda>payload. ApplyWebhookEvent_execute z applier provider payload) s"
proof -
  have "z_object (jobSchema z) (webhook_job provider eid token) = Some (webhook_job provider eid token)"
    by (rule job_parsed [OF assms])
  then show ?thesis unfolding ApplyBillingWebhook_handle_def
    by (simp add: webhook_job_def field_def str_of_def)
qed

lemma findClaimed_held:
  assumes "inbox_inv rows" and "findClaimed k token rows = Some payload"
  shows "\<exists>since. abs_inbox rows k = Some (Processing token since)"
proof -
  obtain r where r: "r \<in> set rows" "holds_claim k token r"
    using assms(2) by (auto simp: findClaimed_def find_Some_iff split: option.splits intro: nth_mem)
  obtain st where st: "row_state r = Some st" using assms(1) r(1) by (auto simp: inbox_inv_def)
  have "abs_inbox rows k = row_state r"
    using abs_inbox_row [of rows r] assms(1) r by (simp add: inbox_inv_def holds_claim_def)
  then show ?thesis using claim_state [OF st] r(2) st by auto
qed

lemma findClaimed_not_held:
  assumes "inbox_inv rows" and "\<nexists>since. abs_inbox rows k = Some (Processing token since)"
  shows "findClaimed k token rows = None"
  using findClaimed_held [OF assms(1)] assms(2) by (cases "findClaimed k token rows") auto


definition sample_claim :: inbox where
  "sample_claim =
     [\<lparr>wi_id = ''r1'', wi_provider = ''acme'', wi_providerEventId = ''e1'',
       wi_payload = JsObj [(''type'', JsStr ''subscription.updated''), (''organizationId'', JsStr ''o1'')],
       wi_receivedAt = 5, wi_processingAt = Some 5, wi_processingToken = Some ''t1'', wi_processedAt = None,
       wi_failedAt = None, wi_lastError = None\<rparr>]"

lemma sample_claim_inv: "inbox_inv sample_claim"
  by (simp add: inbox_inv_def unique_on_def sample_claim_def row_state_def)


text \<open>Retention of the inbox.\<close>

lemma inbox_prune_run:
  fixes now :: date and days :: nat
  assumes "unique_on wi_id rows"
  defines "due \<equiv> processed_before (now - int days * 86400000)"
  shows "snd (PruneBillingWebhookInbox_execute now days rows) = min 100000 (count_where due rows)
    \<and> filter (\<lambda>r. \<not> due r) (fst (PruneBillingWebhookInbox_execute now days rows)) = filter (\<lambda>r. \<not> due r) rows"
  using inbox_prune.prune_loop_spec [OF assms(1), of INBOX_MAX_PASSES INBOX_BATCH_SIZE "now - int days * 86400000"]
  by (auto simp: PruneBillingWebhookInbox_execute_def due_def INBOX_MAX_PASSES_def INBOX_BATCH_SIZE_def)

section \<open>The entitlement cache\<close>

lemma fst_map_set: "fst ` set (map_set k v kvs) = insert k (fst ` set kvs)"
  by (force simp: map_set_def)

lemma length_map_set: "length (map_set k v kvs) = (if k \<in> fst ` set kvs then length kvs else Suc (length kvs))"
  by (simp add: map_set_def)

lemma set_map_set: "set (map_set k v kvs) \<subseteq> insert (k, v) (set kvs)"
  by (auto simp: map_set_def split: if_splits)

lemma map_of_map_set [simp]: "map_of (map_set k v kvs) k = Some v"
proof (cases "k \<in> fst ` set kvs")
  case True
  then have "map_of (map (\<lambda>(k', v'). if k' = k then (k', v) else (k', v')) kvs) k = Some v" by (induction kvs) auto
  then show ?thesis using True by (simp add: map_set_def)
next
  case False
  then have "map_of kvs k = None" by (simp add: map_of_eq_None_iff)
  then show ?thesis using False by (simp add: map_set_def map_add_def)
qed

lemma remember_bound: "length cache \<le> MAX_CACHED_TENANTS \<Longrightarrow> length (remember k e cache) \<le> MAX_CACHED_TENANTS"
  by (auto simp: remember_def length_map_set MAX_CACHED_TENANTS_def)

text \<open>
  A sequence of reads by one process: at each the clock, the tenant, and the database as it is then.
\<close>

fun reads :: "(date \<times> uuid \<times> db) list \<Rightarrow> entitlement_cache \<Rightarrow> entitlement_cache" where
  "reads [] cache = cache"
| "reads ((now, org, d) # rs) cache = reads rs (snd (getFor now org d cache))"

definition cache_from :: "(date \<times> uuid \<times> db) list \<Rightarrow> entitlement_cache \<Rightarrow> bool" where
  "cache_from hist cache \<longleftrightarrow> length cache \<le> MAX_CACHED_TENANTS
     \<and> (\<forall>(org, e) \<in> set cache. \<exists>t d. (t, org, d) \<in> set hist \<and> en_value e = currentEntitlements org d \<and> en_freshUntilMs e = t + CACHE_TTL_MS)"

lemma cache_from_getFor:
  assumes "cache_from hist cache"
  shows "cache_from (hist @ [(now, org, d)]) (snd (getFor now org d cache))"
proof -
  have grow: "cache_from (hist @ [(now, org, d)]) cache" using assms by (fastforce simp: cache_from_def)
  have "cache_from (hist @ [(now, org, d)]) (remember org \<lparr>en_value = currentEntitlements org d, en_freshUntilMs = now + CACHE_TTL_MS\<rparr> cache)"
  proof -
    let ?e = "\<lparr>en_value = currentEntitlements org d, en_freshUntilMs = now + CACHE_TTL_MS\<rparr>"
    have sub: "set (remember org ?e cache) \<subseteq> insert (org, ?e) (set cache)"
      unfolding remember_def using set_map_set by (cases cache) (auto dest: subsetD [OF set_map_set])
    show ?thesis using grow remember_bound [of cache org ?e] subsetD [OF sub] unfolding cache_from_def by fastforce
  qed
  then show ?thesis using grow by (auto simp: getFor_def Let_def split: option.splits)
qed

lemma cache_from_reads: "cache_from hist cache \<Longrightarrow> cache_from (hist @ rs) (reads rs cache)"
proof (induction rs cache arbitrary: hist rule: reads.induct)
  case (2 now org d rs cache)
  show ?case using 2(1) [OF cache_from_getFor [OF 2(2), of now org d]] by simp
qed simp

text \<open>
  C35: Entitlements are at most thirty seconds old. In any sequence of reads of one process with a
  clock that does not go back, whatever the cache holds, an answer is what the database said about
  that same tenant at this read or at an earlier read less than thirty seconds ago, and the cache
  never holds more than ten thousand tenants.\<close>

theorem entitlements_bounded_staleness:
  assumes "sorted (map fst (rs @ [(now, org, d)]))"
  shows "(\<exists>t d'. (t, org, d') \<in> set (rs @ [(now, org, d)]) \<and> now - 30000 < t \<and> t \<le> now
        \<and> fst (getFor now org d (reads rs [])) = currentEntitlements org d')
    \<and> length (snd (getFor now org d (reads rs []))) \<le> 10000"
proof -
  let ?c = "reads rs []"
  have c: "cache_from rs ?c" using cache_from_reads [of "[]" "[]" rs] by (simp add: cache_from_def)
  have "cache_from (rs @ [(now, org, d)]) (snd (getFor now org d ?c))" by (rule cache_from_getFor [OF c])
  then have len: "length (snd (getFor now org d ?c)) \<le> 10000" by (simp add: cache_from_def MAX_CACHED_TENANTS_def)
  have before: "t \<le> now" if "(t, o', d') \<in> set rs" for t o' d'
    using assms that by (force simp: sorted_append)
  have "\<exists>t d'. (t, org, d') \<in> set (rs @ [(now, org, d)]) \<and> now - 30000 < t \<and> t \<le> now
      \<and> fst (getFor now org d ?c) = currentEntitlements org d'"
  proof (cases "\<exists>e. map_of ?c org = Some e \<and> now < en_freshUntilMs e")
    case True
    then obtain e where e: "map_of ?c org = Some e" "now < en_freshUntilMs e" by blast
    then have "(org, e) \<in> set ?c" by (simp add: map_of_SomeD)
    then obtain t d' where t: "(t, org, d') \<in> set rs" "en_value e = currentEntitlements org d'" "en_freshUntilMs e = t + CACHE_TTL_MS"
      using c unfolding cache_from_def by fastforce
    then show ?thesis using e before [OF t(1)] by (intro exI [of _ t] exI [of _ d']) (auto simp: getFor_def CACHE_TTL_MS_def)
  next
    case False
    then have "fst (getFor now org d ?c) = currentEntitlements org d"
      by (auto simp: getFor_def Let_def split: option.split)
    then show ?thesis by (intro exI [of _ now] exI [of _ d]) simp
  qed
  with len show ?thesis by blast
qed

theorem entitlements_bounded_staleness_witness:
  "\<exists>(t::date) d'. (t, ''o1'', d') \<in> {(0, ''o1'', empty_db), (7, ''o1'', empty_db)} \<and> 7 - 30000 < t \<and> t \<le> 7
     \<and> fst (getFor 7 ''o1'' empty_db (reads [(0, ''o1'', empty_db)] [])) = currentEntitlements ''o1'' d'"
  using entitlements_bounded_staleness [of "[(0, ''o1'', empty_db)]" 7 "''o1''" empty_db] by auto

end
