(* ===== verification/Uploads.thy ===== *)
theory Uploads
  imports Outbox Pagination
begin

text \<open>
  The upload module (\<open>src/src/modules/upload\<close>): the \<open>StoredFile\<close> aggregate with its three states,
  the repository with its compare-and-set, the use cases that presign, confirm, list, sweep and purge,
  and the two queue listeners.

  The state is the database and the object store, a map from keys to objects. The detector of file
  signatures and the signer of upload policies are parameters. \<open>down\<close> says for which keys the
  object store fails, so that every storage error is a branch of the model.
\<close>

section \<open>The aggregate\<close>

definition ALLOWED_MIME_TYPES :: "string list" where
  "ALLOWED_MIME_TYPES = [''image/png'', ''image/jpeg'', ''image/webp'', ''image/gif'', ''application/pdf'']"

datatype discard_reason = ContentMismatch | TypeNotAllowed | NeverUploaded

record confirmed_event =
  ce_fileId :: uuid
  ce_organizationId :: uuid
  ce_ownerId :: uuid
  ce_storageKey :: string
  ce_mimeType :: string
  ce_sizeBytes :: int
  ce_confirmedAt :: date

datatype stored_file_event =
    StoredFileConfirmed confirmed_event
  | StoredFileDiscarded uuid string discard_reason date

record stored_file =
  file_row :: stored_file_row
  file_events :: "stored_file_event list"

abbreviation file_status :: "stored_file \<Rightarrow> stored_file_status" where
  "file_status f \<equiv> sf_status (file_row f)"

definition stripUnsafeCharacters :: "string \<Rightarrow> string" where
  "stripUnsafeCharacters s = filter (\<lambda>c. 32 \<le> code_unit c \<and> code_unit c \<noteq> 127 \<and> c \<noteq> CHR 0x22) s"

definition sanitiseFilename :: "string \<Rightarrow> failure + string" where
  "sanitiseFilename raw =
     (let base = last (split_on (\<lambda>c. c = CHR 0x5C \<or> c = CHR ''/'') raw);
          cleaned = trim (stripUnsafeCharacters base)
      in if cleaned = [] \<or> cleaned = ''.'' \<or> cleaned = ''..''
         then Inl (validation UPLOAD_FILENAME_INVALID ''Invalid file name.'')
         else Inr (take 255 cleaned))"

definition storage_key :: "uuid \<Rightarrow> uuid \<Rightarrow> uuid \<Rightarrow> string" where
  "storage_key organizationId ownerId i = ''uploads/'' @ organizationId @ ''/'' @ ownerId @ ''/'' @ i"

definition StoredFile_presign ::
  "uuid \<Rightarrow> date \<Rightarrow> uuid \<Rightarrow> uuid \<Rightarrow> string \<Rightarrow> string \<Rightarrow> int \<Rightarrow> nat \<Rightarrow> failure + stored_file"
where
  "StoredFile_presign newId now organizationId ownerId filename mimeType sizeBytes maxSizeBytes =
     (if mimeType \<notin> set ALLOWED_MIME_TYPES
      then Inl (validation UPLOAD_MIME_NOT_ALLOWED ''That file type is not accepted.'')
      else if sizeBytes \<le> 0 \<or> int maxSizeBytes < sizeBytes
      then Inl (validation UPLOAD_SIZE_EXCEEDED
             (''File size must be between 1 and '' @ show_nat maxSizeBytes @ '' bytes.''))
      else
        (case sanitiseFilename filename of
           Inl e \<Rightarrow> Inl e
         | Inr name \<Rightarrow>
             Inr \<lparr>file_row =
                   \<lparr>sf_id = newId, sf_organizationId = organizationId, sf_ownerId = ownerId,
                    sf_storageKey = storage_key organizationId ownerId newId, sf_filename = name,
                    sf_declaredMimeType = mimeType, sf_declaredSizeBytes = sizeBytes,
                    sf_verifiedMimeType = None, sf_verifiedSizeBytes = None, sf_status = Pending,
                    sf_createdAt = now, sf_confirmedAt = None\<rparr>,
                  file_events = []\<rparr>))"

definition rehydrate :: "stored_file_row \<Rightarrow> stored_file" where
  "rehydrate r = \<lparr>file_row = r, file_events = []\<rparr>"

definition isUsable :: "stored_file \<Rightarrow> bool" where
  "isUsable f \<longleftrightarrow> file_status f = Confirmed"

definition discard :: "discard_reason \<Rightarrow> date \<Rightarrow> stored_file \<Rightarrow> stored_file" where
  "discard reason now f =
     (if file_status f \<noteq> Pending then f
      else f\<lparr>file_row := (file_row f)\<lparr>sf_status := Discarded\<rparr>,
             file_events := file_events f @
               [StoredFileDiscarded (sf_id (file_row f)) (sf_storageKey (file_row f)) reason now]\<rparr>)"

text \<open>\<open>confirm\<close> changes the aggregate also when it throws.\<close>

definition confirm :: "string option \<Rightarrow> int \<Rightarrow> date \<Rightarrow> (stored_file, unit) action" where
  "confirm mimeType sizeBytes now f =
     (let r = file_row f in
      if sf_status r = Confirmed
      then (Inl (conflict UPLOAD_ALREADY_CONFIRMED ''This upload was already confirmed.'' True), f)
      else if sf_status r \<noteq> Pending
      then (Inl (conflict UPLOAD_NOT_FOUND ''This upload is no longer awaiting confirmation.'' True), f)
      else if sizeBytes \<noteq> sf_declaredSizeBytes r
      then (Inl (validation UPLOAD_CONTENT_MISMATCH ''The stored object does not match the declared size.''),
            discard ContentMismatch now f)
      else
        (case mimeType of
           None \<Rightarrow> (Inl (validation UPLOAD_MIME_NOT_ALLOWED ''The stored bytes are not an accepted file type.''),
                    discard TypeNotAllowed now f)
         | Some m \<Rightarrow>
             if m \<notin> set ALLOWED_MIME_TYPES
             then (Inl (validation UPLOAD_MIME_NOT_ALLOWED ''The stored bytes are not an accepted file type.''),
                   discard TypeNotAllowed now f)
             else if m \<noteq> sf_declaredMimeType r
             then (Inl (validation UPLOAD_CONTENT_MISMATCH ''The stored object is not the file type that was declared.''),
                   discard ContentMismatch now f)
             else (Inr (),
                   f\<lparr>file_row := r\<lparr>sf_status := Confirmed, sf_verifiedMimeType := Some m,
                                    sf_verifiedSizeBytes := Some sizeBytes, sf_confirmedAt := Some now\<rparr>,
                     file_events := file_events f @
                       [StoredFileConfirmed
                          \<lparr>ce_fileId = sf_id r, ce_organizationId = sf_organizationId r,
                           ce_ownerId = sf_ownerId r, ce_storageKey = sf_storageKey r, ce_mimeType = m,
                           ce_sizeBytes = sizeBytes, ce_confirmedAt = now\<rparr>]\<rparr>)))"

definition pullEvents :: "stored_file \<Rightarrow> stored_file_event list \<times> stored_file" where
  "pullEvents f = (file_events f, f\<lparr>file_events := []\<rparr>)"

section \<open>The repository\<close>

definition findByIdForOwner :: "uuid \<Rightarrow> uuid \<Rightarrow> uuid \<Rightarrow> db \<Rightarrow> stored_file option" where
  "findByIdForOwner organizationId ownerId i d =
     map_option rehydrate
       (find (\<lambda>r. sf_id r = i \<and> sf_organizationId r = organizationId \<and> sf_ownerId r = ownerId) (storedFiles d))"

definition save_file :: "stored_file \<Rightarrow> (db, unit) action" where
  "save_file f d =
     (case require_reference (sf_organizationId (file_row f) \<in> org_id ` set (organizations d)) ''stored_file_organization_id_fkey'' of
        Inl e \<Rightarrow> (Inl e, d)
      | Inr _ \<Rightarrow>
     (case insert_unique sf_id ''stored_file_pkey'' (file_row f) (storedFiles d) of
        Inl e \<Rightarrow> (Inl e, d)
      | Inr _ \<Rightarrow>
     (case insert_unique sf_storageKey ''stored_file_storage_key_key'' (file_row f) (storedFiles d) of
        Inl e \<Rightarrow> (Inl e, d)
      | Inr rows \<Rightarrow> (Inr (), d\<lparr>storedFiles := rows\<rparr>))))"

definition compareAndSave :: "stored_file \<Rightarrow> stored_file_status \<Rightarrow> db \<Rightarrow> bool \<times> db" where
  "compareAndSave f expected d =
     (let new = file_row f;
          p = (\<lambda>r. sf_id r = sf_id new \<and> sf_organizationId r = sf_organizationId new \<and> sf_status r = expected)
      in (count_where p (storedFiles d) = 1,
          d\<lparr>storedFiles := update_where p
              (\<lambda>r. r\<lparr>sf_verifiedMimeType := sf_verifiedMimeType new, sf_verifiedSizeBytes := sf_verifiedSizeBytes new,
                     sf_status := sf_status new, sf_confirmedAt := sf_confirmedAt new\<rparr>) (storedFiles d)\<rparr>))"

definition file_key :: "stored_file_row \<Rightarrow> date \<times> uuid" where
  "file_key r = (sf_createdAt r, sf_id r)"

definition listed :: "uuid \<Rightarrow> uuid \<Rightarrow> stored_file_row \<Rightarrow> bool" where
  "listed organizationId ownerId r \<longleftrightarrow>
     sf_ownerId r = ownerId \<and> sf_organizationId r = organizationId \<and> sf_status r = Confirmed"

definition listByOwner ::
  "uuid \<Rightarrow> uuid \<Rightarrow> decoded_cursor option \<Rightarrow> nat \<Rightarrow> db \<Rightarrow> stored_file_row list"
where
  "listByOwner organizationId ownerId cursor limit d =
     keyset_query file_key (listed organizationId ownerId) cursor limit (storedFiles d)"

definition countByOwner :: "uuid \<Rightarrow> uuid \<Rightarrow> db \<Rightarrow> nat" where
  "countByOwner organizationId ownerId d = count_where (listed organizationId ownerId) (storedFiles d)"

definition cleanup_candidate :: "date \<Rightarrow> stored_file_row \<Rightarrow> bool" where
  "cleanup_candidate olderThan r \<longleftrightarrow> sf_status r = Discarded \<or> (sf_status r = Pending \<and> sf_createdAt r < olderThan)"

definition findCleanupCandidates :: "date \<Rightarrow> nat \<Rightarrow> db \<Rightarrow> stored_file list" where
  "findCleanupCandidates olderThan limit d =
     map rehydrate (take limit (order_by sf_createdAt (filter (cleanup_candidate olderThan) (storedFiles d))))"

definition deleteById :: "uuid \<Rightarrow> db \<Rightarrow> db" where
  "deleteById i d = d\<lparr>storedFiles := delete_where (\<lambda>r. sf_id r = i) (storedFiles d)\<rparr>"

definition findAllByOwner :: "uuid \<Rightarrow> nat \<Rightarrow> db \<Rightarrow> stored_file list" where
  "findAllByOwner ownerId limit d =
     map rehydrate (take limit (order_by sf_createdAt (filter (\<lambda>r. sf_ownerId r = ownerId) (storedFiles d))))"

section \<open>The object store\<close>

record stored_object =
  so_size :: int
  so_bytes :: "nat list"

type_synonym objects = "string \<rightharpoonup> stored_object"

definition SIGNATURE_SAMPLE_BYTES :: nat where "SIGNATURE_SAMPLE_BYTES = 4100"

definition storage_error :: failure where
  "storage_error = PlainError ''object storage is unavailable''"

text \<open>\<open>inspect\<close>: the stored size, and the first candidate of the signature detector.\<close>

definition inspect ::
  "(nat list \<Rightarrow> string list) \<Rightarrow> (string \<Rightarrow> bool) \<Rightarrow> string \<Rightarrow> objects \<Rightarrow> failure + (int \<times> string option) option"
where
  "inspect detectMimeTypes down k objs =
     (if down k then Inl storage_error
      else (case objs k of
              None \<Rightarrow> Inr None
            | Some obj \<Rightarrow>
                (let detected = detectMimeTypes (take SIGNATURE_SAMPLE_BYTES (so_bytes obj))
                 in Inr (Some (so_size obj, if detected = [] then None else Some (hd detected))))))"

definition remove_object :: "(string \<Rightarrow> bool) \<Rightarrow> string \<Rightarrow> (objects, unit) action" where
  "remove_object down k objs = (if down k then (Inl storage_error, objs) else (Inr (), objs(k := None)))"

section \<open>Use cases\<close>

record upload_limits =
  maxFileBytes :: nat
  presignExpirySeconds :: nat
  pendingTtlMinutes :: nat

record upload_policy =
  pol_url :: string
  pol_method :: string
  pol_headers :: "(string \<times> string) list"
  pol_expiresAt :: date

record presigned_upload_view =
  pu_fileId :: uuid
  pu_policy :: upload_policy
  pu_expiresAt :: string
  pu_maxSizeBytes :: nat

definition PresignUpload_execute ::
  "upload_limits \<Rightarrow> (string \<Rightarrow> string \<Rightarrow> int \<Rightarrow> nat \<Rightarrow> failure + upload_policy) \<Rightarrow> uuid \<Rightarrow> date
     \<Rightarrow> uuid \<Rightarrow> uuid \<Rightarrow> string \<Rightarrow> string \<Rightarrow> int \<Rightarrow> (db, presigned_upload_view) action"
where
  "PresignUpload_execute limits createUploadPolicy newId now organizationId ownerId filename mimeType sizeBytes d =
     (case StoredFile_presign newId now organizationId ownerId filename mimeType sizeBytes (maxFileBytes limits) of
        Inl e \<Rightarrow> (Inl e, d)
      | Inr f \<Rightarrow>
          (case save_file f d of
             (Inl e, d') \<Rightarrow> (Inl e, d')
           | (Inr _, d') \<Rightarrow>
               (case createUploadPolicy (sf_storageKey (file_row f)) (sf_declaredMimeType (file_row f))
                       (sf_declaredSizeBytes (file_row f)) (presignExpirySeconds limits) of
                  Inl e \<Rightarrow> (Inl e, d')
                | Inr policy \<Rightarrow>
                    (Inr \<lparr>pu_fileId = sf_id (file_row f), pu_policy = policy,
                          pu_expiresAt = toISOString (pol_expiresAt policy),
                          pu_maxSizeBytes = maxFileBytes limits\<rparr>, d'))))"

record stored_file_view =
  fv_id :: uuid
  fv_ownerId :: uuid
  fv_filename :: string
  fv_mimeType :: string
  fv_sizeBytes :: int
  fv_status :: stored_file_status
  fv_createdAt :: string
  fv_confirmedAt :: "string option"

definition toStoredFileView :: "stored_file_row \<Rightarrow> stored_file_view" where
  "toStoredFileView r =
     \<lparr>fv_id = sf_id r, fv_ownerId = sf_ownerId r, fv_filename = sf_filename r,
      fv_mimeType = (case sf_verifiedMimeType r of Some m \<Rightarrow> m | None \<Rightarrow> sf_declaredMimeType r),
      fv_sizeBytes = (case sf_verifiedSizeBytes r of Some n \<Rightarrow> n | None \<Rightarrow> sf_declaredSizeBytes r),
      fv_status = sf_status r, fv_createdAt = toISOString (sf_createdAt r),
      fv_confirmedAt = map_option toISOString (sf_confirmedAt r)\<rparr>"

definition confirmed_payload :: "confirmed_event \<Rightarrow> js" where
  "confirmed_payload c =
     JsObj [(''fileId'', JsStr (ce_fileId c)), (''organizationId'', JsStr (ce_organizationId c)),
            (''ownerId'', JsStr (ce_ownerId c)), (''storageKey'', JsStr (ce_storageKey c)),
            (''mimeType'', JsStr (ce_mimeType c)), (''sizeBytes'', JsNum (of_int (ce_sizeBytes c))),
            (''confirmedAt'', JsStr (toISOString (ce_confirmedAt c)))]"

definition toIntegrationEvents :: "uuid \<Rightarrow> date \<Rightarrow> uuid option \<Rightarrow> stored_file \<Rightarrow> integration_event list" where
  "toIntegrationEvents newId now correlationId f =
     concat (map (\<lambda>e. case e of
                        StoredFileConfirmed c \<Rightarrow>
                          [createIntegrationEvent newId now UPLOAD_CONFIRMED (confirmed_payload c) correlationId]
                      | StoredFileDiscarded _ _ _ _ \<Rightarrow> [])
              (fst (pullEvents f)))"

text \<open>
  The two halves of \<open>ConfirmUploadUseCase.execute\<close>: what runs before the transaction, which loads
  the row and reads the object, and the transaction that writes the decision. Between the two the
  database may change.
\<close>

definition confirm_prepare ::
  "(nat list \<Rightarrow> string list) \<Rightarrow> (string \<Rightarrow> bool) \<Rightarrow> date \<Rightarrow> uuid \<Rightarrow> uuid \<Rightarrow> uuid \<Rightarrow> db \<Rightarrow> objects
     \<Rightarrow> failure + (failure + unit) \<times> stored_file_status \<times> stored_file"
where
  "confirm_prepare detect down now organizationId callerId fileId d objs =
     (case findByIdForOwner organizationId callerId fileId d of
        None \<Rightarrow> Inl (notFound UPLOAD_NOT_FOUND ''Upload not found.'')
      | Some f \<Rightarrow>
          (case inspect detect down (sf_storageKey (file_row f)) objs of
             Inl e \<Rightarrow> Inl e
           | Inr None \<Rightarrow> Inl (validation UPLOAD_OBJECT_MISSING ''No object was uploaded for this file.'')
           | Inr (Some (stored_size, mime)) \<Rightarrow>
               (let (outcome, f') = confirm mime stored_size now f in Inr (outcome, file_status f, f'))))"

definition confirm_commit ::
  "zod \<Rightarrow> uuid \<Rightarrow> date \<Rightarrow> uuid option \<Rightarrow> (failure + unit) \<times> stored_file_status \<times> stored_file
     \<Rightarrow> (db, stored_file_view) action"
where
  "confirm_commit z newId now correlationId prepared d =
     (let (outcome, previousStatus, f) = prepared in
      case outcome of
        Inl e \<Rightarrow>
          (Inl e, if file_status f = Discarded then snd (compareAndSave f previousStatus d) else d)
      | Inr _ \<Rightarrow>
          (case transaction False
                  (\<lambda>d. let (stored, d1) = compareAndSave f previousStatus d in
                        if \<not> stored
                        then (Inl (conflict UPLOAD_ALREADY_CONFIRMED ''This upload was already confirmed.'' True), d1)
                        else publishAll z (toIntegrationEvents newId now correlationId f) d1) d of
             (Inl e, d') \<Rightarrow> (Inl e, d')
           | (Inr _, d') \<Rightarrow> (Inr (toStoredFileView (file_row f)), d')))"

definition ConfirmUpload_execute ::
  "zod \<Rightarrow> (nat list \<Rightarrow> string list) \<Rightarrow> (string \<Rightarrow> bool) \<Rightarrow> uuid \<Rightarrow> date \<Rightarrow> uuid \<Rightarrow> uuid \<Rightarrow> uuid \<Rightarrow> uuid option
     \<Rightarrow> objects \<Rightarrow> (db, stored_file_view) action"
where
  "ConfirmUpload_execute z detect down newId now organizationId callerId fileId correlationId objs d =
     (case confirm_prepare detect down now organizationId callerId fileId d objs of
        Inl e \<Rightarrow> (Inl e, d)
      | Inr prepared \<Rightarrow> confirm_commit z newId now correlationId prepared d)"

definition MAX_PAGE_SIZE :: nat where "MAX_PAGE_SIZE = 100"

definition DEFAULT_PAGE_SIZE :: nat where "DEFAULT_PAGE_SIZE = 20"

definition ListMyUploads_execute ::
  "(uuid \<Rightarrow> bool) \<Rightarrow> (string \<Rightarrow> nat list) \<Rightarrow> uuid \<Rightarrow> uuid \<Rightarrow> string option \<Rightarrow> nat option \<Rightarrow> db
     \<Rightarrow> failure + stored_file_view list \<times> bool \<times> string option"
where
  "ListMyUploads_execute isUuidV7 lenient organizationId ownerId startingAfter limit d =
     (let n = min (case limit of Some l \<Rightarrow> l | None \<Rightarrow> DEFAULT_PAGE_SIZE) MAX_PAGE_SIZE in
      case decodeOptionalCursor isUuidV7 lenient startingAfter of
        Inl e \<Rightarrow> Inl e
      | Inr cursor \<Rightarrow>
          (let (page, hasMore) = page_of n (listByOwner organizationId ownerId cursor (n + 1) d)
           in Inr (map toStoredFileView page, hasMore,
                   if page = [] then None
                   else Some (encodeCursor (sf_createdAt (last page)) (sf_id (last page))))))"

definition CountUserUploads_execute :: "uuid \<Rightarrow> uuid \<Rightarrow> db \<Rightarrow> nat" where
  "CountUserUploads_execute organizationId ownerId d = countByOwner organizationId ownerId d"

definition SWEEP_BATCH_SIZE :: nat where "SWEEP_BATCH_SIZE = 200"

fun sweep_files ::
  "(string \<Rightarrow> bool) \<Rightarrow> date \<Rightarrow> stored_file list \<Rightarrow> nat \<Rightarrow> (db \<times> objects, nat) action"
where
  "sweep_files down now [] removed s = (Inr removed, s)"
| "sweep_files down now (f # fs) removed (d, objs) =
     (let (go, d1) = (if file_status f = Pending then compareAndSave (discard NeverUploaded now f) Pending d
                      else (True, d))
      in if \<not> go then sweep_files down now fs removed (d1, objs)
         else (case remove_object down (sf_storageKey (file_row f)) objs of
                 (Inl e, objs') \<Rightarrow> (Inl e, (d1, objs'))
               | (Inr _, objs') \<Rightarrow>
                   sweep_files down now fs (removed + 1) (deleteById (sf_id (file_row f)) d1, objs')))"

definition ExpireStaleUploads_execute ::
  "upload_limits \<Rightarrow> (string \<Rightarrow> bool) \<Rightarrow> date \<Rightarrow> (db \<times> objects, nat) action"
where
  "ExpireStaleUploads_execute limits down now s =
     (let cutoff = now - int (pendingTtlMinutes limits) * 60000
      in sweep_files down now (findCleanupCandidates cutoff SWEEP_BATCH_SIZE (fst s)) 0 s)"

definition PURGE_BATCH_SIZE :: nat where "PURGE_BATCH_SIZE = 500"

fun purge_batch :: "(string \<Rightarrow> bool) \<Rightarrow> stored_file list \<Rightarrow> nat \<Rightarrow> (db \<times> objects, nat) action" where
  "purge_batch down [] purged s = (Inr purged, s)"
| "purge_batch down (f # fs) purged (d, objs) =
     (case remove_object down (sf_storageKey (file_row f)) objs of
        (Inl e, objs') \<Rightarrow> (Inl e, (d, objs'))
      | (Inr _, objs') \<Rightarrow> purge_batch down fs (purged + 1) (deleteById (sf_id (file_row f)) d, objs'))"

definition owned_count :: "uuid \<Rightarrow> db \<Rightarrow> nat" where
  "owned_count ownerId d = count_where (\<lambda>r. sf_ownerId r = ownerId) (storedFiles d)"

lemma purge_batch_rows:
  "purge_batch down fs n s = (r, s') \<Longrightarrow>
     \<exists>ids \<subseteq> set (map (sf_id \<circ> file_row) fs). storedFiles (fst s') = filter (\<lambda>x. sf_id x \<notin> ids) (storedFiles (fst s))
       \<and> (\<forall>v. r = Inr v \<longrightarrow> ids = set (map (sf_id \<circ> file_row) fs))"
proof (induction down fs n s rule: purge_batch.induct)
  case (1 down purged s)
  then show ?case by (auto intro: exI [of _ "{}"])
next
  case (2 down f fs purged d objs)
  show ?case
  proof (cases "down (sf_storageKey (file_row f))")
    case True
    then show ?thesis using 2(2) by (auto simp: remove_object_def intro: exI [of _ "{}"])
  next
    case False
    then have "purge_batch down fs (purged + 1)
        (deleteById (sf_id (file_row f)) d, objs(sf_storageKey (file_row f) := None)) = (r, s')"
      using 2(2) by (simp add: remove_object_def)
    from 2(1) [OF _ refl this] False obtain ids where
      "ids \<subseteq> set (map (sf_id \<circ> file_row) fs)"
      "storedFiles (fst s') = filter (\<lambda>x. sf_id x \<notin> ids) (storedFiles (deleteById (sf_id (file_row f)) d))"
      "\<forall>v. r = Inr v \<longrightarrow> ids = set (map (sf_id \<circ> file_row) fs)"
      by (auto simp: remove_object_def)
    then show ?thesis
      by (intro exI [of _ "insert (sf_id (file_row f)) ids"]) (auto simp: deleteById_def delete_where_def conj_commute)
  qed
qed

text \<open>
  \<open>PurgeUserFilesUseCase.execute\<close>: the loop ends because every batch that is deleted leaves fewer
  rows of that owner.
\<close>

lemma purge_batch_decreases:
  assumes "findAllByOwner ownerId PURGE_BATCH_SIZE d = f # fs"
    and "purge_batch down (f # fs) purged (d, objs) = (Inr n, (d', objs'))"
  shows "owned_count ownerId d' < owned_count ownerId d"
proof -
  have rows: "storedFiles d' = filter (\<lambda>x. sf_id x \<notin> set (map (sf_id \<circ> file_row) (f # fs))) (storedFiles d)"
    using purge_batch_rows [OF assms(2)] by auto
  obtain r where r: "f = rehydrate r" "r \<in> set (storedFiles d)" "sf_ownerId r = ownerId"
  proof -
    have "f \<in> set (findAllByOwner ownerId PURGE_BATCH_SIZE d)" using assms(1) by simp
    then show ?thesis using that unfolding findAllByOwner_def by (auto dest!: in_set_takeD)
  qed
  let ?p = "\<lambda>x. sf_ownerId x = ownerId"
  have "length (filter ?p (storedFiles d')) < length (filter ?p (storedFiles d))"
  proof -
    have "filter ?p (storedFiles d') = filter (\<lambda>x. sf_id x \<notin> set (map (sf_id \<circ> file_row) (f # fs))) (filter ?p (storedFiles d))"
      unfolding rows by (simp add: conj_commute)
    moreover have "r \<in> set (filter ?p (storedFiles d))" "\<not> sf_id r \<notin> set (map (sf_id \<circ> file_row) (f # fs))"
      using r by (simp_all add: rehydrate_def)
    ultimately show ?thesis using length_filter_less by metis
  qed
  then show ?thesis by (simp add: owned_count_def count_where_def)
qed

function purge_loop ::
  "(string \<Rightarrow> bool) \<Rightarrow> uuid \<Rightarrow> uuid option \<Rightarrow> nat \<Rightarrow> db \<Rightarrow> objects \<Rightarrow> (failure + nat) \<times> db \<times> objects"
where
  "purge_loop down ownerId previousHead purged d objs =
     (case findAllByOwner ownerId PURGE_BATCH_SIZE d of
        [] \<Rightarrow> (Inr purged, (d, objs))
      | f # fs \<Rightarrow>
          if Some (sf_id (file_row f)) = previousHead
          then (Inl (PlainError (''Purging stored files for owner '' @ ownerId @ '' made no progress at file ''
                  @ sf_id (file_row f) @ ''.'')), (d, objs))
          else (case purge_batch down (f # fs) purged (d, objs) of
                  (Inl e, s') \<Rightarrow> (Inl e, s')
                | (Inr purged', (d', objs')) \<Rightarrow>
                    purge_loop down ownerId (Some (sf_id (file_row f))) purged' d' objs'))"
  by pat_completeness auto

termination purge_loop
  by (relation "measure (\<lambda>(_, ownerId, _, _, d, _). owned_count ownerId d)")
     (auto simp del: purge_batch.simps intro: purge_batch_decreases [OF _ sym])

declare purge_loop.simps [simp del]

definition PurgeUserFiles_execute :: "(string \<Rightarrow> bool) \<Rightarrow> uuid \<Rightarrow> (db \<times> objects, nat) action" where
  "PurgeUserFiles_execute down ownerId s = purge_loop down ownerId None 0 (fst s) (snd s)"

section \<open>Listeners\<close>

definition PurgeFilesOnUserDeleted_handle ::
  "zod \<Rightarrow> (string \<Rightarrow> bool) \<Rightarrow> js \<Rightarrow> (db \<times> objects, nat) action"
where
  "PurgeFilesOnUserDeleted_handle z down data s =
     (case parseIntegrationEvent z USER_DELETED data of
        None \<Rightarrow> (Inl (validation VALIDATION_FAILED ''users.deleted payload did not match the published contract.''), s)
      | Some e \<Rightarrow>
          PurgeUserFiles_execute down
            (case ie_payload e of JsObj kvs \<Rightarrow> str_of (field kvs ''userId'') | _ \<Rightarrow> []) s)"

definition SweepUnconfirmedUploads_handle ::
  "upload_limits \<Rightarrow> (string \<Rightarrow> bool) \<Rightarrow> date \<Rightarrow> (db \<times> objects, nat) action"
where
  "SweepUnconfirmedUploads_handle limits down now s = ExpireStaleUploads_execute limits down now s"

section \<open>The aggregate's transitions\<close>

lemma discard_fields [simp]:
  "sf_id (file_row (discard why now f)) = sf_id (file_row f)"
  "sf_organizationId (file_row (discard why now f)) = sf_organizationId (file_row f)"
  "sf_storageKey (file_row (discard why now f)) = sf_storageKey (file_row f)"
  "sf_verifiedMimeType (file_row (discard why now f)) = sf_verifiedMimeType (file_row f)"
  "sf_verifiedSizeBytes (file_row (discard why now f)) = sf_verifiedSizeBytes (file_row f)"
  "sf_confirmedAt (file_row (discard why now f)) = sf_confirmedAt (file_row f)"
  "file_status (discard why now f) = (if file_status f = Pending then Discarded else file_status f)"
  by (simp_all add: discard_def)

lemma confirm_success_iff:
  "fst (confirm mime n now f) = Inr () \<longleftrightarrow>
     file_status f = Pending \<and> n = sf_declaredSizeBytes (file_row f)
     \<and> mime = Some (sf_declaredMimeType (file_row f)) \<and> sf_declaredMimeType (file_row f) \<in> set ALLOWED_MIME_TYPES"
  by (auto simp: confirm_def Let_def split: option.splits)

lemma confirm_transition:
  assumes "confirm mime n now f = (out, f')"
  shows "sf_id (file_row f') = sf_id (file_row f)" and "sf_organizationId (file_row f') = sf_organizationId (file_row f)"
    and "out = Inr () \<Longrightarrow> file_status f = Pending \<and> file_status f' = Confirmed
           \<and> sf_verifiedMimeType (file_row f') = mime \<and> sf_verifiedSizeBytes (file_row f') = Some n
           \<and> sf_confirmedAt (file_row f') = Some now"
    and "isl out \<Longrightarrow> file_status f = Pending \<Longrightarrow> file_status f' = Discarded"
    and "file_status f \<noteq> Pending \<Longrightarrow> f' = f"
  using assms by (auto simp: confirm_def Let_def discard_def split: option.splits if_splits)

section \<open>Filenames\<close>

lemma set_last_split: "set (last (split_on p s)) \<subseteq> {c \<in> set s. \<not> p c}"
proof -
  have "c \<in> set s" if "w \<in> set (split_on p s)" "c \<in> set w" for w c
    using that by (induction s arbitrary: w) (auto split: if_splits list.splits, fastforce+)
  moreover have "last (split_on p s) \<in> set (split_on p s)" by simp
  ultimately show ?thesis using split_on_no_sep by fastforce
qed

lemma sanitiseFilename_safe:
  assumes "sanitiseFilename raw = Inr name"
  shows "name \<noteq> []" and "length name \<le> 255" and "name \<noteq> ''.''" and "name \<noteq> ''..''"
    and "c \<in> set name \<Longrightarrow> c \<in> set raw \<and> c \<noteq> CHR ''/'' \<and> c \<noteq> CHR 0x5C \<and> c \<noteq> CHR 0x22 \<and> 32 \<le> code_unit c \<and> code_unit c \<noteq> 127"
proof -
  define base where "base = last (split_on (\<lambda>c. c = CHR 0x5C \<or> c = CHR ''/'') raw)"
  define cleaned where "cleaned = trim (stripUnsafeCharacters base)"
  have name: "name = take 255 cleaned" and ok: "cleaned \<noteq> []" "cleaned \<noteq> ''.''" "cleaned \<noteq> ''..''"
    using assms by (auto simp: sanitiseFilename_def Let_def base_def cleaned_def split: if_splits)
  show "name \<noteq> []" "length name \<le> 255" using ok(1) by (simp_all add: name)
  have short: "name = cleaned" if "length cleaned \<le> 255" using that by (simp add: name)
  have long: "length name = 255" if "\<not> length cleaned \<le> 255" using that by (simp add: name)
  show "name \<noteq> ''.''" "name \<noteq> ''..''"
    using ok(2,3) short long by (cases "length cleaned \<le> 255"; auto)+
  assume "c \<in> set name"
  then have "c \<in> set cleaned" unfolding name by (rule in_set_takeD)
  then have "c \<in> set (stripUnsafeCharacters base)" unfolding cleaned_def using set_trim_subset by blast
  then have "c \<in> set base" "32 \<le> code_unit c" "code_unit c \<noteq> 127" "c \<noteq> CHR 0x22"
    by (auto simp: stripUnsafeCharacters_def)
  then show "c \<in> set raw \<and> c \<noteq> CHR ''/'' \<and> c \<noteq> CHR 0x5C \<and> c \<noteq> CHR 0x22 \<and> 32 \<le> code_unit c \<and> code_unit c \<noteq> 127"
    using set_last_split [of "\<lambda>c. c = CHR 0x5C \<or> c = CHR ''/''" raw] unfolding base_def by auto
qed

end
