(* ===== verification/Upload_Lifecycle.thy ===== *)
theory Upload_Lifecycle
  imports Uploads
begin

text \<open>
  What the upload module guarantees: the sweep and the purge delete objects before rows, the purge
  loop removes everything an owner has, no interleaving of confirmations and sweeps loses a confirmed
  file, and one confirmation writes the row and its event together.
\<close>

section \<open>Sweeping and purging\<close>

text \<open>Object first, row second: whatever stops a run, a row is gone only when its object is.\<close>

definition object_first :: "db \<times> objects \<Rightarrow> db \<times> objects \<Rightarrow> bool" where
  "object_first s s' \<longleftrightarrow>
     (\<forall>r \<in> set (storedFiles (fst s)). sf_id r \<in> sf_id ` set (storedFiles (fst s')) \<or> snd s' (sf_storageKey r) = None)
     \<and> (\<forall>k. snd s' k = snd s k \<or> snd s' k = None)
     \<and> (\<forall>r' \<in> set (storedFiles (fst s')). \<exists>r \<in> set (storedFiles (fst s)). sf_id r = sf_id r' \<and> sf_storageKey r = sf_storageKey r')"

lemma object_first_refl [simp]: "object_first s s"
  by (auto simp: object_first_def)

lemma object_first_trans:
  assumes "object_first s s'" and "object_first s' s''" and "unique_on sf_id (storedFiles (fst s))"
  shows "object_first s s''"
proof -
  have "sf_id r \<in> sf_id ` set (storedFiles (fst s'')) \<or> snd s'' (sf_storageKey r) = None"
    if r: "r \<in> set (storedFiles (fst s))" for r
  proof (cases "sf_id r \<in> sf_id ` set (storedFiles (fst s'))")
    case True
    then obtain r' where r': "r' \<in> set (storedFiles (fst s'))" "sf_id r' = sf_id r" by force
    then obtain r0 where "r0 \<in> set (storedFiles (fst s))" "sf_id r0 = sf_id r'" "sf_storageKey r0 = sf_storageKey r'"
      using assms(1) by (auto simp: object_first_def)
    then have "sf_storageKey r' = sf_storageKey r" using unique_onD [OF assms(3) _ r] r'(2) by metis
    then show ?thesis using assms(2) r' unfolding object_first_def by metis
  next
    case False
    then have "snd s' (sf_storageKey r) = None" using assms(1) r by (auto simp: object_first_def)
    then show ?thesis using assms(2) by (metis object_first_def)
  qed
  moreover have "snd s'' k = snd s k \<or> snd s'' k = None" for k
    using assms(1,2) unfolding object_first_def by metis
  moreover have "\<exists>r \<in> set (storedFiles (fst s)). sf_id r = sf_id r'' \<and> sf_storageKey r = sf_storageKey r''"
    if "r'' \<in> set (storedFiles (fst s''))" for r''
    using assms(1,2) that unfolding object_first_def by metis
  ultimately show ?thesis by (simp add: object_first_def)
qed

lemma compareAndSave_ids:
  "map sf_id (storedFiles (snd (compareAndSave f e d))) = map sf_id (storedFiles d)"
  "map sf_storageKey (storedFiles (snd (compareAndSave f e d))) = map sf_storageKey (storedFiles d)"
  by (simp_all add: compareAndSave_def Let_def map_update_where)

lemma object_first_cas: "object_first (d, objs) (snd (compareAndSave f e d), objs)"
proof -
  have ids: "sf_id ` set (storedFiles (snd (compareAndSave f e d))) = sf_id ` set (storedFiles d)"
    using compareAndSave_ids(1) by (metis list.set_map)
  have "\<exists>r \<in> set (storedFiles d). sf_id r = sf_id r' \<and> sf_storageKey r = sf_storageKey r'"
    if "r' \<in> set (storedFiles (snd (compareAndSave f e d)))" for r'
    using that by (auto simp: compareAndSave_def Let_def set_update_where split: if_splits)
  then show ?thesis using ids by (auto simp: object_first_def)
qed

lemma object_first_remove:
  assumes "unique_on sf_id (storedFiles d)"
    and "\<forall>r \<in> set (storedFiles d). sf_id r = i \<longrightarrow> sf_storageKey r = k"
  shows "object_first (d, objs) (deleteById i d, objs(k := None))"
  using assms by (auto simp: object_first_def deleteById_def set_delete_where)

definition keys_agree :: "stored_file list \<Rightarrow> db \<Rightarrow> bool" where
  "keys_agree fs d \<longleftrightarrow> (\<forall>f \<in> set fs. \<forall>r \<in> set (storedFiles d).
     sf_id r = sf_id (file_row f) \<longrightarrow> sf_storageKey r = sf_storageKey (file_row f))"

lemma keys_agree_cas: "keys_agree fs d \<Longrightarrow> keys_agree fs (snd (compareAndSave f e d))"
  by (auto simp: keys_agree_def compareAndSave_def Let_def set_update_where split: if_splits)

lemma keys_agree_delete: "keys_agree fs d \<Longrightarrow> keys_agree fs (deleteById i d)"
  by (auto simp: keys_agree_def deleteById_def set_delete_where)

lemma unique_cas: "unique_on sf_id (storedFiles d) \<Longrightarrow> unique_on sf_id (storedFiles (snd (compareAndSave f e d)))"
  by (simp add: unique_on_def compareAndSave_ids)

lemma unique_deleteById: "unique_on sf_id (storedFiles d) \<Longrightarrow> unique_on sf_id (storedFiles (deleteById i d))"
  by (simp add: deleteById_def unique_on_delete)

lemma sweep_object_first:
  assumes "unique_on sf_id (storedFiles d)" and "keys_agree fs d"
    and "sweep_files down now fs n (d, objs) = (r, s')"
  shows "object_first (d, objs) s'"
  using assms
proof (induction fs arbitrary: d objs n)
  case (Cons f fs)
  obtain go d1 where c: "(if file_status f = Pending then compareAndSave (discard NeverUploaded now f) Pending d
      else (True, d)) = (go, d1)" by (cases "if file_status f = Pending then compareAndSave (discard NeverUploaded now f) Pending d else (True, d)")
  have d1: "d1 = d \<or> d1 = snd (compareAndSave (discard NeverUploaded now f) Pending d)"
    using c by (auto split: if_splits dest: arg_cong [of _ _ snd])
  have u1: "unique_on sf_id (storedFiles d1)" and k1: "keys_agree (f # fs) d1" and o1: "object_first (d, objs) (d1, objs)"
    using d1 Cons.prems unique_cas keys_agree_cas object_first_cas by auto
  have k: "keys_agree fs d1" using k1 by (simp add: keys_agree_def)
  consider "\<not> go" "sweep_files down now fs n (d1, objs) = (r, s')"
    | "s' = (d1, objs)"
    | "sweep_files down now fs (n + 1)
         (deleteById (sf_id (file_row f)) d1, objs(sf_storageKey (file_row f) := None)) = (r, s')"
    using Cons.prems(3) c by (auto simp: remove_object_def split: if_splits)
  then show ?case
  proof cases
    case 1
    from Cons.IH [OF u1 k 1(2)] o1 show ?thesis using object_first_trans Cons.prems(1) by fastforce
  next
    case 2
    then show ?thesis using o1 by simp
  next
    case 3
    let ?d2 = "deleteById (sf_id (file_row f)) d1" and ?o2 = "objs(sf_storageKey (file_row f) := None)"
    have "object_first (d1, objs) (?d2, ?o2)"
      by (rule object_first_remove [OF u1]) (use k1 in \<open>auto simp: keys_agree_def\<close>)
    moreover have "object_first (?d2, ?o2) s'"
      by (rule Cons.IH [OF unique_deleteById [OF u1] keys_agree_delete [OF k] 3])
    ultimately have "object_first (d1, objs) s'" using object_first_trans u1 by fastforce
    then show ?thesis using o1 object_first_trans Cons.prems(1) by fastforce
  qed
qed simp

lemma delete_update_where:
  assumes "\<And>r. p r \<Longrightarrow> sf_id r = i" and "\<And>r. sf_id (f r) = sf_id r"
  shows "delete_where (\<lambda>r. sf_id r = i) (update_where p f rows) = delete_where (\<lambda>r. sf_id r = i) rows"
  using assms by (induction rows) (auto simp: delete_where_def update_where_def)

lemma compareAndSave_rows:
  "storedFiles (snd (compareAndSave f e d)) =
     update_where (\<lambda>r. sf_id r = sf_id (file_row f) \<and> sf_organizationId r = sf_organizationId (file_row f) \<and> sf_status r = e)
       (\<lambda>r. r\<lparr>sf_verifiedMimeType := sf_verifiedMimeType (file_row f), sf_verifiedSizeBytes := sf_verifiedSizeBytes (file_row f),
              sf_status := sf_status (file_row f), sf_confirmedAt := sf_confirmedAt (file_row f)\<rparr>) (storedFiles d)"
  by (simp add: compareAndSave_def Let_def)

lemma delete_after_cas:
  assumes "sf_id (file_row f) = i"
  shows "deleteById i (snd (compareAndSave f e d)) = deleteById i d"
proof -
  have "delete_where (\<lambda>r. sf_id r = i) (storedFiles (snd (compareAndSave f e d))) = delete_where (\<lambda>r. sf_id r = i) (storedFiles d)"
    unfolding compareAndSave_rows by (rule delete_update_where) (use assms in simp_all)
  then show ?thesis by (simp add: deleteById_def compareAndSave_def Let_def)
qed

definition drop_keys :: "string set \<Rightarrow> objects \<Rightarrow> objects" where
  "drop_keys K objs = (\<lambda>k. if k \<in> K then None else objs k)"

lemma drop_keys_insert: "drop_keys K (objs(k := None)) = drop_keys (insert k K) objs"
  by (auto simp: drop_keys_def)

lemma drop_keys_twice: "drop_keys A (drop_keys B objs) = drop_keys (A \<union> B) objs"
  by (auto simp: drop_keys_def)

lemma drop_keys_empty [simp]: "drop_keys {} objs = objs"
  by (simp add: drop_keys_def)

lemma drop_rows: "d\<lparr>storedFiles := filter p (storedFiles (deleteById i d))\<rparr> = d\<lparr>storedFiles := filter (\<lambda>r. p r \<and> sf_id r \<noteq> i) (storedFiles d)\<rparr>"
  by (simp add: deleteById_def delete_where_def conj_commute)

text \<open>With the object store up, a sweep removes exactly the files it was given.\<close>

lemma sweep_up:
  assumes "unique_on sf_id (storedFiles d)" and "distinct (map sf_id rs)" and "set rs \<subseteq> set (storedFiles d)"
    and "\<forall>r \<in> set rs. sf_status r \<noteq> Confirmed"
  shows "sweep_files (\<lambda>_. False) now (map rehydrate rs) n (d, objs) =
    (Inr (n + length rs), (d\<lparr>storedFiles := filter (\<lambda>r. sf_id r \<notin> sf_id ` set rs) (storedFiles d)\<rparr>,
      drop_keys (sf_storageKey ` set rs) objs))"
  using assms
proof (induction rs arbitrary: d objs n)
  case (Cons r rs)
  let ?f = "discard NeverUploaded now (rehydrate r)"
  have r: "r \<in> set (storedFiles d)" using Cons.prems(3) by simp
  have other: "sf_id x \<noteq> sf_id r" if "x \<in> set rs" for x
    using Cons.prems(2) that by (metis distinct.simps(2) image_eqI list.set_map list.simps(9))
  have cas: "fst (compareAndSave ?f Pending d)" if "sf_status r = Pending"
    using count_where_unique [OF Cons.prems(1) r, of "\<lambda>x. sf_id x = sf_id r \<and> sf_organizationId x = sf_organizationId r \<and> sf_status x = Pending"] that
    by (simp add: compareAndSave_def Let_def rehydrate_def)
  have del: "deleteById (sf_id r) (snd (compareAndSave ?f Pending d)) = deleteById (sf_id r) d"
    by (rule delete_after_cas) (simp add: rehydrate_def)
  have "sweep_files (\<lambda>_. False) now (map rehydrate (r # rs)) n (d, objs) =
      sweep_files (\<lambda>_. False) now (map rehydrate rs) (n + 1) (deleteById (sf_id r) d, objs(sf_storageKey r := None))"
    using cas del by (cases "compareAndSave ?f Pending d")
      (auto simp: remove_object_def rehydrate_def split: if_splits)
  also have "\<dots> = (Inr (n + 1 + length rs),
      ((deleteById (sf_id r) d)\<lparr>storedFiles := filter (\<lambda>x. sf_id x \<notin> sf_id ` set rs) (storedFiles (deleteById (sf_id r) d))\<rparr>,
       drop_keys (sf_storageKey ` set rs) (objs(sf_storageKey r := None))))"
    by (rule Cons.IH [OF unique_deleteById [OF Cons.prems(1)]])
       (use Cons.prems other in \<open>auto simp: deleteById_def set_delete_where\<close>)
  finally show ?case
    by (simp add: drop_keys_insert deleteById_def delete_where_def conj_commute)
qed simp

lemma purge_batch_up:
  "purge_batch (\<lambda>_. False) (map rehydrate rs) n (d, objs) =
    (Inr (n + length rs), (d\<lparr>storedFiles := filter (\<lambda>r. sf_id r \<notin> sf_id ` set rs) (storedFiles d)\<rparr>,
      drop_keys (sf_storageKey ` set rs) objs))"
proof (induction rs arbitrary: d objs n)
  case (Cons r rs)
  then show ?case
    by (simp add: remove_object_def rehydrate_def drop_keys_insert deleteById_def delete_where_def conj_commute)
qed simp

section \<open>The purge loop\<close>

lemma findAllByOwner_rows:
  "findAllByOwner owner n d = map rehydrate rs \<Longrightarrow> set rs \<subseteq> {r \<in> set (storedFiles d). sf_ownerId r = owner}"
proof -
  assume a: "findAllByOwner owner n d = map rehydrate rs"
  have "rs = take n (order_by sf_createdAt (filter (\<lambda>r. sf_ownerId r = owner) (storedFiles d)))"
    using a unfolding findAllByOwner_def by (rule inj_map_eq_map [THEN iffD1, symmetric, rotated]) (auto simp: inj_def rehydrate_def)
  then show ?thesis by (auto dest!: in_set_takeD)
qed

text \<open>Removing a batch of an owner's rows leaves the rest of the owner's rows, and every other row.\<close>

lemma owner_batch:
  assumes u: "unique_on sf_id (storedFiles d)" and sub: "set rs \<subseteq> {r \<in> set (storedFiles d). sf_ownerId r = owner}" and dist: "distinct rs"
  defines "d' \<equiv> d\<lparr>storedFiles := filter (\<lambda>x. sf_id x \<notin> sf_id ` set rs) (storedFiles d)\<rparr>"
  shows "length rs + owned_count owner d' = owned_count owner d"
    and "filter (\<lambda>r. sf_ownerId r \<noteq> owner) (storedFiles d') = filter (\<lambda>r. sf_ownerId r \<noteq> owner) (storedFiles d)"
    and "drop_keys (sf_storageKey ` {r \<in> set (storedFiles d'). sf_ownerId r = owner}) (drop_keys (sf_storageKey ` set rs) objs)
        = drop_keys (sf_storageKey ` {r \<in> set (storedFiles d). sf_ownerId r = owner}) objs"
proof -
  let ?own = "\<lambda>r. sf_ownerId r = owner"
  have gone: "x \<in> set rs \<longleftrightarrow> sf_id x \<in> sf_id ` set rs" if "x \<in> set (storedFiles d)" for x
    using that sub unique_onD [OF u that] by blast
  have "filter ?own (storedFiles d') = filter (\<lambda>x. x \<notin> set rs) (filter ?own (storedFiles d))"
    using gone by (auto simp: d'_def intro!: filter_cong)
  moreover have "length (filter (\<lambda>x. x \<in> set rs) (filter ?own (storedFiles d))) = card (set rs)"
    by (rule length_filter_set) (use u sub in \<open>auto simp: unique_on_def distinct_map\<close>)
  ultimately show "length rs + owned_count owner d' = owned_count owner d"
    using length_filter_partition [of "\<lambda>x. x \<in> set rs" "filter ?own (storedFiles d)"] distinct_card [OF dist]
    by (simp add: owned_count_def count_where_def)
  show "filter (\<lambda>r. \<not> ?own r) (storedFiles d') = filter (\<lambda>r. \<not> ?own r) (storedFiles d)"
    using gone sub by (auto simp: d'_def intro!: filter_cong)
  have "{r \<in> set (storedFiles d). ?own r} = {r \<in> set (storedFiles d'). ?own r} \<union> set rs"
    using gone sub by (auto simp: d'_def)
  then show "drop_keys (sf_storageKey ` {r \<in> set (storedFiles d'). ?own r}) (drop_keys (sf_storageKey ` set rs) objs)
      = drop_keys (sf_storageKey ` {r \<in> set (storedFiles d). ?own r}) objs"
    by (simp only: drop_keys_twice image_Un)
qed

lemma purge_loop_up:
  assumes "unique_on sf_id (storedFiles d)"
    and "\<forall>r \<in> set (storedFiles d). sf_ownerId r = owner \<longrightarrow> Some (sf_id r) \<noteq> prev"
  shows "purge_loop (\<lambda>_. False) owner prev n d objs =
    (Inr (n + owned_count owner d), (d\<lparr>storedFiles := filter (\<lambda>r. sf_ownerId r \<noteq> owner) (storedFiles d)\<rparr>,
      drop_keys (sf_storageKey ` {r \<in> set (storedFiles d). sf_ownerId r = owner}) objs))"
  using assms
proof (induction "owned_count owner d" arbitrary: prev n d objs rule: less_induct)
  case less
  let ?own = "\<lambda>r. sf_ownerId r = owner"
  define rs where "rs = take PURGE_BATCH_SIZE (order_by sf_createdAt (filter ?own (storedFiles d)))"
  have found: "findAllByOwner owner PURGE_BATCH_SIZE d = map rehydrate rs" by (simp add: findAllByOwner_def rs_def)
  note sub = findAllByOwner_rows [OF found]
  show ?case
  proof (cases rs)
    case Nil
    then have none: "filter ?own (storedFiles d) = []"
      by (auto simp: rs_def PURGE_BATCH_SIZE_def order_by_def dest: arg_cong [of _ _ length])
    then have all: "filter (\<lambda>r. sf_ownerId r \<noteq> owner) (storedFiles d) = storedFiles d" and "{r \<in> set (storedFiles d). ?own r} = {}"
      by (auto simp: filter_empty_conv filter_id_conv)
    then have keep: "drop_keys (sf_storageKey ` {r \<in> set (storedFiles d). ?own r}) objs = objs"
      by (simp only: image_empty drop_keys_empty)
    show ?thesis using found Nil none all
      by (simp add: purge_loop.simps [of "\<lambda>_. False"] owned_count_def count_where_def keep del: Collect_empty_eq)
  next
    case (Cons r rs')
    let ?gone = "sf_id ` set rs"
    let ?d' = "d\<lparr>storedFiles := filter (\<lambda>x. sf_id x \<notin> ?gone) (storedFiles d)\<rparr>"
    have head: "Some (sf_id r) \<noteq> prev" using less.prems(2) sub Cons by auto
    have batch: "purge_batch (\<lambda>_. False) (map rehydrate rs) n (d, objs) = (Inr (n + length rs), (?d', drop_keys (sf_storageKey ` set rs) objs))"
      by (rule purge_batch_up)
    have step: "purge_loop (\<lambda>_. False) owner prev n d objs =
        purge_loop (\<lambda>_. False) owner (Some (sf_id r)) (n + length rs) ?d' (drop_keys (sf_storageKey ` set rs) objs)"
      using found head batch unfolding Cons
      by (subst purge_loop.simps) (simp add: rehydrate_def del: purge_batch.simps)
    have fewer: "owned_count owner ?d' < owned_count owner d"
      by (rule purge_batch_decreases [of owner d "rehydrate r" "map rehydrate rs'"]) (use found batch Cons in simp_all)
    have "distinct rs" using less.prems(1) by (auto simp: rs_def order_by_def unique_on_def distinct_map)
    note rest = owner_batch [OF less.prems(1) sub this]
    have "purge_loop (\<lambda>_. False) owner (Some (sf_id r)) (n + length rs) ?d' (drop_keys (sf_storageKey ` set rs) objs) =
      (Inr (n + length rs + owned_count owner ?d'), (?d'\<lparr>storedFiles := filter (\<lambda>r. sf_ownerId r \<noteq> owner) (storedFiles ?d')\<rparr>,
        drop_keys (sf_storageKey ` {r \<in> set (storedFiles ?d'). ?own r}) (drop_keys (sf_storageKey ` set rs) objs)))"
    proof (rule less.hyps [OF fewer])
      show "unique_on sf_id (storedFiles ?d')" using less.prems(1) by (simp add: unique_on_def distinct_map_filter)
      show "\<forall>x \<in> set (storedFiles ?d'). ?own x \<longrightarrow> Some (sf_id x) \<noteq> Some (sf_id r)" using Cons by auto
    qed
    then show ?thesis using step rest by simp
  qed
qed

section \<open>Confirming while sweeping\<close>

text \<open>
  Clients, confirmations and sweeps interleaved statement by statement. \<open>loaded\<close> holds every row a
  confirmation or a sweep has read so far, however stale; \<open>doomed\<close> holds the rows a sweep has
  decided to remove, because it read them as discarded or won the compare-and-set.
\<close>

record upload_state =
  us_db :: db
  us_objects :: objects
  us_loaded :: "stored_file_row list"
  us_doomed :: "stored_file_row list"

inductive file_step :: "upload_state \<Rightarrow> upload_state \<Rightarrow> bool" where
  presign: "StoredFile_presign newId now org owner filename mime n limit = Inr f \<Longrightarrow>
    CHR ''/'' \<notin> set newId \<Longrightarrow> newId \<notin> sf_id ` (set (us_loaded s) \<union> set (us_doomed s)) \<Longrightarrow>
    save_file f (us_db s) = (Inr (), d) \<Longrightarrow> file_step s (s\<lparr>us_db := d\<rparr>)"
| put: "file_step s (s\<lparr>us_objects := (us_objects s)(k := Some obj)\<rparr>)"
| load: "r \<in> set (storedFiles (us_db s)) \<Longrightarrow> file_step s (s\<lparr>us_loaded := r # us_loaded s\<rparr>)"
| commit: "r \<in> set (us_loaded s) \<Longrightarrow> confirm mime' n' now (rehydrate r) = (out, f) \<Longrightarrow>
    confirm_commit z i now cid (out, sf_status r, f) (us_db s) = (res, d) \<Longrightarrow> file_step s (s\<lparr>us_db := d\<rparr>)"
| claim: "r \<in> set (us_loaded s) \<Longrightarrow> sf_status r = Pending \<Longrightarrow>
    compareAndSave (discard NeverUploaded now (rehydrate r)) Pending (us_db s) = (True, d) \<Longrightarrow>
    file_step s (s\<lparr>us_db := d, us_doomed := r # us_doomed s\<rparr>)"
| condemn: "r \<in> set (us_loaded s) \<Longrightarrow> sf_status r = Discarded \<Longrightarrow> file_step s (s\<lparr>us_doomed := r # us_doomed s\<rparr>)"
| remove: "r \<in> set (us_doomed s) \<Longrightarrow> remove_object down (sf_storageKey r) (us_objects s) = (u, objs) \<Longrightarrow>
    file_step s (s\<lparr>us_objects := objs\<rparr>)"
| delete: "r \<in> set (us_doomed s) \<Longrightarrow> file_step s (s\<lparr>us_db := deleteById (sf_id r) (us_db s)\<rparr>)"

definition key_ok :: "stored_file_row \<Rightarrow> bool" where
  "key_ok r \<longleftrightarrow> CHR ''/'' \<notin> set (sf_id r) \<and> sf_storageKey r = storage_key (sf_organizationId r) (sf_ownerId r) (sf_id r)"

definition dead :: "db \<Rightarrow> stored_file_row \<Rightarrow> bool" where
  "dead d r \<longleftrightarrow> (\<forall>x \<in> set (storedFiles d). sf_id x = sf_id r \<longrightarrow> sf_status x = Discarded)"

definition file_inv :: "upload_state \<Rightarrow> bool" where
  "file_inv s \<longleftrightarrow> unique_on sf_id (storedFiles (us_db s))
     \<and> (\<forall>r \<in> set (storedFiles (us_db s)) \<union> set (us_loaded s) \<union> set (us_doomed s). key_ok r)
     \<and> (\<forall>r \<in> set (us_doomed s). dead (us_db s) r)
     \<and> (\<forall>r \<in> set (us_loaded s). sf_status r = Discarded \<longrightarrow> dead (us_db s) r)"

lemma storage_key_id:
  assumes "key_ok r" and "key_ok r'" and "sf_storageKey r = sf_storageKey r'"
  shows "sf_id r = sf_id r'"
proof -
  have "takeWhile (\<lambda>c. c \<noteq> CHR ''/'') (rev (storage_key g u i)) = rev i" if "CHR ''/'' \<notin> set i" for g u i
    using that by (simp add: storage_key_def takeWhile_append)
  then show ?thesis using assms unfolding key_ok_def by (metis rev_rev_ident)
qed

lemma confirm_commit_cases:
  assumes run: "confirm_commit z i now cid (out, prev, f) d = (res, d')"
  shows "storedFiles d' = storedFiles d \<or>
    (storedFiles d' = storedFiles (snd (compareAndSave f prev d)) \<and> (isl out \<longrightarrow> file_status f = Discarded))"
proof (cases out)
  case (Inl e)
  then show ?thesis using run by (auto simp: confirm_commit_def split: if_splits)
next
  case (Inr u)
  obtain stored d1 where cas: "compareAndSave f prev d = (stored, d1)" by (cases "compareAndSave f prev d")
  let ?body = "\<lambda>d. let (stored, d1) = compareAndSave f prev d in
        if \<not> stored then (Inl (conflict UPLOAD_ALREADY_CONFIRMED ''This upload was already confirmed.'' True), d1)
        else publishAll z (toIntegrationEvents i now cid f) d1"
  obtain w where "transaction False ?body d = (w, d')"
    using run Inr by (auto simp: confirm_commit_def split: prod.splits sum.splits)
  from transaction_cases [OF this] show ?thesis
    using cas Inr by (auto split: if_splits dest!: publishAll_outbox)
qed

lemma confirm_commit_ids:
  "confirm_commit z i now cid (out, prev, f) d = (res, d') \<Longrightarrow> map sf_id (storedFiles d') = map sf_id (storedFiles d)"
  using confirm_commit_cases compareAndSave_ids(1) by metis

text \<open>What a commit may write: only rows in the state it read, and only towards confirmed or discarded.\<close>

lemma confirm_commit_rows:
  assumes c: "confirm mime n now (rehydrate r) = (out, f)"
    and run: "confirm_commit z i now' cid (out, sf_status r, f) d = (res, d')"
    and x': "x' \<in> set (storedFiles d')"
  shows "\<exists>x \<in> set (storedFiles d). sf_id x' = sf_id x \<and> (key_ok x \<longrightarrow> key_ok x') \<and>
    (x' = x \<or> (sf_id x = sf_id r \<and> sf_status x = sf_status r \<and> sf_status r \<noteq> Confirmed
       \<and> (sf_status r = Discarded \<longrightarrow> sf_status x' = Discarded)))"
proof -
  note t = confirm_transition [OF c]
  have ids: "sf_id (file_row f) = sf_id r" using t(1) by (simp add: rehydrate_def)
  have conf: "file_status f = Confirmed" if "isl out" "sf_status r = Confirmed" using t(5) that by (simp add: rehydrate_def)
  have pend: "sf_status r = Pending" if "\<not> isl out" using t(3) that by (cases out) (simp_all add: rehydrate_def)
  have disc: "file_status f = Discarded" if "sf_status r = Discarded" using t(5) that by (simp add: rehydrate_def)
  have "storedFiles d' = storedFiles d \<or>
      (storedFiles d' = storedFiles (snd (compareAndSave f (sf_status r) d)) \<and> sf_status r \<noteq> Confirmed
       \<and> (sf_status r = Discarded \<longrightarrow> file_status f = Discarded))"
    using confirm_commit_cases [OF run] conf pend disc by (cases "isl out") auto
  then show ?thesis
  proof (elim disjE conjE)
    assume "storedFiles d' = storedFiles d"
    then show ?thesis using x' by auto
  next
    assume a: "storedFiles d' = storedFiles (snd (compareAndSave f (sf_status r) d))" "sf_status r \<noteq> Confirmed"
      "sf_status r = Discarded \<longrightarrow> file_status f = Discarded"
    let ?p = "\<lambda>x. sf_id x = sf_id (file_row f) \<and> sf_organizationId x = sf_organizationId (file_row f) \<and> sf_status x = sf_status r"
    let ?g = "\<lambda>x. x\<lparr>sf_verifiedMimeType := sf_verifiedMimeType (file_row f), sf_verifiedSizeBytes := sf_verifiedSizeBytes (file_row f),
        sf_status := sf_status (file_row f), sf_confirmedAt := sf_confirmedAt (file_row f)\<rparr>"
    obtain x where x: "x \<in> set (storedFiles d)" "x' = (if ?p x then ?g x else x)"
      using x' unfolding a(1) compareAndSave_rows set_update_where by blast
    show ?thesis
    proof (rule bexI [OF _ x(1)], cases "?p x")
      case True
      then have "x' = ?g x" using x(2) by simp
      then show "sf_id x' = sf_id x \<and> (key_ok x \<longrightarrow> key_ok x') \<and>
        (x' = x \<or> (sf_id x = sf_id r \<and> sf_status x = sf_status r \<and> sf_status r \<noteq> Confirmed
         \<and> (sf_status r = Discarded \<longrightarrow> sf_status x' = Discarded)))"
        using True ids a(2,3) by (simp add: key_ok_def)
    qed (use x(2) in auto)
  qed
qed

lemma file_inv_rows:
  assumes inv: "file_inv s" and u: "unique_on sf_id (storedFiles d)"
    and rows: "\<And>x'. x' \<in> set (storedFiles d) \<Longrightarrow> \<exists>x \<in> set (storedFiles (us_db s)). sf_id x' = sf_id x
      \<and> (key_ok x \<longrightarrow> key_ok x') \<and> (sf_status x = Discarded \<longrightarrow> sf_status x' = Discarded)"
  shows "file_inv (s\<lparr>us_db := d\<rparr>)"
proof -
  have keys: "key_ok x'" if "x' \<in> set (storedFiles d)" for x'
    using rows [OF that] inv by (auto simp: file_inv_def)
  have settled: "dead d r" if "dead (us_db s) r" for r
    unfolding dead_def using rows that unfolding dead_def by metis
  show ?thesis using inv u keys settled by (auto simp: file_inv_def)
qed

lemma save_file_rows:
  "save_file f d = (Inr (), d') \<Longrightarrow> storedFiles d' = storedFiles d @ [file_row f]
     \<and> sf_id (file_row f) \<notin> sf_id ` set (storedFiles d)"
  by (auto simp: save_file_def insert_unique_Inr split: sum.splits)

lemma presign_row:
  "StoredFile_presign newId now g u name mime n limit = Inr f \<Longrightarrow>
     sf_id (file_row f) = newId \<and> file_status f = Pending
     \<and> sf_storageKey (file_row f) = storage_key (sf_organizationId (file_row f)) (sf_ownerId (file_row f)) newId"
  by (auto simp: StoredFile_presign_def split: if_splits sum.splits)

lemma file_inv_add:
  assumes inv: "file_inv s" and r: "key_ok r" "sf_id r \<notin> sf_id ` set (storedFiles (us_db s))"
    "sf_id r \<notin> sf_id ` (set (us_loaded s) \<union> set (us_doomed s))" and d: "storedFiles d = storedFiles (us_db s) @ [r]"
  shows "file_inv (s\<lparr>us_db := d\<rparr>)"
proof -
  have "dead d y" if "y \<in> set (us_loaded s) \<union> set (us_doomed s)" "dead (us_db s) y" for y
  proof -
    have "sf_id r \<noteq> sf_id y" using r(3) that(1) by (metis image_eqI)
    then show ?thesis using that(2) by (auto simp: dead_def d)
  qed
  then show ?thesis using inv r(1,2) by (auto simp: file_inv_def d unique_on_append)
qed

lemma file_inv_claim:
  assumes inv: "file_inv s" and r: "r \<in> set (us_loaded s)" "sf_status r = Pending"
    and cas: "compareAndSave (discard NeverUploaded now (rehydrate r)) Pending (us_db s) = (True, d)"
  shows "file_inv (s\<lparr>us_db := d, us_doomed := r # us_doomed s\<rparr>)"
proof -
  let ?f = "discard NeverUploaded now (rehydrate r)"
  have f: "sf_id (file_row ?f) = sf_id r" "file_status ?f = Discarded" "sf_organizationId (file_row ?f) = sf_organizationId r"
    using r(2) by (simp_all add: rehydrate_def)
  have rows: "storedFiles d = storedFiles (snd (compareAndSave ?f Pending (us_db s)))" using cas by simp
  have u: "unique_on sf_id (storedFiles (us_db s))" using inv by (simp add: file_inv_def)
  have u': "unique_on sf_id (storedFiles d)" unfolding rows by (rule unique_cas [OF u])
  have inv': "file_inv (s\<lparr>us_db := d\<rparr>)"
  proof (rule file_inv_rows [OF inv u'])
    fix x' assume "x' \<in> set (storedFiles d)"
    then obtain x where "x \<in> set (storedFiles (us_db s))"
      "x' = (if sf_id x = sf_id r \<and> sf_organizationId x = sf_organizationId r \<and> sf_status x = Pending
        then x\<lparr>sf_verifiedMimeType := sf_verifiedMimeType (file_row ?f), sf_verifiedSizeBytes := sf_verifiedSizeBytes (file_row ?f),
              sf_status := Discarded, sf_confirmedAt := sf_confirmedAt (file_row ?f)\<rparr> else x)"
      unfolding rows compareAndSave_rows set_update_where f by blast
    then show "\<exists>x \<in> set (storedFiles (us_db s)). sf_id x' = sf_id x \<and> (key_ok x \<longrightarrow> key_ok x')
        \<and> (sf_status x = Discarded \<longrightarrow> sf_status x' = Discarded)"
      by (intro bexI [of _ x]) (auto simp: key_ok_def)
  qed
  have "sf_status x' = Discarded" if x': "x' \<in> set (storedFiles d)" "sf_id x' = sf_id r" for x'
  proof -
    let ?p = "\<lambda>x. sf_id x = sf_id r \<and> sf_organizationId x = sf_organizationId r \<and> sf_status x = Pending"
    have "count_where ?p (storedFiles (us_db s)) = 1"
      using cas f by (simp add: compareAndSave_def Let_def)
    then obtain y where y: "y \<in> set (storedFiles (us_db s))" "?p y" using count_where_pos [of ?p] by force
    let ?y = "y\<lparr>sf_verifiedMimeType := sf_verifiedMimeType (file_row ?f), sf_verifiedSizeBytes := sf_verifiedSizeBytes (file_row ?f),
              sf_status := Discarded, sf_confirmedAt := sf_confirmedAt (file_row ?f)\<rparr>"
    have "?y \<in> set (storedFiles d)" unfolding rows compareAndSave_rows set_update_where f using y by force
    then have "x' = ?y" using unique_onD [OF u' x'(1)] x'(2) y(2) by simp
    then show ?thesis by simp
  qed
  then have "dead d r" by (simp add: dead_def)
  moreover have "key_ok r" using inv r(1) by (auto simp: file_inv_def)
  ultimately show ?thesis using inv' by (auto simp: file_inv_def)
qed

lemma file_inv_step: "file_step s s' \<Longrightarrow> file_inv s \<Longrightarrow> file_inv s'"
proof (induction rule: file_step.induct)
  case (presign newId now org owner filename mime n limit f s d)
  note r = presign_row [OF presign(1)]
  note rows = save_file_rows [OF presign(4)]
  have "key_ok (file_row f)" using r presign(2) by (simp add: key_ok_def)
  then show ?case using file_inv_add [OF presign(5), of "file_row f" d] r rows presign(3) by simp
next
  case (load r s)
  have "dead (us_db s) r" if "sf_status r = Discarded"
    unfolding dead_def
  proof (intro ballI impI)
    fix x assume x: "x \<in> set (storedFiles (us_db s))" "sf_id x = sf_id r"
    have "unique_on sf_id (storedFiles (us_db s))" using load(2) by (simp add: file_inv_def)
    from unique_onD [OF this x(1) load(1) x(2)] show "sf_status x = Discarded" using that by simp
  qed
  then show ?case using load by (auto simp: file_inv_def)
next
  case (commit r s mime n now out f z i cid res d)
  have u: "unique_on sf_id (storedFiles d)"
  proof -
    have "map sf_id (storedFiles d) = map sf_id (storedFiles (us_db s))" by (rule confirm_commit_ids [OF commit(3)])
    then show ?thesis using commit(4) by (simp add: file_inv_def unique_on_def)
  qed
  show ?case
  proof (rule file_inv_rows [OF commit(4) u])
    fix x' assume "x' \<in> set (storedFiles d)"
    from confirm_commit_rows [OF commit(2,3) this]
    show "\<exists>x \<in> set (storedFiles (us_db s)). sf_id x' = sf_id x \<and> (key_ok x \<longrightarrow> key_ok x')
        \<and> (sf_status x = Discarded \<longrightarrow> sf_status x' = Discarded)" by metis
  qed
next
  case (claim r s now d)
  then show ?case by (intro file_inv_claim)
next
  case (condemn r s)
  then show ?case by (auto simp: file_inv_def)
next
  case (delete r s)
  have "unique_on sf_id (storedFiles (deleteById (sf_id r) (us_db s)))"
    using delete(2) by (intro unique_deleteById) (simp add: file_inv_def)
  then show ?case
    by (intro file_inv_rows [OF delete(2)]) (auto simp: deleteById_def set_delete_where)
qed (simp_all add: file_inv_def)

text \<open>A confirmed row and its object survive every step.\<close>

lemma confirmed_survives_step:
  assumes "file_step s s'" and "file_inv s"
    and "x \<in> set (storedFiles (us_db s))" "sf_status x = Confirmed" "us_objects s (sf_storageKey x) \<noteq> None"
  shows "x \<in> set (storedFiles (us_db s')) \<and> us_objects s' (sf_storageKey x) \<noteq> None"
  using assms
proof (induction rule: file_step.induct)
  case (presign newId now org owner filename mime n limit f s d)
  then show ?case using save_file_rows [OF presign(4)] by simp
next
  case (commit r s mime n now out f z i cid res d)
  have "x \<in> set (storedFiles d)"
  proof -
    have "sf_id x \<in> sf_id ` set (storedFiles d)"
    proof -
      have "map sf_id (storedFiles d) = map sf_id (storedFiles (us_db s))" by (rule confirm_commit_ids [OF commit(3)])
      then show ?thesis using commit(5) by (metis image_eqI list.set_map)
    qed
    then obtain x' where x': "x' \<in> set (storedFiles d)" "sf_id x' = sf_id x" by force
    from confirm_commit_rows [OF commit(2,3) x'(1)] obtain y where y: "y \<in> set (storedFiles (us_db s))" "sf_id x' = sf_id y"
      "x' = y \<or> (sf_status y = sf_status r \<and> sf_status r \<noteq> Confirmed)" by blast
    have "y = x" using unique_onD [of sf_id "storedFiles (us_db s)" y x] y(1,2) x'(2) commit(4,5) by (simp add: file_inv_def)
    then show ?thesis using y(3) x'(1) commit(6) by auto
  qed
  then show ?case using commit by simp
next
  case (claim r s now d)
  have "d = snd (compareAndSave (discard NeverUploaded now (rehydrate r)) Pending (us_db s))" using claim(3) by simp
  then have "x \<in> set (storedFiles d)"
    using claim(5,6) unfolding compareAndSave_rows by (force simp: compareAndSave_rows set_update_where)
  then show ?case using claim by simp
next
  case (remove r s down u objs)
  have "sf_storageKey r \<noteq> sf_storageKey x"
  proof
    assume "sf_storageKey r = sf_storageKey x"
    then have "sf_id x = sf_id r" using storage_key_id [of r x] remove by (auto simp: file_inv_def)
    moreover have "dead (us_db s) r" using remove by (auto simp: file_inv_def)
    ultimately show False using remove by (auto simp: dead_def)
  qed
  then show ?case using remove by (auto simp: remove_object_def split: if_splits)
next
  case (delete r s)
  have "dead (us_db s) r" using delete by (auto simp: file_inv_def)
  then have "sf_id x \<noteq> sf_id r" using delete by (auto simp: dead_def)
  then show ?case using delete by (simp add: deleteById_def set_delete_where)
qed auto

lemma confirmed_survives:
  assumes "file_step\<^sup>*\<^sup>* s s'" and "file_inv s"
    and "x \<in> set (storedFiles (us_db s))" "sf_status x = Confirmed" "us_objects s (sf_storageKey x) \<noteq> None"
  shows "x \<in> set (storedFiles (us_db s')) \<and> us_objects s' (sf_storageKey x) \<noteq> None"
proof -
  have "file_inv s' \<and> x \<in> set (storedFiles (us_db s')) \<and> us_objects s' (sf_storageKey x) \<noteq> None"
    using assms(1)
  proof (induction rule: rtranclp_induct)
    case (step y z)
    then show ?case using file_inv_step [OF step(2)] confirmed_survives_step [OF step(2), of x] assms(4) by simp
  qed (use assms in simp)
  then show ?thesis by simp
qed

lemma file_inv_run: "file_step\<^sup>*\<^sup>* s s' \<Longrightarrow> file_inv s \<Longrightarrow> file_inv s'"
  by (induction rule: rtranclp_induct) (auto intro: file_inv_step)

section \<open>One confirmation\<close>

definition confirmed_row :: "int \<Rightarrow> string \<Rightarrow> date \<Rightarrow> stored_file_row \<Rightarrow> stored_file_row" where
  "confirmed_row n m now r =
     r\<lparr>sf_verifiedMimeType := Some m, sf_verifiedSizeBytes := Some n, sf_status := Confirmed, sf_confirmedAt := Some now\<rparr>"

definition confirmation_event :: "uuid \<Rightarrow> date \<Rightarrow> uuid option \<Rightarrow> int \<Rightarrow> string \<Rightarrow> stored_file_row \<Rightarrow> integration_event" where
  "confirmation_event newId now cid n m r =
     createIntegrationEvent newId now UPLOAD_CONFIRMED
       (confirmed_payload \<lparr>ce_fileId = sf_id r, ce_organizationId = sf_organizationId r, ce_ownerId = sf_ownerId r,
          ce_storageKey = sf_storageKey r, ce_mimeType = m, ce_sizeBytes = n, ce_confirmedAt = now\<rparr>) cid"

lemma confirm_ok:
  assumes "confirm mime n now (rehydrate r) = (Inr (), f)"
  shows "sf_status r = Pending \<and> n = sf_declaredSizeBytes r \<and> mime = Some (sf_declaredMimeType r)
    \<and> sf_declaredMimeType r \<in> set ALLOWED_MIME_TYPES \<and> file_row f = confirmed_row n (sf_declaredMimeType r) now r
    \<and> toIntegrationEvents i now cid f = [confirmation_event i now cid n (sf_declaredMimeType r) r]"
  using assms
  by (auto simp: confirm_def Let_def rehydrate_def confirmed_row_def confirmation_event_def toIntegrationEvents_def
      pullEvents_def split: option.splits if_splits)

lemma cas_confirmed:
  assumes "unique_on sf_id (storedFiles d)" and r: "r \<in> set (storedFiles d)" and f: "file_row f = confirmed_row n m now r"
  shows "storedFiles (snd (compareAndSave f (sf_status r) d)) = update_where (\<lambda>x. sf_id x = sf_id r) (confirmed_row n m now) (storedFiles d)"
proof -
  have "(sf_id x = sf_id r \<and> sf_organizationId x = sf_organizationId r \<and> sf_status x = sf_status r) \<longleftrightarrow> sf_id x = sf_id r"
    if "x \<in> set (storedFiles d)" for x
    using unique_onD [OF assms(1) that r] by auto
  then show ?thesis unfolding compareAndSave_rows f update_where_def
    by (auto simp: confirmed_row_def)
qed

lemma publishAll_rows:
  assumes "publishAll z [e] d = (Inr (), d')"
  shows "\<exists>p. toJsonObject (ie_payload e) = Inr p
    \<and> d' = d\<lparr>outbox := fst (insert_skip ob_eventId (outbox_insert_row e p) (outbox d))\<rparr>"
  using assms by (auto simp: publishAll_def split: sum.splits)

lemma confirm_failed:
  assumes "confirm mime n now (rehydrate r) = (Inl e, f)"
  shows "(f = rehydrate r \<and> sf_status r \<noteq> Pending) \<or> (sf_status r = Pending \<and> file_row f = r\<lparr>sf_status := Discarded\<rparr>)"
  using assms
  by (auto simp: confirm_def Let_def rehydrate_def discard_def split: option.splits if_splits)

lemma cas_same:
  assumes u: "unique_on sf_id (storedFiles d)" and r: "r \<in> set (storedFiles d)" and f: "file_row f = r\<lparr>sf_status := st\<rparr>"
  shows "snd (compareAndSave f (sf_status r) d) = d\<lparr>storedFiles :=
    update_where (\<lambda>x. sf_id x = sf_id r \<and> sf_organizationId x = sf_organizationId r \<and> sf_status x = sf_status r)
      (\<lambda>x. x\<lparr>sf_status := st\<rparr>) (storedFiles d)\<rparr>"
proof -
  have "x\<lparr>sf_verifiedMimeType := sf_verifiedMimeType r, sf_verifiedSizeBytes := sf_verifiedSizeBytes r,
      sf_status := st, sf_confirmedAt := sf_confirmedAt r\<rparr> = x\<lparr>sf_status := st\<rparr>"
    if "x \<in> set (storedFiles d)" "sf_id x = sf_id r" for x
    using unique_onD [OF u that(1) r that(2)] by simp
  then show ?thesis unfolding compareAndSave_def Let_def f update_where_def
    by (auto intro!: arg_cong [of _ _ "\<lambda>rows. d\<lparr>storedFiles := rows\<rparr>"] map_cong)
qed

lemma confirm_commit_failed:
  assumes c: "confirm mime n now (rehydrate r) = (out, f)" and u: "unique_on sf_id (storedFiles d)" and r: "r \<in> set (storedFiles d)"
    and run: "confirm_commit z i now cid (out, sf_status r, f) d = (Inl e, d')"
  shows "d' = d \<or> d' = d\<lparr>storedFiles :=
    update_where (\<lambda>x. sf_id x = sf_id r \<and> sf_organizationId x = sf_organizationId r \<and> sf_status x = Pending)
      (\<lambda>x. x\<lparr>sf_status := Discarded\<rparr>) (storedFiles d)\<rparr>"
proof (cases out)
  case (Inr w)
  then show ?thesis using run
    by (auto simp: confirm_commit_def split: prod.splits sum.splits dest!: transaction_error)
next
  case (Inl e')
  from confirm_failed [OF c [unfolded Inl]] show ?thesis
  proof (elim disjE conjE)
    assume f: "f = rehydrate r" "sf_status r \<noteq> Pending"
    have "snd (compareAndSave f (sf_status r) d) = d"
    proof -
      have "update_where (\<lambda>x. sf_id x = sf_id r \<and> sf_organizationId x = sf_organizationId r \<and> sf_status x = sf_status r)
          (\<lambda>x. x\<lparr>sf_status := sf_status r\<rparr>) (storedFiles d) = storedFiles d"
        unfolding update_where_def by (rule map_idI) auto
      then show ?thesis using cas_same [OF u r, of f "sf_status r"] f(1) by (simp add: rehydrate_def)
    qed
    then show ?thesis using run Inl by (auto simp: confirm_commit_def split: if_splits)
  next
    assume f: "sf_status r = Pending" "file_row f = r\<lparr>sf_status := Discarded\<rparr>"
    then show ?thesis using run Inl cas_same [OF u r f(2)] by (auto simp: confirm_commit_def split: if_splits)
  qed
qed

lemma confirm_commit_succeeded:
  assumes c: "confirm mime n now (rehydrate r) = (out, f)" and u: "unique_on sf_id (storedFiles d)" and r: "r \<in> set (storedFiles d)"
    and run: "confirm_commit z i now cid (out, sf_status r, f) d = (Inr v, d')"
  shows "out = Inr () \<and> v = toStoredFileView (confirmed_row n (sf_declaredMimeType r) now r) \<and>
    (\<exists>p. toJsonObject (ie_payload (confirmation_event i now cid n (sf_declaredMimeType r) r)) = Inr p \<and>
      d' = d\<lparr>storedFiles := update_where (\<lambda>x. sf_id x = sf_id r) (confirmed_row n (sf_declaredMimeType r) now) (storedFiles d),
        outbox := fst (insert_skip ob_eventId
          (outbox_insert_row (confirmation_event i now cid n (sf_declaredMimeType r) r) p) (outbox d))\<rparr>)"
proof -
  have out: "out = Inr ()" using run by (auto simp: confirm_commit_def split: sum.splits if_splits)
  note ok = confirm_ok [OF c [unfolded out]]
  let ?m = "sf_declaredMimeType r" and ?d1 = "snd (compareAndSave f (sf_status r) d)"
  have row: "file_row f = confirmed_row n ?m now r" using ok by blast
  have "publishAll z [confirmation_event i now cid n ?m r] ?d1 = (Inr (), d')" and v: "v = toStoredFileView (file_row f)"
    using run out ok by (auto simp: confirm_commit_def transaction_ok split: prod.splits sum.splits if_splits)
  from publishAll_rows [OF this(1)] obtain p where p:
    "toJsonObject (ie_payload (confirmation_event i now cid n ?m r)) = Inr p"
    "d' = ?d1\<lparr>outbox := fst (insert_skip ob_eventId (outbox_insert_row (confirmation_event i now cid n ?m r) p) (outbox ?d1))\<rparr>"
    by blast
  have "?d1 = d\<lparr>storedFiles := storedFiles ?d1\<rparr>" by (simp add: compareAndSave_def Let_def)
  then have "?d1 = d\<lparr>storedFiles := update_where (\<lambda>x. sf_id x = sf_id r) (confirmed_row n ?m now) (storedFiles d)\<rparr>"
    unfolding cas_confirmed [OF u r row] .
  then show ?thesis using p out v row by simp
qed

lemma confirm_prepare_ok:
  assumes "confirm_prepare detect down now org caller fid d objs = Inr prepared"
  shows "\<exists>r obj f out. r \<in> set (storedFiles d) \<and> sf_id r = fid \<and> sf_organizationId r = org \<and> sf_ownerId r = caller
    \<and> \<not> down (sf_storageKey r) \<and> objs (sf_storageKey r) = Some obj
    \<and> confirm (let t = detect (take 4100 (so_bytes obj)) in if t = [] then None else Some (hd t)) (so_size obj) now (rehydrate r) = (out, f)
    \<and> prepared = (out, sf_status r, f)"
proof -
  obtain r where r: "find (\<lambda>r. sf_id r = fid \<and> sf_organizationId r = org \<and> sf_ownerId r = caller) (storedFiles d) = Some r"
    using assms by (auto simp: confirm_prepare_def findByIdForOwner_def split: option.splits)
  then have props: "r \<in> set (storedFiles d)" "sf_id r = fid" "sf_organizationId r = org" "sf_ownerId r = caller"
    by (auto simp: find_Some_iff)
  have key: "sf_storageKey (file_row (rehydrate r)) = sf_storageKey r" "file_status (rehydrate r) = sf_status r"
    by (simp_all add: rehydrate_def)
  obtain obj where obj: "\<not> down (sf_storageKey r)" "objs (sf_storageKey r) = Some obj"
    using assms r key by (auto simp: confirm_prepare_def findByIdForOwner_def inspect_def split: option.splits if_splits)
  let ?t = "detect (take 4100 (so_bytes obj))"
  obtain out f where c: "confirm (if ?t = [] then None else Some (hd ?t)) (so_size obj) now (rehydrate r) = (out, f)"
    by fastforce
  have "prepared = (out, sf_status r, f)"
    using assms r key obj c
    by (simp add: confirm_prepare_def findByIdForOwner_def inspect_def Let_def SIGNATURE_SAMPLE_BYTES_def del: not_Some_eq)
  then show ?thesis using props obj c
    by (intro exI [of _ r] exI [of _ obj] exI [of _ f] exI [of _ out]) (simp add: Let_def)
qed

text \<open>
  C28: Confirming an upload, on every branch. It succeeds only for the caller's own pending file of that
  organization whose stored object has exactly the declared size and whose detected type is the
  declared one and on the allow-list. It then changes that row to confirmed and appends the
  upload-confirmed event to the outbox, in one transaction. When it fails, no event is written and
  the only change is that a pending file of the caller may become discarded.\<close>

theorem confirm_upload_outcomes:
  assumes "ConfirmUpload_execute z detect down newId now org caller fid cid objs d = (res, d')"
    and "unique_on sf_id (storedFiles d)"
  shows "case res of
      Inr v \<Rightarrow> (\<exists>r obj p. r \<in> set (storedFiles d) \<and> sf_id r = fid \<and> sf_organizationId r = org \<and> sf_ownerId r = caller
          \<and> sf_status r = Pending \<and> \<not> down (sf_storageKey r) \<and> objs (sf_storageKey r) = Some obj
          \<and> so_size obj = sf_declaredSizeBytes r \<and> sf_declaredMimeType r \<in> set ALLOWED_MIME_TYPES
          \<and> detect (take 4100 (so_bytes obj)) \<noteq> [] \<and> hd (detect (take 4100 (so_bytes obj))) = sf_declaredMimeType r
          \<and> v = toStoredFileView (confirmed_row (so_size obj) (sf_declaredMimeType r) now r)
          \<and> toJsonObject (ie_payload (confirmation_event newId now cid (so_size obj) (sf_declaredMimeType r) r)) = Inr p
          \<and> d' = d\<lparr>storedFiles := update_where (\<lambda>x. sf_id x = fid) (confirmed_row (so_size obj) (sf_declaredMimeType r) now) (storedFiles d),
                   outbox := fst (insert_skip ob_eventId
                     (outbox_insert_row (confirmation_event newId now cid (so_size obj) (sf_declaredMimeType r) r) p) (outbox d))\<rparr>)
    | Inl e \<Rightarrow> (\<exists>rows. d' = d\<lparr>storedFiles := rows\<rparr> \<and>
        (rows = storedFiles d \<or> rows = update_where (\<lambda>x. sf_id x = fid \<and> sf_organizationId x = org \<and> sf_status x = Pending)
            (\<lambda>x. x\<lparr>sf_status := Discarded\<rparr>) (storedFiles d)))"
proof (cases "confirm_prepare detect down now org caller fid d objs")
  case (Inl e)
  then have "res = Inl e" "d' = d" using assms(1) by (simp_all add: ConfirmUpload_execute_def)
  then show ?thesis by (simp add: exI [of _ "storedFiles d"])
next
  case (Inr prepared)
  from confirm_prepare_ok [OF this] obtain r obj f out where r: "r \<in> set (storedFiles d)" "sf_id r = fid"
      "sf_organizationId r = org" "sf_ownerId r = caller" "\<not> down (sf_storageKey r)" "objs (sf_storageKey r) = Some obj"
    and c: "confirm (let t = detect (take 4100 (so_bytes obj)) in if t = [] then None else Some (hd t)) (so_size obj) now (rehydrate r) = (out, f)"
    and prep: "prepared = (out, sf_status r, f)" by blast
  have run: "confirm_commit z newId now cid (out, sf_status r, f) d = (res, d')"
    using assms(1) Inr prep by (simp add: ConfirmUpload_execute_def)
  show ?thesis
  proof (cases res)
    case (Inl e)
    from confirm_commit_failed [OF c assms(2) r(1) run [unfolded Inl]] show ?thesis
      unfolding Inl sum.case r(2,3) by (elim disjE) (simp add: exI [of _ "storedFiles d"], auto)
  next
    case (Inr v)
    note fin = confirm_commit_succeeded [OF c assms(2) r(1) run [unfolded Inr]]
    then have "confirm (let t = detect (take 4100 (so_bytes obj)) in if t = [] then None else Some (hd t)) (so_size obj) now (rehydrate r) = (Inr (), f)"
      using c by simp
    note ok = confirm_ok [OF this, of newId cid]
    then have "(if detect (take 4100 (so_bytes obj)) = [] then None else Some (hd (detect (take 4100 (so_bytes obj))))) = Some (sf_declaredMimeType r)"
      by (simp add: Let_def)
    then have mime: "detect (take 4100 (so_bytes obj)) \<noteq> []" "hd (detect (take 4100 (so_bytes obj))) = sf_declaredMimeType r"
      by (simp_all split: if_splits)
    from fin obtain p where p: "toJsonObject (ie_payload (confirmation_event newId now cid (so_size obj) (sf_declaredMimeType r) r)) = Inr p"
      "d' = d\<lparr>storedFiles := update_where (\<lambda>x. sf_id x = sf_id r) (confirmed_row (so_size obj) (sf_declaredMimeType r) now) (storedFiles d),
        outbox := fst (insert_skip ob_eventId
          (outbox_insert_row (confirmation_event newId now cid (so_size obj) (sf_declaredMimeType r) r) p) (outbox d))\<rparr>" by blast
    show ?thesis unfolding Inr sum.case
      by (rule exI [of _ r], rule exI [of _ obj], rule exI [of _ p])
         (use fin ok r p mime in simp)
  qed
qed

definition sample_file :: "uuid \<Rightarrow> uuid \<Rightarrow> stored_file_status \<Rightarrow> stored_file_row" where
  "sample_file i owner status =
     \<lparr>sf_id = i, sf_organizationId = ''g'', sf_ownerId = owner, sf_storageKey = storage_key ''g'' owner i,
      sf_filename = ''a.png'', sf_declaredMimeType = ''image/png'', sf_declaredSizeBytes = 3,
      sf_verifiedMimeType = None, sf_verifiedSizeBytes = None, sf_status = status,
      sf_createdAt = 5, sf_confirmedAt = None\<rparr>"

definition sample_object :: stored_object where
  "sample_object = \<lparr>so_size = 3, so_bytes = [1, 2, 3]\<rparr>"

lemma confirmation_published:
  assumes "z_uuid7 z i" "z_uuid7 z (sf_id r)" "z_uuid7 z (sf_organizationId r)" "z_uuid7 z (sf_ownerId r)"
    and "case cid of None \<Rightarrow> True | Some c \<Rightarrow> z_uuid7 z c"
    and "z_iso_datetime z (toISOString now)" and "sf_storageKey r \<noteq> []" and "m \<noteq> []" and "0 \<le> n"
  shows "\<exists>rows. publishAll z [confirmation_event i now cid n m r] d = (Inr (), d\<lparr>outbox := rows\<rparr>)"
proof -
  let ?e = "confirmation_event i now cid n m r"
  have "valid_envelope z ?e" using assms
    by (simp add: valid_envelope_def confirmation_event_def createIntegrationEvent_def CURRENT_SCHEMA_VERSION_def)
  moreover have "\<exists>payload. z_object (INTEGRATION_EVENT_SCHEMAS UPLOAD_CONFIRMED z) (ie_payload ?e) = Some payload"
    using assms by (simp add: z_object_def uploadConfirmedPayloadSchema_def confirmation_event_def createIntegrationEvent_def
        confirmed_payload_def nonempty_def is_int_def)
  moreover have "event_of_name (ie_name ?e) = Some UPLOAD_CONFIRMED"
    unfolding confirmation_event_def createIntegrationEvent_def by (simp del: event_name.simps)
  ultimately have "parseAnyIntegrationEvent z (event_to_js ?e) \<noteq> None"
    using parse_event_payload by fastforce
  then have "check_events z [?e] = Inr ()"
    by (simp add: subscribersOf_def confirmation_event_def createIntegrationEvent_def del: event_name.simps)
  moreover have "toJsonObject (ie_payload ?e) = Inr (ie_payload ?e)"
    by (simp add: confirmation_event_def createIntegrationEvent_def confirmed_payload_def toJsonObject_def isRecord_def)
  ultimately show ?thesis by (auto simp: publishAll_def simp del: check_events.simps)
qed

lemma pending_upload_confirmed:
  assumes "unique_on sf_id (storedFiles d)" and "r \<in> set (storedFiles d)" and "sf_status r = Pending"
    and "sf_organizationId r = org" and "sf_ownerId r = caller" and "sf_storageKey r \<noteq> []"
    and "\<not> down (sf_storageKey r)" and "objs (sf_storageKey r) = Some obj"
    and "so_size obj = sf_declaredSizeBytes r" and "0 \<le> sf_declaredSizeBytes r"
    and "detect (take 4100 (so_bytes obj)) = sf_declaredMimeType r # others"
    and "sf_declaredMimeType r \<in> set ALLOWED_MIME_TYPES"
    and "z_uuid7 z newId" "z_uuid7 z (sf_id r)" "z_uuid7 z org" "z_uuid7 z caller"
    and "case cid of None \<Rightarrow> True | Some c \<Rightarrow> z_uuid7 z c" and "z_iso_datetime z (toISOString now)"
  shows "\<exists>d'. ConfirmUpload_execute z detect down newId now org caller (sf_id r) cid objs d
      = (Inr (toStoredFileView (confirmed_row (so_size obj) (sf_declaredMimeType r) now r)), d')
    \<and> storedFiles d' = update_where (\<lambda>x. sf_id x = sf_id r) (confirmed_row (so_size obj) (sf_declaredMimeType r) now) (storedFiles d)"
proof -
  let ?m = "sf_declaredMimeType r" and ?n = "so_size obj"
  have found: "findByIdForOwner org caller (sf_id r) d = Some (rehydrate r)"
    using find_unique_where [OF assms(1,2), of "\<lambda>x. sf_id x = sf_id r \<and> sf_organizationId x = org \<and> sf_ownerId x = caller"] assms(4,5)
    by (simp add: findByIdForOwner_def)
  obtain f where c: "confirm (Some ?m) ?n now (rehydrate r) = (Inr (), f)"
    using confirm_success_iff [of "Some ?m" ?n now "rehydrate r"] assms(3,9,12)
    by (cases "confirm (Some ?m) ?n now (rehydrate r)") (auto simp: rehydrate_def)
  note ok = confirm_ok [OF c, of newId cid]
  have prep: "confirm_prepare detect down now org caller (sf_id r) d objs = Inr (Inr (), sf_status r, f)"
    using found assms(7,8,11) c
    by (simp add: confirm_prepare_def inspect_def SIGNATURE_SAMPLE_BYTES_def rehydrate_def)
  have row: "file_row f = confirmed_row ?n ?m now r" using ok by blast
  have cnt: "count_where (\<lambda>x. sf_id x = sf_id r \<and> sf_organizationId x = sf_organizationId r \<and> sf_status x = sf_status r) (storedFiles d) = 1"
    by (rule count_where_unique [OF assms(1,2)]) auto
  obtain d1 where cas: "compareAndSave f (sf_status r) d = (True, d1)"
    using cnt row by (simp add: compareAndSave_def Let_def confirmed_row_def)
  have "?m \<noteq> []" using assms(12) by (auto simp: ALLOWED_MIME_TYPES_def)
  then obtain rows where pub: "publishAll z [confirmation_event newId now cid ?n ?m r] d1 = (Inr (), d1\<lparr>outbox := rows\<rparr>)"
    using confirmation_published [of z newId r cid now ?m ?n d1] assms by auto
  have "ConfirmUpload_execute z detect down newId now org caller (sf_id r) cid objs d
      = (Inr (toStoredFileView (confirmed_row ?n ?m now r)), d1\<lparr>outbox := rows\<rparr>)"
    using prep cas ok pub row by (simp add: ConfirmUpload_execute_def confirm_commit_def transaction_def)
  moreover have "storedFiles d1 = update_where (\<lambda>x. sf_id x = sf_id r) (confirmed_row ?n ?m now) (storedFiles d)"
    using cas_confirmed [OF assms(1,2) row] cas by simp
  ultimately show ?thesis by simp
qed

text \<open>
  A valid upload can be confirmed: when the caller's pending file has an object of the declared
  size and type in a reachable store and the identifiers are well formed, the confirmation returns
  the file's view and leaves the file confirmed. No check of the event contract can refuse it.\<close>

theorem confirm_upload_succeeds:
  assumes "unique_on sf_id (storedFiles d)" and "r \<in> set (storedFiles d)" and "sf_status r = Pending"
    and "sf_organizationId r = org" and "sf_ownerId r = caller" and "sf_storageKey r \<noteq> []"
    and "\<not> down (sf_storageKey r)" and "objs (sf_storageKey r) = Some obj"
    and "so_size obj = sf_declaredSizeBytes r" and "0 \<le> sf_declaredSizeBytes r"
    and "detect (take 4100 (so_bytes obj)) = sf_declaredMimeType r # others"
    and "sf_declaredMimeType r \<in> set ALLOWED_MIME_TYPES"
    and "z_uuid7 z newId" "z_uuid7 z (sf_id r)" "z_uuid7 z org" "z_uuid7 z caller"
    and "case cid of None \<Rightarrow> True | Some c \<Rightarrow> z_uuid7 z c" and "z_iso_datetime z (toISOString now)"
  shows "\<exists>d'. ConfirmUpload_execute z detect down newId now org caller (sf_id r) cid objs d
      = (Inr (toStoredFileView (confirmed_row (so_size obj) (sf_declaredMimeType r) now r)), d')
    \<and> storedFiles d' = update_where (\<lambda>x. sf_id x = sf_id r) (confirmed_row (so_size obj) (sf_declaredMimeType r) now) (storedFiles d)"
  by (rule pending_upload_confirmed [where down = down and objs = objs and detect = detect and cid = cid, OF assms])

definition sample_files :: db where
  "sample_files = empty_db\<lparr>storedFiles := [sample_file ''f'' ''u'' Pending]\<rparr>"

theorem confirm_upload_succeeds_witness:
  "\<exists>d'. ConfirmUpload_execute any_zod (\<lambda>_. [''image/png'']) (\<lambda>_. False) ''e'' 9 ''g'' ''u'' ''f'' None
     (\<lambda>_. Some sample_object) sample_files
     = (Inr (toStoredFileView (confirmed_row 3 ''image/png'' 9 (sample_file ''f'' ''u'' Pending))), d')
   \<and> storedFiles d' = [confirmed_row 3 ''image/png'' 9 (sample_file ''f'' ''u'' Pending)]"
  using confirm_upload_succeeds [of sample_files "sample_file ''f'' ''u'' Pending" "''g''" "''u''" "\<lambda>_. False"
      "\<lambda>_. Some sample_object" sample_object "\<lambda>_. [''image/png'']" "[]" any_zod "''e''" None 9]
  by (simp add: sample_files_def sample_file_def sample_object_def unique_on_def storage_key_def any_zod_def
      ALLOWED_MIME_TYPES_def update_where_def)

theorem confirm_upload_outcomes_witness:
  "\<exists>rows. snd (ConfirmUpload_execute any_zod (\<lambda>_. [''image/gif'']) (\<lambda>_. False) ''e'' 9 ''g'' ''u'' ''f'' None
     (\<lambda>_. Some sample_object) sample_files) = sample_files\<lparr>storedFiles := rows\<rparr>
   \<and> (rows = storedFiles sample_files \<or> rows = [sample_file ''f'' ''u'' Discarded])"
proof -
  let ?r = "ConfirmUpload_execute any_zod (\<lambda>_. [''image/gif'']) (\<lambda>_. False) ''e'' 9 ''g'' ''u'' ''f'' None
     (\<lambda>_. Some sample_object) sample_files"
  have u: "unique_on sf_id (storedFiles sample_files)" by (simp add: unique_on_def sample_files_def)
  have "isl (fst ?r)"
    by (simp add: ConfirmUpload_execute_def confirm_prepare_def findByIdForOwner_def sample_files_def sample_file_def
        rehydrate_def inspect_def sample_object_def confirm_def ALLOWED_MIME_TYPES_def confirm_commit_def)
  then obtain e d' where run: "?r = (Inl e, d')" by (cases ?r; cases "fst ?r") auto
  have "update_where (\<lambda>x. sf_id x = ''f'' \<and> sf_organizationId x = ''g'' \<and> sf_status x = Pending)
      (\<lambda>x. x\<lparr>sf_status := Discarded\<rparr>) (storedFiles sample_files) = [sample_file ''f'' ''u'' Discarded]"
    by (simp add: update_where_def sample_files_def sample_file_def)
  then show ?thesis using confirm_upload_outcomes [OF run u] run by simp
qed

section \<open>Properties\<close>

text \<open>
  C29: No confirmed upload is lost. From a start with no files, whatever the order in which clients
  upload, confirmations commit (from rows read at any earlier time), and sweeps claim files, delete
  objects and delete rows, a file that is once confirmed with its object stored keeps both its row,
  unchanged, and its object.\<close>

theorem confirmed_file_never_swept:
  assumes "file_step\<^sup>*\<^sup>* \<lparr>us_db = d, us_objects = objs, us_loaded = [], us_doomed = []\<rparr> s" and "storedFiles d = []"
    and "x \<in> set (storedFiles (us_db s))" and "sf_status x = Confirmed" and "us_objects s (sf_storageKey x) \<noteq> None"
    and "file_step\<^sup>*\<^sup>* s s'"
  shows "x \<in> set (storedFiles (us_db s')) \<and> us_objects s' (sf_storageKey x) \<noteq> None"
proof -
  have "file_inv s" by (rule file_inv_run [OF assms(1)]) (simp add: file_inv_def unique_on_def assms(2))
  then show ?thesis by (rule confirmed_survives [OF assms(6) _ assms(3-5)])
qed

lemma sample_steps:
  assumes "StoredFile_presign ''f'' 5 ''g'' ''u'' ''a.png'' ''image/png'' 3 10 = Inr (rehydrate (sample_file ''f'' ''u'' Pending))"
    and "organizations d = [g]" "org_id g = ''g''" "storedFiles d = []"
  shows "\<exists>s. file_step\<^sup>*\<^sup>* \<lparr>us_db = d, us_objects = (\<lambda>_. Some sample_object), us_loaded = [], us_doomed = []\<rparr> s
    \<and> storedFiles (us_db s) = [confirmed_row 3 ''image/png'' 9 (sample_file ''f'' ''u'' Pending)]
    \<and> us_objects s = (\<lambda>_. Some sample_object)"
proof -
  let ?r = "sample_file ''f'' ''u'' Pending" and ?o = "\<lambda>_::string. Some sample_object"
  let ?s0 = "\<lparr>us_db = d, us_objects = ?o, us_loaded = [], us_doomed = []\<rparr>"
  let ?d1 = "d\<lparr>storedFiles := [?r]\<rparr>"
  have "save_file (rehydrate ?r) d = (Inr (), ?d1)"
    using assms(2-) by (simp add: save_file_def insert_unique_def require_reference_def rehydrate_def sample_file_def)
  then have 1: "file_step ?s0 (?s0\<lparr>us_db := ?d1\<rparr>)" by (intro file_step.presign [OF assms(1)]) simp_all
  have 2: "file_step (?s0\<lparr>us_db := ?d1\<rparr>) (?s0\<lparr>us_db := ?d1, us_loaded := [?r]\<rparr>)"
    using file_step.load [of ?r "?s0\<lparr>us_db := ?d1\<rparr>"] by simp
  obtain f where c: "confirm (Some ''image/png'') 3 9 (rehydrate ?r) = (Inr (), f)"
    by (simp add: confirm_def rehydrate_def sample_file_def ALLOWED_MIME_TYPES_def)
  note ok = confirm_ok [OF c, of "''e''" None]
  have decl: "sf_declaredMimeType ?r = ''image/png''" by (simp add: sample_file_def)
  have row: "file_row f = confirmed_row 3 ''image/png'' 9 ?r"
    and ev: "toIntegrationEvents ''e'' 9 None f = [confirmation_event ''e'' 9 None 3 ''image/png'' ?r]"
    using ok unfolding decl by blast+
  have cas: "compareAndSave f (sf_status ?r) ?d1 = (True, d\<lparr>storedFiles := [confirmed_row 3 ''image/png'' 9 ?r]\<rparr>)"
    by (simp add: compareAndSave_def row confirmed_row_def count_where_def update_where_def sample_file_def)
  obtain rows where pub: "publishAll any_zod [confirmation_event ''e'' 9 None 3 ''image/png'' ?r] (d\<lparr>storedFiles := [confirmed_row 3 ''image/png'' 9 ?r]\<rparr>)
      = (Inr (), d\<lparr>storedFiles := [confirmed_row 3 ''image/png'' 9 ?r], outbox := rows\<rparr>)"
    using confirmation_published [of any_zod "''e''" ?r None 9 "''image/png''" 3] by (auto simp: any_zod_def sample_file_def storage_key_def)
  have commit: "confirm_commit any_zod ''e'' 9 None (Inr (), sf_status ?r, f) ?d1
      = (Inr (toStoredFileView (file_row f)), d\<lparr>storedFiles := [confirmed_row 3 ''image/png'' 9 ?r], outbox := rows\<rparr>)"
    unfolding confirm_commit_def transaction_def Let_def prod.case sum.case cas ev
    by (simp add: pub)
  have 3: "file_step (?s0\<lparr>us_db := ?d1, us_loaded := [?r]\<rparr>)
      (?s0\<lparr>us_db := d\<lparr>storedFiles := [confirmed_row 3 ''image/png'' 9 ?r], outbox := rows\<rparr>, us_loaded := [?r]\<rparr>)"
    using file_step.commit [of ?r "?s0\<lparr>us_db := ?d1, us_loaded := [?r]\<rparr>", OF _ c] commit by simp
  have "file_step\<^sup>*\<^sup>* ?s0 (?s0\<lparr>us_db := d\<lparr>storedFiles := [confirmed_row 3 ''image/png'' 9 ?r], outbox := rows\<rparr>, us_loaded := [?r]\<rparr>)"
    using converse_rtranclp_into_rtranclp [of file_step, OF 1 converse_rtranclp_into_rtranclp [of file_step, OF 2 r_into_rtranclp [of file_step, OF 3]]] .
  then show ?thesis by - (rule exI, rule conjI, assumption, simp)
qed

theorem confirmed_file_never_swept_witness:
  "\<exists>s d. file_step\<^sup>*\<^sup>* \<lparr>us_db = d, us_objects = (\<lambda>_. Some sample_object), us_loaded = [], us_doomed = []\<rparr> s
     \<and> confirmed_row 3 ''image/png'' 9 (sample_file ''f'' ''u'' Pending) \<in> set (storedFiles (us_db s))
     \<and> us_objects s ''uploads/g/u/f'' \<noteq> None"
proof -
  let ?x = "confirmed_row 3 ''image/png'' 9 (sample_file ''f'' ''u'' Pending)"
  define g where "g = \<lparr>org_id = ''g'', org_slug = ''acme'', org_name = ''Acme'', org_createdAt = 0, org_archivedAt = None\<rparr>"
  define d where "d = empty_db\<lparr>organizations := [g]\<rparr>"
  have d: "organizations d = [g]" "org_id g = ''g''" "storedFiles d = []" by (simp_all add: d_def g_def empty_db_def)
  have "sanitiseFilename ''a.png'' = Inr ''a.png''"
    by (simp add: sanitiseFilename_def stripUnsafeCharacters_def trim_def trim_start_def is_js_space_def)
  then have pre: "StoredFile_presign ''f'' 5 ''g'' ''u'' ''a.png'' ''image/png'' 3 10 = Inr (rehydrate (sample_file ''f'' ''u'' Pending))"
    by (simp add: StoredFile_presign_def ALLOWED_MIME_TYPES_def rehydrate_def sample_file_def)
  from sample_steps [OF pre d] obtain s where s:
    "file_step\<^sup>*\<^sup>* \<lparr>us_db = d, us_objects = (\<lambda>_. Some sample_object), us_loaded = [], us_doomed = []\<rparr> s"
    "storedFiles (us_db s) = [?x]" "us_objects s = (\<lambda>_. Some sample_object)" by blast
  have x: "?x \<in> set (storedFiles (us_db s))" "sf_status ?x = Confirmed" "us_objects s (sf_storageKey ?x) \<noteq> None"
    by (simp_all add: s(2,3), simp add: confirmed_row_def)
  have "?x \<in> set (storedFiles (us_db s)) \<and> us_objects s (sf_storageKey ?x) \<noteq> None"
    by (rule confirmed_file_never_swept [OF s(1) d(3) x rtranclp.rtrancl_refl])
  moreover have "sf_storageKey ?x = ''uploads/g/u/f''" by (simp add: confirmed_row_def sample_file_def storage_key_def)
  ultimately show ?thesis using s(1) by metis
qed

text \<open>
  The scheduled sweep. Whatever the object store does, a run only ever deletes objects, never
  invents rows, and a row disappears only after its object is gone, so no object is orphaned by an
  interrupted run. With the store up, one run removes exactly the files it selected: the oldest
  abandoned or discarded ones, at most two hundred, with their objects, and no confirmed file.\<close>

theorem sweep_run:
  assumes "unique_on sf_id (storedFiles d)"
  shows "object_first (d, objs) (snd (ExpireStaleUploads_execute limits down now (d, objs)))
    \<and> (let rs = take 200 (order_by sf_createdAt (filter (cleanup_candidate (now - int (pendingTtlMinutes limits) * 60000)) (storedFiles d)))
       in ExpireStaleUploads_execute limits (\<lambda>_. False) now (d, objs) =
            (Inr (length rs), (d\<lparr>storedFiles := filter (\<lambda>r. sf_id r \<notin> sf_id ` set rs) (storedFiles d)\<rparr>,
              drop_keys (sf_storageKey ` set rs) objs))
          \<and> (\<forall>r \<in> set (storedFiles d). sf_status r = Confirmed \<longrightarrow> sf_id r \<notin> sf_id ` set rs))"
proof -
  define cut where "cut = now - int (pendingTtlMinutes limits) * 60000"
  define rs where "rs = take 200 (order_by sf_createdAt (filter (cleanup_candidate cut) (storedFiles d)))"
  have sub: "set rs \<subseteq> {r \<in> set (storedFiles d). cleanup_candidate cut r}" by (auto simp: rs_def dest!: in_set_takeD)
  have fs: "findCleanupCandidates cut SWEEP_BATCH_SIZE d = map rehydrate rs"
    by (simp add: findCleanupCandidates_def SWEEP_BATCH_SIZE_def rs_def)
  have keys: "keys_agree (map rehydrate rs) d"
  proof -
    have "r = x" if "x \<in> set rs" "r \<in> set (storedFiles d)" "sf_id r = sf_id x" for r x
      using that sub by (intro unique_onD [OF assms]) auto
    then show ?thesis unfolding keys_agree_def by (auto simp: rehydrate_def)
  qed
  have "distinct (filter (cleanup_candidate cut) (storedFiles d))" using assms by (simp add: unique_on_def distinct_map)
  then have "distinct rs" by (simp add: rs_def filter_order_by_distinct)
  moreover have "inj_on sf_id (set rs)" using sub unique_onD [OF assms] by (auto simp: inj_on_def)
  ultimately have dist: "distinct (map sf_id rs)" by (simp add: distinct_map)
  have notconf: "\<forall>r \<in> set rs. sf_status r \<noteq> Confirmed" using sub by (auto simp: cleanup_candidate_def)
  have run: "ExpireStaleUploads_execute limits dn now (d, objs) = sweep_files dn now (map rehydrate rs) 0 (d, objs)" for dn
    by (simp add: ExpireStaleUploads_execute_def cut_def [symmetric] fs)
  have "object_first (d, objs) (snd (sweep_files down now (map rehydrate rs) 0 (d, objs)))"
    by (rule sweep_object_first [OF assms keys]) (rule prod.collapse [symmetric])
  moreover have "sweep_files (\<lambda>_. False) now (map rehydrate rs) 0 (d, objs) =
      (Inr (length rs), (d\<lparr>storedFiles := filter (\<lambda>r. sf_id r \<notin> sf_id ` set rs) (storedFiles d)\<rparr>,
        drop_keys (sf_storageKey ` set rs) objs))"
    using sweep_up [OF assms dist _ notconf, of now 0 objs] sub by auto
  moreover have "\<forall>r \<in> set (storedFiles d). sf_status r = Confirmed \<longrightarrow> sf_id r \<notin> sf_id ` set rs"
  proof (intro ballI impI notI)
    fix r assume r: "r \<in> set (storedFiles d)" "sf_status r = Confirmed" "sf_id r \<in> sf_id ` set rs"
    then obtain x where x: "x \<in> set rs" "sf_id r = sf_id x" by blast
    have "r = x" by (rule unique_onD [OF assms r(1) _ x(2)]) (use x(1) sub in blast)
    then show False using x(1) notconf r(2) by simp
  qed
  ultimately show ?thesis unfolding run Let_def cut_def [symmetric] rs_def [symmetric] by blast
qed

theorem sweep_run_witness:
  "object_first (sample_files, \<lambda>_. Some sample_object)
     (snd (ExpireStaleUploads_execute \<lparr>maxFileBytes = 10, presignExpirySeconds = 60, pendingTtlMinutes = 1\<rparr>
        (\<lambda>_. True) 100000 (sample_files, \<lambda>_. Some sample_object)))"
proof -
  have "unique_on sf_id (storedFiles sample_files)" by (simp add: unique_on_def sample_files_def)
  from sweep_run [OF this, of "\<lambda>_. Some sample_object" "\<lparr>maxFileBytes = 10, presignExpirySeconds = 60, pendingTtlMinutes = 1\<rparr>" "\<lambda>_. True" 100000]
  show ?thesis by (rule conjunct1)
qed

text \<open>
  C30: Deleting a user purges their files. For every owner and any number of files the purge loop
  ends; with the object store up it removes all of the owner's rows in every state and all their
  objects, leaves every other row and object alone, and reports how many files it removed.\<close>

theorem purge_user_files:
  assumes "unique_on sf_id (storedFiles d)"
  shows "PurgeUserFiles_execute (\<lambda>_. False) owner (d, objs) =
    (Inr (owned_count owner d), (d\<lparr>storedFiles := filter (\<lambda>r. sf_ownerId r \<noteq> owner) (storedFiles d)\<rparr>,
      drop_keys (sf_storageKey ` {r \<in> set (storedFiles d). sf_ownerId r = owner}) objs))"
  using purge_loop_up [OF assms, of owner None 0 objs] by (simp add: PurgeUserFiles_execute_def)

theorem purge_user_files_witness:
  "PurgeUserFiles_execute (\<lambda>_. False) ''u'' (sample_files, \<lambda>_. Some sample_object) =
    (Inr 1, (empty_db, (\<lambda>k. if k = ''uploads/g/u/f'' then None else Some sample_object)))"
proof -
  have u: "unique_on sf_id (storedFiles sample_files)" by (simp add: unique_on_def sample_files_def)
  have own: "{r \<in> set (storedFiles sample_files). sf_ownerId r = ''u''} = {sample_file ''f'' ''u'' Pending}"
    by (auto simp: sample_files_def sample_file_def)
  have rows: "sample_files\<lparr>storedFiles := filter (\<lambda>r. sf_ownerId r \<noteq> ''u'') (storedFiles sample_files)\<rparr> = empty_db"
    by (simp add: sample_files_def sample_file_def empty_db_def)
  have "owned_count ''u'' sample_files = 1" by (simp add: owned_count_def count_where_def sample_files_def sample_file_def)
  moreover have "sf_storageKey (sample_file ''f'' ''u'' Pending) = ''uploads/g/u/f''" by (simp add: sample_file_def storage_key_def)
  ultimately show ?thesis
    using purge_user_files [OF u, of "''u''" "\<lambda>_. Some sample_object"] unfolding own rows
    by (simp add: drop_keys_def)
qed

text \<open>
  A file name that is accepted is safe to echo and to store: at most 255 characters, not empty,
  not a directory entry, taken from the characters of the submitted name and free of path separators,
  quotes and control characters.\<close>

theorem filename_is_safe:
  assumes "sanitiseFilename raw = Inr name"
  shows "name \<noteq> [] \<and> length name \<le> 255 \<and> name \<noteq> ''.'' \<and> name \<noteq> ''..''
    \<and> (\<forall>c \<in> set name. c \<in> set raw \<and> c \<noteq> CHR ''/'' \<and> c \<noteq> CHR 0x5C \<and> c \<noteq> CHR 0x22 \<and> 32 \<le> code_unit c \<and> code_unit c \<noteq> 127)"
  using sanitiseFilename_safe [OF assms] by blast

theorem filename_is_safe_witness: "length ''a.png'' \<le> (255::nat) \<and> CHR ''/'' \<notin> set ''a.png''"
proof -
  have "sanitiseFilename ''d/a.png'' = Inr ''a.png''"
    by (simp add: sanitiseFilename_def stripUnsafeCharacters_def trim_def trim_start_def is_js_space_def)
  from filename_is_safe [OF this] show ?thesis by blast
qed

text \<open>Listing: the repository query and the use case meet the contracts of a keyset list.\<close>

lemma list_uploads_page:
  assumes "decodeOptionalCursor v lenient raw = Inr cursor"
  shows "ListMyUploads_execute v lenient org owner raw (Some n) d
    = Inr (listing_of file_key toStoredFileView (page_of (min n MAX_PAGE_SIZE) (listByOwner org owner cursor (min n MAX_PAGE_SIZE + 1) d)))"
  using assms by (simp add: ListMyUploads_execute_def listing_of_def file_key_def Let_def split: prod.split)

interpretation upload_list: cursor_list
  "\<lambda>cursor n. listByOwner org owner cursor n d" file_key "filter (listed org owner) (storedFiles d)"
  "\<lambda>raw. ListMyUploads_execute isUuidV7 lenient org owner raw (Some n) d" toStoredFileView isUuidV7 lenient "min n MAX_PAGE_SIZE"
  for org owner d isUuidV7 lenient n
proof unfold_locales
  show "listByOwner org owner cursor k d = take k (rev (order_by file_key (filter (\<lambda>r. keyset_before cursor (file_key r))
      (filter (listed org owner) (storedFiles d)))))" for cursor k
    unfolding listByOwner_def by (rule keyset_query_filter)
qed (rule list_uploads_page)

text \<open>
  Paging through one's uploads is complete: starting without a cursor and sending back the cursor
  of each page, a client with any page size sees every confirmed file it owns in the organization
  exactly once, newest first, and nothing else, in at most as many requests as pages.\<close>

theorem list_uploads_complete:
  assumes "unique_on sf_id (storedFiles d)" and "\<forall>r \<in> set (storedFiles d). cursor_safe isUuidV7 (file_key r)"
    and "0 < n" and "countByOwner org owner d \<le> pages * min n MAX_PAGE_SIZE" and "0 < pages"
  shows "walk_listing pages (\<lambda>raw. ListMyUploads_execute isUuidV7 lenient org owner raw (Some n) d) None
     = Inr (map toStoredFileView (newest file_key (filter (listed org owner) (storedFiles d))))"
proof (rule upload_list.walk_listing_complete)
  have "distinct (map file_key (storedFiles d))"
    using assms(1) by (auto simp: unique_on_def file_key_def distinct_map inj_on_def)
  then show "unique_on file_key (filter (listed org owner) (storedFiles d))"
    by (simp add: unique_on_def distinct_map_filter)
qed (use assms in \<open>auto simp: countByOwner_def count_where_def MAX_PAGE_SIZE_def\<close>)

theorem list_uploads_complete_witness:
  "walk_listing 2 (\<lambda>raw. ListMyUploads_execute (\<lambda>_. True) (\<lambda>_. []) ''g'' ''u'' raw (Some 1)
      (empty_db\<lparr>storedFiles := [sample_file ''f'' ''u'' Confirmed, sample_file ''h'' ''u'' Confirmed]\<rparr>)) None
     = Inr (map toStoredFileView [sample_file ''h'' ''u'' Confirmed, sample_file ''f'' ''u'' Confirmed])"
proof -
  let ?fs = "[sample_file ''f'' ''u'' Confirmed, sample_file ''h'' ''u'' Confirmed]"
  let ?d = "empty_db\<lparr>storedFiles := ?fs\<rparr>"
  have all: "filter (listed ''g'' ''u'') (storedFiles ?d) = ?fs" by (simp add: listed_def sample_file_def)
  have k: "file_key (sample_file i ''u'' Confirmed) = (5, i)" for i by (simp add: file_key_def sample_file_def)
  have "newest file_key ?fs = [sample_file ''h'' ''u'' Confirmed, sample_file ''f'' ''u'' Confirmed]"
    by (simp add: newest_def order_by_def k)
  moreover have "walk_listing 2 (\<lambda>raw. ListMyUploads_execute (\<lambda>_. True) (\<lambda>_. []) ''g'' ''u'' raw (Some 1) ?d) None
     = Inr (map toStoredFileView (newest file_key (filter (listed ''g'' ''u'') (storedFiles ?d))))"
  proof (rule list_uploads_complete)
    show "unique_on sf_id (storedFiles ?d)" by (simp add: unique_on_def sample_file_def)
    show "\<forall>r \<in> set (storedFiles ?d). cursor_safe (\<lambda>_. True) (file_key r)"
      by (simp add: k cursor_safe_def valid_date_def ascii_def)
    show "countByOwner ''g'' ''u'' ?d \<le> 2 * min 1 MAX_PAGE_SIZE"
      unfolding countByOwner_def count_where_def all by (simp add: MAX_PAGE_SIZE_def)
  qed simp_all
  ultimately show ?thesis unfolding all by simp
qed

end
