(* ===== verification/Api.thy ===== *)
theory Api
  imports Access Users Audit_Log Billing Upload_Lifecycle
begin

text \<open>
  The HTTP interface: the request classes (\<open>http/dto\<close> of every module) as checks, one definition per
  controller method, the admin overview of \<open>composition/admin\<close>, the decorators of every route as
  metadata, and a request from its guards to its handler.

  The handlers act on a \<open>world\<close>: the database, the object store, the broker and the entitlement cache
  of the process. Everything outside the sources that a handler needs, and what is minted during a
  request (ids, the invitation token, the time), is a field of \<open>api_env\<close>. Where a request mints several
  ids, \<open>env_newId k\<close> is the \<open>k\<close>-th of them.
\<close>

section \<open>The world and the environment\<close>

record 'b world =
  w_db :: db
  w_objects :: objects
  w_broker :: 'b
  w_cache :: entitlement_cache

datatype api_call =
    MembersList
  | MembersInvite string string
  | MembersRevoke string
  | MembersSetRole string string
  | MembersRemove string
  | InvitationsAccept string
  | OrganizationsCreate string string
  | OrganizationsList
  | OrganizationsArchive string
  | OrganizationsRestore string
  | OrganizationsPurge string
  | UploadPresign string string int
  | UploadConfirm string
  | UploadList "string option" "nat option"
  | AuditLogsList "string option" "nat option" "string option" "string option"
  | BillingEntitlements
  | UsersMe
  | UsersById string
  | UsersUpdateMe "string option option" "string option option"
  | AdminListUsers "string option" "nat option"
  | AdminUserOverview string

record 'b api_env =
  env_z :: zod
  env_sha :: "string \<Rightarrow> string"
  env_add :: "'b broker_add"
  env_isUuidV7 :: "string \<Rightarrow> bool"
  env_pipeUuid :: "string \<Rightarrow> bool" \<comment> \<open>\<open>ParseUUIDPipe\<close> and \<open>IsUUID\<close>, version 7\<close>
  env_isEmail :: "string \<Rightarrow> bool"
  env_lenient :: "string \<Rightarrow> nat list"
  env_detect :: "nat list \<Rightarrow> string list"
  env_down :: "string \<Rightarrow> bool"
  env_limits :: upload_limits
  env_policy :: "string \<Rightarrow> string \<Rightarrow> int \<Rightarrow> nat \<Rightarrow> failure + upload_policy"
  env_fieldErrors :: "api_call \<Rightarrow> field_error list"
  env_getSession :: "(string \<Rightarrow> header_value) \<Rightarrow> js"
  env_throttle :: "string \<Rightarrow> failure + bool"
  env_newId :: "nat \<Rightarrow> uuid"
  env_token :: string
  env_now :: date

section \<open>Request classes\<close>

definition INVITABLE_ROLES :: "organization_role list" where
  "INVITABLE_ROLES = filter (\<lambda>r. r \<noteq> Owner) ORGANIZATION_ROLES"

definition role_in :: "organization_role list \<Rightarrow> string \<Rightarrow> organization_role option" where
  "role_in roles name = find (\<lambda>r. role_name r = name) roles"

definition InviteMemberRequestDto :: "(string \<Rightarrow> bool) \<Rightarrow> string \<Rightarrow> string \<Rightarrow> organization_role option" where
  "InviteMemberRequestDto isEmail email role =
     (if isEmail email \<and> length email \<le> 320 then role_in INVITABLE_ROLES role else None)"

definition ChangeMemberRoleRequestDto :: "string \<Rightarrow> organization_role option" where
  "ChangeMemberRoleRequestDto role = role_in ORGANIZATION_ROLES role"

definition AcceptInvitationRequestDto :: "string \<Rightarrow> bool" where
  "AcceptInvitationRequestDto token \<longleftrightarrow> length token \<le> 256"

definition CreateOrganizationRequestDto :: "string \<Rightarrow> string \<Rightarrow> bool" where
  "CreateOrganizationRequestDto slug name \<longleftrightarrow>
     3 \<le> length slug \<and> length slug \<le> 80 \<and> slug_pattern slug \<and> 2 \<le> length name \<and> length name \<le> 160"

definition PresignUploadRequestDto :: "string \<Rightarrow> string \<Rightarrow> int \<Rightarrow> bool" where
  "PresignUploadRequestDto filename mimeType sizeBytes \<longleftrightarrow>
     length filename \<le> 255 \<and> mimeType \<in> set ALLOWED_MIME_TYPES \<and> 1 \<le> sizeBytes"

definition optional :: "('a \<Rightarrow> bool) \<Rightarrow> 'a option \<Rightarrow> bool" where
  "optional p v = (case v of None \<Rightarrow> True | Some x \<Rightarrow> p x)"

definition ListUploadsRequestDto :: "string option \<Rightarrow> nat option \<Rightarrow> bool" where
  "ListUploadsRequestDto startingAfter limit \<longleftrightarrow>
     optional (\<lambda>s. length s \<le> 256) startingAfter \<and> optional (\<lambda>n. 1 \<le> n \<and> n \<le> 100) limit"

definition ListAuditLogsRequestDto ::
  "(string \<Rightarrow> bool) \<Rightarrow> string option \<Rightarrow> nat option \<Rightarrow> string option \<Rightarrow> string option \<Rightarrow> bool"
where
  "ListAuditLogsRequestDto isUuid startingAfter limit actorId resource \<longleftrightarrow>
     optional (\<lambda>s. length s \<le> 256) startingAfter
     \<and> optional (\<lambda>n. 1 \<le> n \<and> n \<le> MAX_PAGE_SIZE_audit) limit
     \<and> optional isUuid actorId \<and> optional (\<lambda>s. length s \<le> 120) resource"

definition ListUsersRequestDto :: "string option \<Rightarrow> nat option \<Rightarrow> bool" where
  "ListUsersRequestDto startingAfter limit \<longleftrightarrow>
     optional (\<lambda>s. length s \<le> 256) startingAfter \<and> optional (\<lambda>n. 1 \<le> n \<and> n \<le> 100) limit"

text \<open>An absent property is \<open>None\<close>, a property that is \<open>null\<close> is \<open>Some None\<close>, which \<open>IsOptional\<close> accepts.\<close>

definition UpdateProfileRequestDto :: "(string \<Rightarrow> bool) \<Rightarrow> string option option \<Rightarrow> string option option \<Rightarrow> bool" where
  "UpdateProfileRequestDto isUuid displayName avatarFileId \<longleftrightarrow>
     optional (optional (\<lambda>s. MIN_LENGTH \<le> length s \<and> length s \<le> MAX_LENGTH)) displayName
     \<and> optional (optional isUuid) avatarFileId"

section \<open>The admin overview\<close>

record admin_user_summary =
  ad_userId :: uuid
  ad_email :: string
  ad_displayName :: string
  ad_role :: string
  ad_emailVerified :: bool
  ad_createdAt :: string

definition to_admin_summary :: "user_profile_view \<Rightarrow> admin_user_summary" where
  "to_admin_summary p =
     \<lparr>ad_userId = upv_userId p, ad_email = upv_email p, ad_displayName = upv_displayName p,
      ad_role = upv_role p, ad_emailVerified = upv_emailVerified p, ad_createdAt = upv_createdAt p\<rparr>"

definition RECENT_FILE_LIMIT :: nat where "RECENT_FILE_LIMIT = 5"

definition AdminOverview_listUsers ::
  "(uuid \<Rightarrow> bool) \<Rightarrow> (string \<Rightarrow> nat list) \<Rightarrow> uuid \<Rightarrow> string option \<Rightarrow> nat option \<Rightarrow> db \<Rightarrow> failure + admin_user_summary listing"
where
  "AdminOverview_listUsers isUuidV7 lenient organizationId startingAfter limit d =
     (case ListUserProfiles_execute isUuidV7 lenient startingAfter limit (Some organizationId) d of
        Inl e \<Rightarrow> Inl e
      | Inr (profiles, hasMore, lastCursor) \<Rightarrow> Inr (map to_admin_summary profiles, hasMore, lastCursor))"

definition AdminOverview_overview ::
  "(uuid \<Rightarrow> bool) \<Rightarrow> (string \<Rightarrow> nat list) \<Rightarrow> uuid \<Rightarrow> uuid \<Rightarrow> db \<Rightarrow> failure + admin_user_summary \<times> nat \<times> uuid list"
where
  "AdminOverview_overview isUuidV7 lenient userId organizationId d =
     (case findMembership organizationId userId d of
        None \<Rightarrow> Inl (notFound USER_PROFILE_NOT_FOUND ''Profile not found.'')
      | Some _ \<Rightarrow>
          (case GetUserProfile_execute userId d of
             Inl e \<Rightarrow> Inl e
           | Inr profile \<Rightarrow>
               (case ListMyUploads_execute isUuidV7 lenient organizationId userId None (Some RECENT_FILE_LIMIT) d of
                  Inl e \<Rightarrow> Inl e
                | Inr (files, _, _) \<Rightarrow>
                    Inr (to_admin_summary profile, CountUserUploads_execute organizationId userId d, map fv_id files))))"

section \<open>Controllers\<close>

text \<open>The body of a stored file: the view without its owner.\<close>

record stored_file_response =
  fr_id :: uuid
  fr_filename :: string
  fr_mimeType :: string
  fr_sizeBytes :: int
  fr_status :: stored_file_status
  fr_createdAt :: string
  fr_confirmedAt :: "string option"

definition StoredFileResponseDto_from :: "stored_file_view \<Rightarrow> stored_file_response" where
  "StoredFileResponseDto_from v =
     \<lparr>fr_id = fv_id v, fr_filename = fv_filename v, fr_mimeType = fv_mimeType v, fr_sizeBytes = fv_sizeBytes v,
      fr_status = fv_status v, fr_createdAt = fv_createdAt v, fr_confirmedAt = fv_confirmedAt v\<rparr>"

datatype api_response =
    MembersBody "member_view list" "invitation_view list"
  | InvitationBody invitation_view
  | NoContent
  | AcceptedBody uuid string
  | OrganizationBody organization_view
  | OrganizationsBody "organization_view list"
  | PresignedBody presigned_upload_view
  | StoredFileBody stored_file_response
  | UploadsBody string "stored_file_response listing"
  | AuditBody string "audit_entry_view listing"
  | EntitlementsBody "string list" "(string \<times> rat) list"
  | ProfileBody user_profile_view
  | AdminUsersBody string "admin_user_summary listing"
  | AdminOverviewBody admin_user_summary nat "uuid list"

type_synonym 'b handler = "('b world, api_response) action"

definition on_db :: "(db, 'a) action \<Rightarrow> ('a \<Rightarrow> api_response) \<Rightarrow> 'b handler" where
  "on_db f body w = (let (r, d') = f (w_db w) in (map_sum id body r, w\<lparr>w_db := d'\<rparr>))"

definition reading :: "(db \<Rightarrow> failure + 'a) \<Rightarrow> ('a \<Rightarrow> api_response) \<Rightarrow> 'b handler" where
  "reading f body w = (map_sum id body (f (w_db w)), w)"

definition with_tenant :: "http_request \<Rightarrow> (tenant_context \<Rightarrow> 'b handler) \<Rightarrow> 'b handler" where
  "with_tenant r k w = (case requireTenant r of Inl e \<Rightarrow> (Inl e, w) | Inr t \<Rightarrow> k t w)"

definition with_caller :: "http_request \<Rightarrow> (authenticated_session \<Rightarrow> 'b handler) \<Rightarrow> 'b handler" where
  "with_caller r k w = (case requireCaller r of Inl e \<Rightarrow> (Inl e, w) | Inr s \<Rightarrow> k s w)"

subsection \<open>Organizations\<close>

definition MembersController_list :: "'b api_env \<Rightarrow> http_request \<Rightarrow> 'b handler" where
  "MembersController_list env r =
     with_tenant r (\<lambda>t. reading (\<lambda>d. Inr (ListMembers_execute (env_now env) (tc_organizationId t) d))
       (\<lambda>(ms, is). MembersBody ms is))"

definition MembersController_invite :: "'b api_env \<Rightarrow> http_request \<Rightarrow> string \<Rightarrow> organization_role \<Rightarrow> 'b handler" where
  "MembersController_invite env r email role =
     with_tenant r (\<lambda>t w.
       case InviteMember_execute (env_z env) (env_sha env) (env_add env) (env_newId env 0) (env_token env)
              (env_now env) (tc_organizationId t) email role (w_db w, w_broker w) of
         (res, (d', b')) \<Rightarrow> (map_sum id InvitationBody res, w\<lparr>w_db := d', w_broker := b'\<rparr>))"

definition MembersController_revoke :: "http_request \<Rightarrow> uuid \<Rightarrow> 'b handler" where
  "MembersController_revoke r invitationId =
     with_tenant r (\<lambda>t. on_db (RevokeInvitation_execute (tc_organizationId t) invitationId) (\<lambda>_. NoContent))"

definition MembersController_setRole :: "http_request \<Rightarrow> uuid \<Rightarrow> organization_role \<Rightarrow> 'b handler" where
  "MembersController_setRole r userId role =
     with_tenant r (\<lambda>t. on_db (ChangeMemberRole_execute (tc_organizationId t) userId role) (\<lambda>_. NoContent))"

definition MembersController_remove :: "http_request \<Rightarrow> uuid \<Rightarrow> 'b handler" where
  "MembersController_remove r userId =
     with_tenant r (\<lambda>t. on_db (RemoveMember_execute (tc_organizationId t) userId) (\<lambda>_. NoContent))"

definition InvitationRedemptionController_accept :: "'b api_env \<Rightarrow> http_request \<Rightarrow> string \<Rightarrow> 'b handler" where
  "InvitationRedemptionController_accept env r token =
     with_caller r (\<lambda>s. on_db (AcceptInvitation_execute (env_sha env) (env_newId env 0) (env_now env) token
                                 (as_userId s) (as_email s)) (\<lambda>(g, role). AcceptedBody g role))"

definition OrganizationsController_create :: "'b api_env \<Rightarrow> http_request \<Rightarrow> string \<Rightarrow> string \<Rightarrow> 'b handler" where
  "OrganizationsController_create env r slug name =
     with_caller r (\<lambda>s. on_db (CreateOrganization_execute (env_newId env 0) (env_newId env 1) (env_now env)
                                 (as_userId s) slug name) OrganizationBody)"

definition OrganizationsController_list :: "http_request \<Rightarrow> 'b handler" where
  "OrganizationsController_list r =
     with_caller r (\<lambda>s. reading (\<lambda>d. Inr (ListMyOrganizations_execute (as_userId s) d)) OrganizationsBody)"

definition OrganizationsController_archive :: "'b api_env \<Rightarrow> http_request \<Rightarrow> uuid \<Rightarrow> 'b handler" where
  "OrganizationsController_archive env r organizationId =
     with_caller r (\<lambda>s. on_db (archive (env_z env) (env_newId env 0) (env_now env) organizationId (as_userId s)) (\<lambda>_. NoContent))"

definition OrganizationsController_restore :: "'b api_env \<Rightarrow> http_request \<Rightarrow> uuid \<Rightarrow> 'b handler" where
  "OrganizationsController_restore env r organizationId =
     with_caller r (\<lambda>s. on_db (restore (env_z env) (env_newId env 0) (env_now env) organizationId (as_userId s)) (\<lambda>_. NoContent))"

definition OrganizationsController_purge :: "'b api_env \<Rightarrow> http_request \<Rightarrow> uuid \<Rightarrow> 'b handler" where
  "OrganizationsController_purge env r organizationId =
     with_caller r (\<lambda>s. on_db (purge (env_z env) (env_newId env 0) (env_now env) organizationId (as_userId s)) (\<lambda>_. NoContent))"

subsection \<open>Uploads\<close>

definition UploadController_createPolicy :: "'b api_env \<Rightarrow> http_request \<Rightarrow> string \<Rightarrow> string \<Rightarrow> int \<Rightarrow> 'b handler" where
  "UploadController_createPolicy env r filename mimeType sizeBytes =
     with_tenant r (\<lambda>t. with_caller r (\<lambda>s.
       on_db (PresignUpload_execute (env_limits env) (env_policy env) (env_newId env 0) (env_now env)
                (tc_organizationId t) (as_userId s) filename mimeType sizeBytes) PresignedBody))"

definition correlationIdOf :: "'b api_env \<Rightarrow> http_request \<Rightarrow> uuid option" where
  "correlationIdOf env r =
     (let c = ids_correlationId (fst (ensureRequestIds (env_newId env 1) False r)) in
      if env_isUuidV7 env c then Some c else None)"

definition UploadController_confirmUpload :: "'b api_env \<Rightarrow> http_request \<Rightarrow> uuid \<Rightarrow> 'b handler" where
  "UploadController_confirmUpload env r fileId =
     with_tenant r (\<lambda>t. with_caller r (\<lambda>s w.
       on_db (ConfirmUpload_execute (env_z env) (env_detect env) (env_down env) (env_newId env 0) (env_now env)
                (tc_organizationId t) (as_userId s) fileId (correlationIdOf env r) (w_objects w))
         (\<lambda>v. StoredFileBody (StoredFileResponseDto_from v)) w))"

definition UploadController_list :: "'b api_env \<Rightarrow> http_request \<Rightarrow> string option \<Rightarrow> nat option \<Rightarrow> 'b handler" where
  "UploadController_list env r startingAfter limit =
     with_tenant r (\<lambda>t. with_caller r (\<lambda>s.
       reading (ListMyUploads_execute (env_isUuidV7 env) (env_lenient env) (tc_organizationId t) (as_userId s)
                  startingAfter limit)
         (\<lambda>(files, hasMore, lastCursor).
            UploadsBody (collectionUrl (rq_url r)) (map StoredFileResponseDto_from files, hasMore, lastCursor))))"

subsection \<open>Audit log, billing and users\<close>

definition AuditLogController_list ::
  "'b api_env \<Rightarrow> http_request \<Rightarrow> string option \<Rightarrow> nat option \<Rightarrow> string option \<Rightarrow> string option \<Rightarrow> 'b handler"
where
  "AuditLogController_list env r startingAfter limit actorId resource =
     with_tenant r (\<lambda>t.
       reading (\<lambda>d. ListAuditEntries_execute (env_isUuidV7 env) (env_lenient env) startingAfter limit
                  \<lparr>af_organizationId = Some (tc_organizationId t), af_actorId = actorId, af_resource = resource\<rparr> (auditLog d))
         (AuditBody (collectionUrl (rq_url r))))"

definition BillingController_getEntitlements :: "'b api_env \<Rightarrow> http_request \<Rightarrow> 'b handler" where
  "BillingController_getEntitlements env r =
     with_tenant r (\<lambda>t w.
       case GetEntitlements_execute (env_now env) (tc_organizationId t) (w_db w) (w_cache w) of
         ((features, limits), cache) \<Rightarrow> (Inr (EntitlementsBody features limits), w\<lparr>w_cache := cache\<rparr>))"

definition UsersController_me :: "http_request \<Rightarrow> 'b handler" where
  "UsersController_me r = with_caller r (\<lambda>s. reading (GetUserProfile_execute (as_userId s)) ProfileBody)"

definition UsersController_byId :: "uuid \<Rightarrow> 'b handler" where
  "UsersController_byId i = reading (GetUserProfile_execute i) ProfileBody"

text \<open>
  A display name that is \<open>null\<close> is passed on; the profile is read first, and trimming \<open>null\<close> then throws.
\<close>

definition UsersController_updateMe ::
  "'b api_env \<Rightarrow> http_request \<Rightarrow> string option option \<Rightarrow> uuid option option \<Rightarrow> 'b handler"
where
  "UsersController_updateMe env r displayName avatarFileId =
     with_caller r (\<lambda>s w.
       if displayName = Some None
       then (case findByUserId (as_userId s) (w_db w) of
               None \<Rightarrow> (Inl (notFound USER_PROFILE_NOT_FOUND ''Profile not found.''), w)
             | Some _ \<Rightarrow> (Inl (PlainError ''Cannot read properties of null (reading 'trim')''), w))
       else on_db (UpdateUserProfile_execute (env_now env) (as_userId s) (as_userId s)
                     (case displayName of Some n \<Rightarrow> n | None \<Rightarrow> None) avatarFileId) ProfileBody w)"

subsection \<open>Admin\<close>

definition AdminController_listUsers :: "'b api_env \<Rightarrow> http_request \<Rightarrow> string option \<Rightarrow> nat option \<Rightarrow> 'b handler" where
  "AdminController_listUsers env r startingAfter limit =
     with_tenant r (\<lambda>t.
       reading (AdminOverview_listUsers (env_isUuidV7 env) (env_lenient env) (tc_organizationId t) startingAfter limit)
         (AdminUsersBody (collectionUrl (rq_url r))))"

definition AdminController_userOverview :: "'b api_env \<Rightarrow> http_request \<Rightarrow> uuid \<Rightarrow> 'b handler" where
  "AdminController_userOverview env r i =
     with_tenant r (\<lambda>t.
       reading (AdminOverview_overview (env_isUuidV7 env) (env_lenient env) i (tc_organizationId t))
         (\<lambda>(user, fileCount, recent). AdminOverviewBody user fileCount recent))"

section \<open>Routes\<close>

text \<open>The decorators of the class and of the method; no route sets a key on both.\<close>

definition tenant_route :: "organization_role list option \<Rightarrow> route_metadata" where
  "tenant_route roles =
     \<lparr>rm_isPublic = None, rm_requiredRoles = None, rm_tenantRequired = Some True, rm_requiredTenantRoles = roles\<rparr>"

definition user_route :: "string list option \<Rightarrow> route_metadata" where
  "user_route roles =
     \<lparr>rm_isPublic = None, rm_requiredRoles = roles, rm_tenantRequired = None, rm_requiredTenantRoles = None\<rparr>"

primrec metadata :: "api_call \<Rightarrow> route_metadata" where
  "metadata MembersList = tenant_route (Some [Owner, Admin, Member, Viewer])"
| "metadata (MembersInvite email role) = tenant_route (Some [Owner, Admin])"
| "metadata (MembersRevoke i) = tenant_route (Some [Owner, Admin])"
| "metadata (MembersSetRole u role) = tenant_route (Some [Owner])"
| "metadata (MembersRemove u) = tenant_route (Some [Owner, Admin])"
| "metadata (InvitationsAccept token) = user_route None"
| "metadata (OrganizationsCreate slug name) = user_route None"
| "metadata OrganizationsList = user_route None"
| "metadata (OrganizationsArchive g) = user_route None"
| "metadata (OrganizationsRestore g) = user_route None"
| "metadata (OrganizationsPurge g) = user_route None"
| "metadata (UploadPresign f m n) = tenant_route None"
| "metadata (UploadConfirm f) = tenant_route None"
| "metadata (UploadList c n) = tenant_route None"
| "metadata (AuditLogsList c n a rs) = tenant_route (Some [Owner, Admin])"
| "metadata BillingEntitlements = tenant_route None"
| "metadata UsersMe = user_route None"
| "metadata (UsersById u) = user_route (Some [''admin''])"
| "metadata (UsersUpdateMe n a) = user_route None"
| "metadata (AdminListUsers c n) = tenant_route (Some [Owner, Admin])"
| "metadata (AdminUserOverview u) = tenant_route (Some [Owner, Admin])"

text \<open>A request body or query that fails its class, and a path parameter that is not a UUID.\<close>

definition invalid :: "'b api_env \<Rightarrow> api_call \<Rightarrow> 'b handler" where
  "invalid env call w =
     (Inl (validation_with VALIDATION_FAILED ''One or more fields did not pass validation.'' (env_fieldErrors env call)), w)"

definition valid_body :: "'b api_env \<Rightarrow> api_call \<Rightarrow> bool \<Rightarrow> 'b handler \<Rightarrow> 'b handler" where
  "valid_body env call ok k = (if ok then k else invalid env call)"

definition path_uuid :: "'b api_env \<Rightarrow> string \<Rightarrow> 'b handler \<Rightarrow> 'b handler" where
  "path_uuid env s k w =
     (if env_pipeUuid env s then k w else (Inl (HttpFailure 400 ''Validation failed (uuid v 7 is expected)''), w))"

fun handler :: "'b api_env \<Rightarrow> http_request \<Rightarrow> api_call \<Rightarrow> 'b handler" where
  "handler env r MembersList = MembersController_list env r"
| "handler env r (MembersInvite email role) =
     (case InviteMemberRequestDto (env_isEmail env) email role of
        None \<Rightarrow> invalid env (MembersInvite email role)
      | Some ro \<Rightarrow> MembersController_invite env r email ro)"
| "handler env r (MembersRevoke i) = path_uuid env i (MembersController_revoke r i)"
| "handler env r (MembersSetRole u role) =
     path_uuid env u
       (case ChangeMemberRoleRequestDto role of
          None \<Rightarrow> invalid env (MembersSetRole u role)
        | Some ro \<Rightarrow> MembersController_setRole r u ro)"
| "handler env r (MembersRemove u) = path_uuid env u (MembersController_remove r u)"
| "handler env r (InvitationsAccept token) =
     valid_body env (InvitationsAccept token) (AcceptInvitationRequestDto token) (InvitationRedemptionController_accept env r token)"
| "handler env r (OrganizationsCreate slug name) =
     valid_body env (OrganizationsCreate slug name) (CreateOrganizationRequestDto slug name)
       (OrganizationsController_create env r slug name)"
| "handler env r OrganizationsList = OrganizationsController_list r"
| "handler env r (OrganizationsArchive g) = path_uuid env g (OrganizationsController_archive env r g)"
| "handler env r (OrganizationsRestore g) = path_uuid env g (OrganizationsController_restore env r g)"
| "handler env r (OrganizationsPurge g) = path_uuid env g (OrganizationsController_purge env r g)"
| "handler env r (UploadPresign f m n) =
     valid_body env (UploadPresign f m n) (PresignUploadRequestDto f m n) (UploadController_createPolicy env r f m n)"
| "handler env r (UploadConfirm f) =
     valid_body env (UploadConfirm f) (env_pipeUuid env f) (UploadController_confirmUpload env r f)"
| "handler env r (UploadList c n) =
     valid_body env (UploadList c n) (ListUploadsRequestDto c n) (UploadController_list env r c n)"
| "handler env r (AuditLogsList c n a rs) =
     valid_body env (AuditLogsList c n a rs) (ListAuditLogsRequestDto (env_pipeUuid env) c n a rs)
       (AuditLogController_list env r c n a rs)"
| "handler env r BillingEntitlements = BillingController_getEntitlements env r"
| "handler env r UsersMe = UsersController_me r"
| "handler env r (UsersById u) = path_uuid env u (UsersController_byId u)"
| "handler env r (UsersUpdateMe n a) =
     valid_body env (UsersUpdateMe n a) (UpdateProfileRequestDto (env_pipeUuid env) n a)
       (UsersController_updateMe env r n a)"
| "handler env r (AdminListUsers c n) =
     valid_body env (AdminListUsers c n) (ListUsersRequestDto c n) (AdminController_listUsers env r c n)"
| "handler env r (AdminUserOverview u) = path_uuid env u (AdminController_userOverview env r u)"

text \<open>A request: the guards, then the pipes and the handler.\<close>

definition api_request :: "'b api_env \<Rightarrow> http_request \<Rightarrow> api_call \<Rightarrow> 'b handler" where
  "api_request env r call w =
     (case run_guards (APP_GUARDS (env_getSession env) (env_throttle env) (env_isUuidV7 env) (w_db w) (metadata call)) r of
        (Inl e, _) \<Rightarrow> (Inl e, w)
      | (Inr _, r') \<Rightarrow> handler env r' call w)"

end
