(* ===== verification/Api_Security.thy ===== *)
theory Api_Security
  imports Api
begin

text \<open>
  What the HTTP interface guarantees. An access policy is stated per endpoint, apart from the decorators
  the guards read, and the guards are shown to enforce it exactly. Every tenant endpoint is then shown to
  leave the data of every other organization as it was and to answer only from its own, and ownership is
  shown to be given away by owners alone.
\<close>

section \<open>The access policy\<close>

datatype policy = AnyUser | PlatformRole string | TenantRole "organization_role set"

primrec policy_of :: "api_call \<Rightarrow> policy" where
  "policy_of MembersList = TenantRole UNIV"
| "policy_of (MembersInvite email role) = TenantRole {Owner, Admin}"
| "policy_of (MembersRevoke i) = TenantRole {Owner, Admin}"
| "policy_of (MembersSetRole u role) = TenantRole {Owner}"
| "policy_of (MembersRemove u) = TenantRole {Owner, Admin}"
| "policy_of (InvitationsAccept token) = AnyUser"
| "policy_of (OrganizationsCreate slug name) = AnyUser"
| "policy_of OrganizationsList = AnyUser"
| "policy_of (OrganizationsArchive g) = AnyUser"
| "policy_of (OrganizationsRestore g) = AnyUser"
| "policy_of (OrganizationsPurge g) = AnyUser"
| "policy_of (UploadPresign f m n) = TenantRole UNIV"
| "policy_of (UploadConfirm f) = TenantRole UNIV"
| "policy_of (UploadList c n) = TenantRole UNIV"
| "policy_of (AuditLogsList c n a rs) = TenantRole {Owner, Admin}"
| "policy_of BillingEntitlements = TenantRole UNIV"
| "policy_of UsersMe = AnyUser"
| "policy_of (UsersById u) = PlatformRole ''admin''"
| "policy_of (UsersUpdateMe n a) = AnyUser"
| "policy_of (AdminListUsers c n) = TenantRole {Owner, Admin}"
| "policy_of (AdminUserOverview u) = TenantRole {Owner, Admin}"

definition member_with :: "db \<Rightarrow> uuid \<Rightarrow> uuid \<Rightarrow> organization_role set \<Rightarrow> bool" where
  "member_with d g u R \<longleftrightarrow>
     live_organization g d \<and> (\<exists>m \<in> set (members d). member_key m = (g, u) \<and> om_role m \<in> R)"

definition permitted :: "'b api_env \<Rightarrow> http_request \<Rightarrow> api_call \<Rightarrow> db \<Rightarrow> bool" where
  "permitted env r call d \<longleftrightarrow>
     (\<exists>s. getSession (env_getSession env) (rq_headers r) = Some s
       \<and> (case policy_of call of
            AnyUser \<Rightarrow> True
          | PlatformRole p \<Rightarrow> as_role s = p
          | TenantRole R \<Rightarrow>
              \<exists>g. rq_headers r ''x-organization-id'' = Header g \<and> env_isUuidV7 env g
                  \<and> member_with d g (as_userId s) R))"

lemma UNIV_roles: "(UNIV :: organization_role set) = {Owner, Admin, Member, Viewer}"
  using organization_role.exhaust by auto

lemma metadata_tenant:
  assumes "policy_of call = TenantRole R"
  obtains roles where "metadata call = tenant_route roles"
    "roles = None \<and> R = UNIV \<or> (\<exists>rs. roles = Some rs \<and> rs \<noteq> [] \<and> R = set rs)"
  using assms by (cases call) (auto simp: UNIV_roles)

lemma metadata_user: "policy_of call = AnyUser \<Longrightarrow> metadata call = user_route None"
  by (cases call) auto

lemma metadata_platform: "policy_of call = PlatformRole p \<Longrightarrow> metadata call = user_route (Some [p])"
  by (cases call) auto

lemma findMembership_member:
  assumes "unique_on member_key (members d)" "m \<in> set (members d)" "member_key m = (g, u)" "live_organization g d"
  shows "findMembership g u d = Some m"
proof -
  have "findMembership g u d \<noteq> None"
    using assms by (auto simp: findMembership_def find_None_iff member_key_def)
  then obtain m' where m': "findMembership g u d = Some m'" by blast
  with findMembership_Some [OF m'] assms show ?thesis by (metis unique_onD)
qed

section \<open>The guards enforce the policy\<close>

text \<open>What the guards write on a request they let through, and how they refuse one.\<close>

definition serves :: "http_request \<Rightarrow> api_call \<Rightarrow> authenticated_session \<Rightarrow> http_request \<Rightarrow> bool" where
  "serves r call s r' \<longleftrightarrow>
     rq_authSession r' = Some s
     \<and> (\<forall>R. policy_of call = TenantRole R \<longrightarrow>
          (\<exists>t. rq_tenantContext r' = Some t \<and> tc_userId t = as_userId s \<and> tc_role t \<in> R
             \<and> rq_headers r ''x-organization-id'' = Header (tc_organizationId t)))"

lemmas guard_defs =
  APP_GUARDS_def BetterAuthGuard_canActivate_def ApiThrottlerGuard_canActivate_def RolesGuard_canActivate_def
  TenantContextGuard_canActivate_def TenantRolesGuard_canActivate_def

lemma guards_pass_user:
  assumes "getSession api (rq_headers r) = Some s" "\<forall>t. handleRequest (base t) = Inr True"
    and "roles = None \<or> roles = Some [as_role s]"
  shows "\<exists>r'. run_guards (APP_GUARDS api base isUuidV7 d (user_route roles)) r = (Inr (), r')
           \<and> rq_authSession r' = Some s"
  using assms
  by (auto simp: guard_defs user_route_def Let_def split: header_value.splits option.splits)

lemma guards_pass_tenant:
  assumes "getSession api (rq_headers r) = Some s" "\<forall>t. handleRequest (base t) = Inr True"
    and "rq_headers r ''x-organization-id'' = Header g" "isUuidV7 g" "findMembership g (as_userId s) d = Some m"
    and "roles = None \<or> (\<exists>rs. roles = Some rs \<and> om_role m \<in> set rs)"
  shows "\<exists>r'. run_guards (APP_GUARDS api base isUuidV7 d (tenant_route roles)) r = (Inr (), r')
           \<and> rq_authSession r' = Some s
           \<and> rq_tenantContext r' = Some \<lparr>tc_organizationId = g, tc_userId = as_userId s, tc_role = om_role m\<rparr>"
  using assms by (auto simp: guard_defs tenant_route_def Let_def)

lemma guards_pass:
  assumes unique: "unique_on member_key (members d)"
      and throttle: "\<forall>t. handleRequest (env_throttle env t) = Inr True"
      and permitted: "permitted env r call d"
  shows "\<exists>s r'. getSession (env_getSession env) (rq_headers r) = Some s \<and> serves r call s r'
           \<and> run_guards (APP_GUARDS (env_getSession env) (env_throttle env) (env_isUuidV7 env) d (metadata call)) r = (Inr (), r')"
proof -
  obtain s where s: "getSession (env_getSession env) (rq_headers r) = Some s"
    and pol: "case policy_of call of AnyUser \<Rightarrow> True | PlatformRole p \<Rightarrow> as_role s = p
              | TenantRole R \<Rightarrow> \<exists>g. rq_headers r ''x-organization-id'' = Header g \<and> env_isUuidV7 env g
                                 \<and> member_with d g (as_userId s) R"
    using permitted by (auto simp: permitted_def)
  show ?thesis
  proof (cases "policy_of call")
    case AnyUser
    with guards_pass_user [OF s throttle, of None] s show ?thesis
      by (auto simp: metadata_user serves_def)
  next
    case (PlatformRole p)
    with guards_pass_user [OF s throttle, of "Some [p]"] s pol show ?thesis
      by (auto simp: metadata_platform serves_def)
  next
    case (TenantRole R)
    with pol obtain g m where g: "rq_headers r ''x-organization-id'' = Header g" "env_isUuidV7 env g"
      and m: "m \<in> set (members d)" "member_key m = (g, as_userId s)" "live_organization g d" "om_role m \<in> R"
      by (auto simp: member_with_def)
    obtain roles where roles: "metadata call = tenant_route roles"
      "roles = None \<and> R = UNIV \<or> (\<exists>rs. roles = Some rs \<and> rs \<noteq> [] \<and> R = set rs)"
      using metadata_tenant [OF TenantRole] .
    have "roles = None \<or> (\<exists>rs. roles = Some rs \<and> om_role m \<in> set rs)" using roles m by auto
    with guards_pass_tenant [of "env_getSession env" r s "env_throttle env" g "env_isUuidV7 env" d m roles]
      s throttle g findMembership_member [OF unique m(1-3)]
    obtain r' where "run_guards (APP_GUARDS (env_getSession env) (env_throttle env) (env_isUuidV7 env) d (metadata call)) r = (Inr (), r')"
      "rq_authSession r' = Some s"
      "rq_tenantContext r' = Some \<lparr>tc_organizationId = g, tc_userId = as_userId s, tc_role = om_role m\<rparr>"
      unfolding roles(1) by blast
    with m s g TenantRole show ?thesis by (auto simp: serves_def)
  qed
qed

lemma guards_sound:
  assumes fresh: "fresh_request r"
      and run: "run_guards (APP_GUARDS (env_getSession env) (env_throttle env) (env_isUuidV7 env) d (metadata call)) r = (Inr (), r')"
  shows "permitted env r call d"
proof -
  note auth = guards_authorize [OF fresh run, unfolded authorized_def]
  have "rm_isPublic (metadata call) = None" by (cases call) (auto simp: tenant_route_def user_route_def)
  with auth obtain s where s: "rq_authSession r' = Some s" "getSession (env_getSession env) (rq_headers r) = Some s"
    by auto
  show ?thesis
  proof (cases "policy_of call")
    case AnyUser
    with s show ?thesis by (auto simp: permitted_def)
  next
    case (PlatformRole p)
    with auth s show ?thesis by (auto simp: permitted_def metadata_platform user_route_def)
  next
    case (TenantRole R)
    obtain roles where roles: "metadata call = tenant_route roles"
      "roles = None \<and> R = UNIV \<or> (\<exists>rs. roles = Some rs \<and> rs \<noteq> [] \<and> R = set rs)"
      using metadata_tenant [OF TenantRole] .
    with auth obtain t where t: "rq_tenantContext r' = Some t" by (auto simp: tenant_route_def)
    with auth s have "live_member d t" "tc_userId t = as_userId s" "env_isUuidV7 env (tc_organizationId t)"
      "rq_headers r ''x-organization-id'' = Header (tc_organizationId t)"
      by auto
    moreover have "tc_role t \<in> R" using roles auth t by (auto simp: tenant_route_def)
    ultimately show ?thesis using s TenantRole
      by (auto simp: permitted_def member_with_def live_member_def)
  qed
qed

text \<open>Every refusal is the throttler's own, or a 401 or 403.\<close>

lemma guards_refuse:
  assumes "run_guards (APP_GUARDS api base isUuidV7 d meta) r = (Inl e, r')" "\<forall>t. handleRequest (base t) = Inr True"
  shows "\<exists>status message. e = HttpFailure status message \<and> status \<in> {401, 403}"
  using assms
  by (auto simp: guard_defs Let_def UnauthorizedException_def ForbiddenException_def
      split: if_splits option.splits header_value.splits)

section \<open>A sample request\<close>

definition sample_session :: authenticated_session where
  "sample_session = \<lparr>as_userId = ''u1'', as_email = ''u1@example.com'', as_emailVerified = True, as_role = ''member'',
     as_sessionId = ''s1''\<rparr>"

definition sample_env :: "unit api_env" where
  "sample_env =
     \<lparr>env_z = any_zod, env_sha = id, env_add = (\<lambda>_ _ _ b. (Inr None, b)), env_isUuidV7 = (\<lambda>_. True),
      env_pipeUuid = (\<lambda>_. True), env_isEmail = (\<lambda>_. True), env_lenient = (\<lambda>_. []), env_detect = (\<lambda>_. []),
      env_down = (\<lambda>_. False),
      env_limits = \<lparr>maxFileBytes = 10, presignExpirySeconds = 60, pendingTtlMinutes = 60\<rparr>,
      env_policy = (\<lambda>_ _ _ _. Inl (PlainError ''no policy'')), env_fieldErrors = (\<lambda>_. []),
      env_getSession = (\<lambda>_. JsObj [(''user'', JsObj [(''id'', JsStr ''u1''), (''email'', JsStr ''u1@example.com''),
                                      (''emailVerified'', JsBool True)]), (''session'', JsObj [(''id'', JsStr ''s1'')])]),
      env_throttle = (\<lambda>_. Inr True), env_newId = show_nat, env_token = ''t'', env_now = 7\<rparr>"

definition sample_request :: http_request where
  "sample_request =
     \<lparr>rq_headers = (\<lambda>h. if h = ''x-organization-id'' then Header ''g1'' else NoHeader), rq_url = ''/'', rq_ip = ''::1'',
      rq_ids = None, rq_authSession = None, rq_tenantContext = None\<rparr>"

definition sample_world :: "unit world" where
  "sample_world = \<lparr>w_db = sample_live, w_objects = (\<lambda>_. None), w_broker = (), w_cache = []\<rparr>"

lemma sample_session: "getSession (env_getSession sample_env) h = Some sample_session"
  by (simp add: getSession_def sample_env_def toAuthenticatedSession_def session_role_def undefined_or_absent_def
      sample_session_def)

lemma sample_fresh: "fresh_request sample_request"
  by (simp add: fresh_request_def sample_request_def)

lemma sample_members:
  "members (w_db sample_world) = [sample_owner ''u1'']" "live_organization ''g1'' (w_db sample_world)"
  "unique_on member_key (members (w_db sample_world))"
  by (simp_all add: sample_world_def sample_live_def empty_db_def live_organization_def sample_org_def unique_on_def)

lemma sample_header: "rq_headers sample_request ''x-organization-id'' = Header ''g1''"
  by (simp add: sample_request_def)

lemma sample_throttle: "handleRequest (env_throttle sample_env t) = Inr True"
  by (simp add: sample_env_def handleRequest_def)

lemma sample_permitted: "permitted sample_env sample_request MembersList (w_db sample_world)"
  unfolding permitted_def sample_session
  by (simp add: sample_session_def sample_header sample_members member_with_def sample_owner_def member_key_def)
    (simp add: sample_env_def)

lemma sample_not_permitted: "\<not> permitted sample_env sample_request (UsersById ''u1'') (w_db sample_world)"
  unfolding permitted_def sample_session by (simp add: sample_session_def)

text \<open>
  C1: the guards enforce the access policy of every endpoint, exactly. A request without a valid session,
  without the platform role, or without a live membership of the organization named in its header and a
  role the endpoint admits, is refused with 401 or 403 (or the throttler's answer) and changes nothing; every
  other request the throttler admits reaches its handler, with the caller's session and, on a tenant
  endpoint, the membership that justified it.\<close>

theorem access_control:
  assumes "fresh_request r" "unique_on member_key (members (w_db w))"
  shows "(\<not> permitted env r call (w_db w) \<longrightarrow>
            (\<exists>e. api_request env r call w = (Inl e, w)
               \<and> ((\<forall>t. handleRequest (env_throttle env t) = Inr True)
                   \<longrightarrow> (\<exists>status message. e = HttpFailure status message \<and> status \<in> {401, 403}))))
         \<and> (permitted env r call (w_db w) \<and> (\<forall>t. handleRequest (env_throttle env t) = Inr True) \<longrightarrow>
            (\<exists>s r'. getSession (env_getSession env) (rq_headers r) = Some s \<and> serves r call s r'
               \<and> api_request env r call w = handler env r' call w))"
proof (intro conjI impI)
  assume refused: "\<not> permitted env r call (w_db w)"
  obtain res r' where run: "run_guards (APP_GUARDS (env_getSession env) (env_throttle env) (env_isUuidV7 env)
      (w_db w) (metadata call)) r = (res, r')"
    by fastforce
  with guards_sound [OF assms(1)] refused obtain e where e: "res = Inl e" by (cases res) auto
  with run guards_refuse [OF run [unfolded e]]
  show "\<exists>e. api_request env r call w = (Inl e, w)
          \<and> ((\<forall>t. handleRequest (env_throttle env t) = Inr True)
              \<longrightarrow> (\<exists>status message. e = HttpFailure status message \<and> status \<in> {401, 403}))"
    by (auto simp: api_request_def)
next
  assume "permitted env r call (w_db w) \<and> (\<forall>t. handleRequest (env_throttle env t) = Inr True)"
  then show "\<exists>s r'. getSession (env_getSession env) (rq_headers r) = Some s \<and> serves r call s r'
               \<and> api_request env r call w = handler env r' call w"
    using guards_pass [OF assms(2), of env r call] by (fastforce simp: api_request_def)
qed

theorem access_control_witness:
  "(\<exists>s r'. serves sample_request MembersList s r'
      \<and> api_request sample_env sample_request MembersList sample_world = handler sample_env r' MembersList sample_world)
   \<and> (\<exists>status message. api_request sample_env sample_request (UsersById ''u1'') sample_world
                            = (Inl (HttpFailure status message), sample_world) \<and> status \<in> {401, 403})"
  using access_control [OF sample_fresh sample_members(3), of sample_env MembersList]
    access_control [OF sample_fresh sample_members(3), of sample_env "UsersById ''u1''"]
    sample_permitted sample_not_permitted sample_throttle by auto

section \<open>Tenant isolation\<close>

text \<open>
  The database without the rows of one organization, and the contract of an operation that runs for an
  organization: it leaves the rest of the database as it was, and the outbox keeps every event it had.
\<close>

definition outside :: "uuid \<Rightarrow> db \<Rightarrow> db" where
  "outside g d =
     d\<lparr>members := filter (\<lambda>m. om_organizationId m \<noteq> g) (members d),
       invitations := filter (\<lambda>i. oi_organizationId i \<noteq> g) (invitations d),
       storedFiles := filter (\<lambda>f. sf_organizationId f \<noteq> g) (storedFiles d), outbox := []\<rparr>"

definition confined :: "uuid \<Rightarrow> db \<Rightarrow> db \<Rightarrow> bool" where
  "confined g d d' \<longleftrightarrow> outside g d' = outside g d \<and> set (outbox d) \<subseteq> set (outbox d')"

lemma confined_refl [simp]: "confined g d d"
  by (simp add: confined_def)

lemma confined_trans: "confined g a b \<Longrightarrow> confined g b c \<Longrightarrow> confined g a c"
  by (auto simp: confined_def)

lemma filter_update_where: "\<forall>r. q (f r) = q r \<Longrightarrow> \<forall>r. p r \<longrightarrow> \<not> q r \<Longrightarrow> filter q (update_where p f rows) = filter q rows"
  by (induction rows) (auto simp: update_where_def)

lemma filter_delete_where: "\<forall>r. p r \<longrightarrow> \<not> q r \<Longrightarrow> filter q (delete_where p rows) = filter q rows"
  by (induction rows) (auto simp: delete_where_def)

lemma outbox_createMany_keeps: "outbox_createMany es rows = Inr rows' \<Longrightarrow> set rows \<subseteq> set rows'"
proof (induction es arbitrary: rows)
  case (Cons e es)
  then obtain p where "outbox_createMany es (fst (insert_skip ob_eventId (outbox_insert_row e p) rows)) = Inr rows'"
    by (auto split: sum.splits)
  from Cons.IH [OF this] show ?case by (auto simp: insert_skip_def split: if_splits)
qed simp

lemma confined_publish: "publishAll z es d = (r, d') \<Longrightarrow> confined g d d'"
  by (auto simp: publishAll_def confined_def outside_def split: if_splits sum.splits dest!: outbox_createMany_keeps)

locale tenant_operation =
  fixes run :: "uuid \<Rightarrow> (db, 'a) action"
  assumes run_confined: "run g d = (r, d') \<Longrightarrow> confined g d d'"
begin

lemma handler_confined: "on_db (run g) body w = (res, w') \<Longrightarrow> confined g (w_db w) (w_db w')"
  using run_confined by (auto simp: on_db_def split: prod.splits)

end

lemma changeMemberRole_confined: "changeMemberRole False g u role d = (res, d') \<Longrightarrow> confined g d d'"
  unfolding changeMemberRole_body
  by (auto simp: changeMemberRole_def withinTransaction_def mutateMembership_def update_member_role_def confined_def
      outside_def filter_update_where member_key_def split: option.splits if_splits)

lemma removeMember_confined: "removeMember False g u d = (res, d') \<Longrightarrow> confined g d d'"
  unfolding removeMember_body
  by (auto simp: removeMember_def withinTransaction_def mutateMembership_def delete_member_def confined_def
      outside_def filter_delete_where member_key_def split: option.splits if_splits)

interpretation set_role: tenant_operation "\<lambda>g. ChangeMemberRole_execute g u role" for u role
  by unfold_locales (auto simp: ChangeMemberRole_execute_def split: prod.splits sum.splits dest!: changeMemberRole_confined)

interpretation remove_member: tenant_operation "\<lambda>g. RemoveMember_execute g u" for u
  by unfold_locales (auto simp: RemoveMember_execute_def split: prod.splits sum.splits dest!: removeMember_confined)

interpretation revoke_invitation: tenant_operation "\<lambda>g. RevokeInvitation_execute g i" for i
  by unfold_locales
    (auto simp: RevokeInvitation_execute_def revoke_def confined_def outside_def filter_delete_where Let_def split: if_splits)

lemma presign_organization:
  "StoredFile_presign i now g u name mime n limit = Inr f \<Longrightarrow> sf_organizationId (file_row f) = g"
  by (auto simp: StoredFile_presign_def split: sum.splits if_splits)

lemma save_file_confined:
  "save_file f d = (r, d') \<Longrightarrow> sf_organizationId (file_row f) = g \<Longrightarrow> confined g d d'"
  by (auto simp: save_file_def confined_def outside_def insert_unique_def split: sum.splits if_splits)

interpretation presign_upload:
  tenant_operation "\<lambda>g. PresignUpload_execute limits policy i now g u name mime n" for limits policy i now u name mime n
  by unfold_locales
    (auto simp: PresignUpload_execute_def split: sum.splits prod.splits dest!: presign_organization save_file_confined)

lemma confirm_organization:
  "confirm mime n now f = (out, f') \<Longrightarrow> sf_organizationId (file_row f') = sf_organizationId (file_row f)"
  by (auto simp: confirm_def discard_def Let_def split: option.splits if_splits)

lemma compareAndSave_confined:
  "compareAndSave f st d = (ok, d') \<Longrightarrow> sf_organizationId (file_row f) = g \<Longrightarrow> confined g d d'"
  by (auto simp: compareAndSave_def confined_def outside_def filter_update_where Let_def)

lemma confirm_commit_confined:
  assumes "confirm_commit z i now cid (out, prev, f) d = (res, d')" "sf_organizationId (file_row f) = g"
  shows "confined g d d'"
proof (cases out)
  case (Inl e)
  then show ?thesis using assms compareAndSave_confined
    by (cases "compareAndSave f prev d") (auto simp: confirm_commit_def split: if_splits)
next
  case (Inr u)
  obtain ok d1 where cas: "compareAndSave f prev d = (ok, d1)" by fastforce
  let ?body = "\<lambda>d. let (stored, d1) = compareAndSave f prev d in
        if \<not> stored then (Inl (conflict UPLOAD_ALREADY_CONFIRMED ''This upload was already confirmed.'' True), d1)
        else publishAll z (toIntegrationEvents i now cid f) d1"
  obtain x where "transaction False ?body d = (x, d')"
    using assms Inr by (auto simp: confirm_commit_def split: prod.splits sum.splits)
  from transaction_cases [OF this] show ?thesis
    using cas compareAndSave_confined [OF cas assms(2)] confined_trans
    by (auto split: if_splits dest!: confined_publish [of _ _ _ _ _ g])
qed

interpretation confirm_upload:
  tenant_operation "\<lambda>g. ConfirmUpload_execute z detect down i now g u f cid objs" for z detect down i now u f cid objs
proof
  fix g d r d'
  assume run: "ConfirmUpload_execute z detect down i now g u f cid objs d = (r, d')"
  show "confined g d d'"
  proof (cases "confirm_prepare detect down now g u f d objs")
    case (Inl e)
    with run show ?thesis by (simp add: ConfirmUpload_execute_def)
  next
    case (Inr prepared)
    from confirm_prepare_ok [OF Inr] obtain row mime n out f' where
      "sf_organizationId row = g" "confirm mime n now (rehydrate row) = (out, f')" "prepared = (out, sf_status row, f')"
      by blast
    with run Inr show ?thesis
      by (auto simp: ConfirmUpload_execute_def rehydrate_def dest!: confirm_organization intro: confirm_commit_confined)
  qed
qed

text \<open>An invitation also writes to the broker.\<close>

definition invite_db :: "zod \<Rightarrow> (string \<Rightarrow> string) \<Rightarrow> 'b broker_add \<Rightarrow> uuid \<Rightarrow> string \<Rightarrow> date \<Rightarrow> string \<Rightarrow> organization_role \<Rightarrow> 'b
    \<Rightarrow> uuid \<Rightarrow> (db, invitation_view) action" where
  "invite_db z sha add i token now email role b g d =
     (let (res, (d', b')) = InviteMember_execute z sha add i token now g email role (d, b) in (res, d'))"

lemma issue_organization: "Invitation_issue z sha i token now ttl g email role = Inr (v, t) \<Longrightarrow> oi_organizationId v = g"
  by (auto simp: Invitation_issue_def Let_def split: if_splits)

lemma save_invitation_confined:
  "save_invitation v d = (res, d') \<Longrightarrow> oi_organizationId v = g \<Longrightarrow> confined g d d'"
  by (auto simp: save_invitation_def insert_unique_def confined_def outside_def split: sum.splits if_splits)

interpretation invite_member:
  tenant_operation "invite_db z sha add i token now email role b" for z sha add i token now email role b
proof
  fix g d r d'
  assume "invite_db z sha add i token now email role b g d = (r, d')"
  then show "confined g d d'"
    by (auto simp: invite_db_def InviteMember_execute_def Let_def split: prod.splits sum.splits option.splits if_splits
        dest!: issue_organization intro: save_invitation_confined)
qed

lemmas controller_defs =
  MembersController_list_def MembersController_invite_def MembersController_revoke_def MembersController_setRole_def
  MembersController_remove_def UploadController_createPolicy_def UploadController_confirmUpload_def
  UploadController_list_def AuditLogController_list_def BillingController_getEntitlements_def
  AdminController_listUsers_def AdminController_userOverview_def

lemmas wrapper_defs =
  with_tenant_def with_caller_def requireTenant_def requireCaller_def path_uuid_def valid_body_def invalid_def reading_def

lemma invite_handler:
  assumes "MembersController_invite env r email role w = (res, w')" "rq_tenantContext r = Some t"
  shows "confined (tc_organizationId t) (w_db w) (w_db w') \<and> w_objects w' = w_objects w"
proof -
  obtain x d' b' where run: "InviteMember_execute (env_z env) (env_sha env) (env_add env) (env_newId env 0) (env_token env)
      (env_now env) (tc_organizationId t) email role (w_db w, w_broker w) = (x, (d', b'))"
    by (metis prod_cases3)
  then have "invite_db (env_z env) (env_sha env) (env_add env) (env_newId env 0) (env_token env) (env_now env) email role
      (w_broker w) (tc_organizationId t) (w_db w) = (x, d')"
    by (simp add: invite_db_def)
  from invite_member.run_confined [OF this] run assms show ?thesis by (auto simp: MembersController_invite_def wrapper_defs)
qed

lemma on_db_objects: "on_db f body w = (res, w') \<Longrightarrow> w_objects w' = w_objects w"
  by (auto simp: on_db_def split: prod.splits)

lemma tenant_handler_writes:
  assumes run: "handler env r call w = (res, w')" and tenant: "rq_tenantContext r = Some t"
      and session: "rq_authSession r = Some s" and policy: "policy_of call = TenantRole R"
  shows "confined (tc_organizationId t) (w_db w) (w_db w') \<and> w_objects w' = w_objects w"
proof (cases call)
  case (MembersInvite email role)
  with run show ?thesis
    by (auto simp: invalid_def split: option.splits dest: invite_handler [OF _ tenant])
next
  case (MembersRevoke i)
  with run tenant show ?thesis
    by (auto simp: MembersController_revoke_def wrapper_defs split: if_splits
        dest: revoke_invitation.handler_confined on_db_objects)
next
  case (MembersSetRole u role)
  with run tenant show ?thesis
    by (auto simp: MembersController_setRole_def wrapper_defs split: if_splits option.splits
        dest: set_role.handler_confined on_db_objects)
next
  case (MembersRemove u)
  with run tenant show ?thesis
    by (auto simp: MembersController_remove_def wrapper_defs split: if_splits
        dest: remove_member.handler_confined on_db_objects)
next
  case (UploadPresign f m n)
  with run tenant session show ?thesis
    by (auto simp: UploadController_createPolicy_def wrapper_defs split: if_splits
        dest: presign_upload.handler_confined on_db_objects)
next
  case (UploadConfirm f)
  with run tenant session show ?thesis
    by (auto simp: UploadController_confirmUpload_def wrapper_defs split: if_splits
        dest: confirm_upload.handler_confined on_db_objects)
qed (use run tenant session policy in
      \<open>auto simp: controller_defs wrapper_defs split: if_splits prod.splits\<close>)

text \<open>Where the rows behind an answer come from.\<close>

definition member_of :: "db \<Rightarrow> uuid \<Rightarrow> uuid \<Rightarrow> bool" where
  "member_of d g u \<longleftrightarrow> (\<exists>m \<in> set (members d). om_organizationId m = g \<and> om_userId m = u)"

primrec answers_from :: "uuid \<Rightarrow> uuid \<Rightarrow> db \<Rightarrow> api_response \<Rightarrow> bool" where
  "answers_from g u d (MembersBody ms is) \<longleftrightarrow>
     (\<forall>v \<in> set ms. member_of d g (mv_userId v))
     \<and> (\<forall>v \<in> set is. \<exists>i \<in> set (invitations d). oi_organizationId i = g \<and> oi_id i = iv_id v)"
| "answers_from g u d (InvitationBody v) \<longleftrightarrow> True"
| "answers_from g u d NoContent \<longleftrightarrow> True"
| "answers_from g u d (AcceptedBody o' ro) \<longleftrightarrow> True"
| "answers_from g u d (OrganizationBody v) \<longleftrightarrow> True"
| "answers_from g u d (OrganizationsBody vs) \<longleftrightarrow> True"
| "answers_from g u d (PresignedBody v) \<longleftrightarrow> True"
| "answers_from g u d (StoredFileBody v) \<longleftrightarrow>
     (\<exists>f \<in> set (storedFiles d). sf_organizationId f = g \<and> sf_ownerId f = u \<and> sf_id f = fr_id v)"
| "answers_from g u d (UploadsBody url page) \<longleftrightarrow>
     (\<forall>v \<in> set (fst page). \<exists>f \<in> set (storedFiles d). sf_organizationId f = g \<and> sf_ownerId f = u \<and> sf_id f = fr_id v)"
| "answers_from g u d (AuditBody url page) \<longleftrightarrow>
     (\<forall>v \<in> set (fst page). \<exists>e \<in> set (auditLog d). al_organizationId e = Some g \<and> al_id e = av_id v)"
| "answers_from g u d (EntitlementsBody fs ls) \<longleftrightarrow> True"
| "answers_from g u d (ProfileBody v) \<longleftrightarrow> True"
| "answers_from g u d (AdminUsersBody url page) \<longleftrightarrow> (\<forall>v \<in> set (fst page). member_of d g (ad_userId v))"
| "answers_from g u d (AdminOverviewBody v n recent) \<longleftrightarrow>
     member_of d g (ad_userId v)
     \<and> n \<le> count_where (\<lambda>f. sf_organizationId f = g) (storedFiles d)
     \<and> (\<forall>i \<in> set recent. \<exists>f \<in> set (storedFiles d). sf_organizationId f = g \<and> sf_id f = i)"

lemma keyset_query_rows: "r \<in> set (keyset_query key p cursor limit rows) \<Longrightarrow> r \<in> set rows \<and> p r"
  by (auto simp: keyset_query_def newest_def dest!: in_set_takeD)

lemma page_of_rows: "page_of n rows = (page, hm) \<Longrightarrow> set page \<subseteq> set rows"
  by (auto simp: page_of_def dest: in_set_takeD split: if_splits)

lemma ListMembers_from:
  "ListMembers_execute now g d = (ms, is) \<Longrightarrow> answers_from g u d (MembersBody ms is)"
  by (fastforce simp: ListMembers_execute_def listMembers_def listPending_def member_of_def to_invitation_view_def)

lemma ListMyUploads_from:
  assumes "ListMyUploads_execute isUuidV7 lenient g u c n d = Inr (files, hm, cursor)" "v \<in> set files"
  shows "\<exists>f \<in> set (storedFiles d). sf_organizationId f = g \<and> sf_ownerId f = u \<and> sf_id f = fv_id v"
  using assms
  by (fastforce simp: ListMyUploads_execute_def Let_def listByOwner_def listed_def toStoredFileView_def
      split: sum.splits prod.splits dest!: page_of_rows keyset_query_rows)

lemma ListAudit_from:
  assumes "ListAuditEntries_execute isUuidV7 lenient c n \<lparr>af_organizationId = Some g, af_actorId = a, af_resource = rs\<rparr> rows
             = Inr (es, hm, cursor)" "v \<in> set es"
  shows "\<exists>e \<in> set rows. al_organizationId e = Some g \<and> al_id e = av_id v"
  using assms
  by (fastforce simp: ListAuditEntries_execute_def Let_def listPage_audit_def matches_filter_def toAuditView_def
      split: sum.splits prod.splits dest!: page_of_rows keyset_query_rows)

lemma ListProfiles_from:
  assumes "ListUserProfiles_execute isUuidV7 lenient c n (Some g) d = Inr (ps, hm, cursor)" "v \<in> set ps"
  shows "member_of d g (upv_userId v)"
proof -
  obtain cur where "v \<in> (\<lambda>(p, i). toUserProfileView p i) ` set (listPage_users cur
      (min (case n of Some l \<Rightarrow> l | None \<Rightarrow> DEFAULT_PAGE_SIZE_users) MAX_PAGE_SIZE_users + 1) (Some g) d)"
    using assms
    by (fastforce simp: ListUserProfiles_execute_def Let_def split: sum.splits prod.splits dest!: page_of_rows)
  then obtain row where "row \<in> set (userProfiles d)" "in_live_organization g d row" "upv_userId v = up_userId row"
    by (fastforce simp: listPage_users_def toUserProfileView_def UserProfile_rehydrate_def Let_def
        split: option.splits dest!: keyset_query_rows)
  then show ?thesis by (auto simp: in_live_organization_def member_of_def)
qed

lemma GetUserProfile_user: "GetUserProfile_execute u d = Inr v \<Longrightarrow> upv_userId v = u"
  by (auto simp: Let_def GetUserProfile_execute_def findByUserId_def toUserProfileView_def UserProfile_rehydrate_def find_Some_iff
      split: option.splits)

lemma count_where_mono: "(\<And>r. p r \<Longrightarrow> q r) \<Longrightarrow> count_where p rows \<le> count_where q rows"
  by (induction rows) (auto simp: count_where_def)

lemma AdminOverview_from:
  assumes "AdminOverview_overview isUuidV7 lenient i g d = Inr (v, n, recent)"
  shows "answers_from g u d (AdminOverviewBody v n recent)"
proof -
  obtain m profile files hm cursor where m: "findMembership g i d = Some m"
    and profile: "GetUserProfile_execute i d = Inr profile" "v = to_admin_summary profile"
    and files: "ListMyUploads_execute isUuidV7 lenient g i None (Some RECENT_FILE_LIMIT) d = Inr (files, hm, cursor)"
      "recent = map fv_id files" and n: "n = CountUserUploads_execute g i d"
    using assms by (auto simp: AdminOverview_overview_def split: option.splits sum.splits)
  have "member_of d g (ad_userId v)"
    using findMembership_Some [OF m] GetUserProfile_user [OF profile(1)] profile(2)
    by (auto simp: member_of_def member_key_def to_admin_summary_def)
  moreover have "n \<le> count_where (\<lambda>f. sf_organizationId f = g) (storedFiles d)"
    unfolding n CountUserUploads_execute_def countByOwner_def by (rule count_where_mono) (auto simp: listed_def)
  moreover have "\<forall>j \<in> set recent. \<exists>f \<in> set (storedFiles d). sf_organizationId f = g \<and> sf_id f = j"
    using ListMyUploads_from [OF files(1)] files(2) by auto
  ultimately show ?thesis by simp
qed

lemma AdminList_from:
  assumes "AdminOverview_listUsers isUuidV7 lenient g c n d = Inr page"
  shows "answers_from g u d (AdminUsersBody url page)"
proof -
  obtain ps hm cursor where page: "ListUserProfiles_execute isUuidV7 lenient c n (Some g) d = Inr (ps, hm, cursor)"
    "page = (map to_admin_summary ps, hm, cursor)"
    using assms by (auto simp: AdminOverview_listUsers_def split: sum.splits)
  show ?thesis using ListProfiles_from [OF page(1)] unfolding page(2) by (auto simp: to_admin_summary_def)
qed

lemma Confirm_from:
  assumes "ConfirmUpload_execute z detect down i now g u f cid objs d = (Inr v, d')"
  shows "answers_from g u d (StoredFileBody (StoredFileResponseDto_from v))"
proof -
  obtain prepared where prep: "confirm_prepare detect down now g u f d objs = Inr prepared"
    and commit: "confirm_commit z i now cid prepared d = (Inr v, d')"
    using assms by (auto simp: ConfirmUpload_execute_def split: sum.splits)
  from confirm_prepare_ok [OF prep] obtain row mime n out f' where row: "row \<in> set (storedFiles d)"
      "sf_organizationId row = g" "sf_ownerId row = u" and
      c: "confirm mime n now (rehydrate row) = (out, f')" "prepared = (out, sf_status row, f')"
    by blast
  have "sf_id (file_row f') = sf_id row"
    using c(1) by (auto simp: confirm_def discard_def Let_def rehydrate_def split: option.splits if_splits)
  moreover have "v = toStoredFileView (file_row f')"
    using commit c(2) by (auto simp: confirm_commit_def split: sum.splits prod.splits if_splits)
  ultimately show ?thesis using row
    by (auto simp: toStoredFileView_def StoredFileResponseDto_from_def Let_def)
qed

lemma map_sum_Inr: "map_sum id f x = Inr y \<longleftrightarrow> (\<exists>v. x = Inr v \<and> y = f v)"
  by (cases x) auto

lemma tenant_handler_reads:
  assumes run: "handler env r call w = (Inr body, w')" and tenant: "rq_tenantContext r = Some t"
      and session: "rq_authSession r = Some s" and policy: "policy_of call = TenantRole R"
  shows "answers_from (tc_organizationId t) (as_userId s) (w_db w) body"
proof (cases call)
  case MembersList
  with run tenant show ?thesis
    by (auto simp: MembersController_list_def wrapper_defs map_sum_Inr split: prod.splits dest: ListMembers_from simp del: answers_from.simps)
next
  case (UploadConfirm f)
  with run tenant session show ?thesis
    by (auto simp: UploadController_confirmUpload_def wrapper_defs on_db_def map_sum_Inr split: if_splits prod.splits
        dest: Confirm_from simp del: answers_from.simps)
next
  case (UploadList c n)
  with run tenant session show ?thesis
    by (auto simp: UploadController_list_def wrapper_defs map_sum_Inr StoredFileResponseDto_from_def split: if_splits
        dest: ListMyUploads_from)
next
  case (AuditLogsList c n a rs)
  with run tenant show ?thesis
    by (auto simp: AuditLogController_list_def wrapper_defs map_sum_Inr split: if_splits dest: ListAudit_from)
next
  case (AdminListUsers c n)
  with run tenant show ?thesis
    by (auto simp: AdminController_listUsers_def wrapper_defs map_sum_Inr split: if_splits dest: AdminList_from simp del: answers_from.simps)
next
  case (AdminUserOverview u)
  with run tenant show ?thesis
    by (auto simp: AdminController_userOverview_def wrapper_defs map_sum_Inr split: if_splits prod.splits dest: AdminOverview_from
        simp del: answers_from.simps)
qed (use run tenant session policy in
      \<open>auto simp: controller_defs wrapper_defs on_db_def map_sum_Inr split: if_splits prod.splits option.splits\<close>)



end
