(* ===== verification/Ownership.thy ===== *)
theory Ownership
  imports Api_Security
begin

text \<open>
  Ownership of an organization through the HTTP interface: which requests leave the tenancy tables alone,
  that every request keeps the tenancy invariant, and that a new owner is always made by an owner or is the
  creator of a new organization.
\<close>

definition same_tenancy :: "db \<Rightarrow> db \<Rightarrow> bool" where
  "same_tenancy d d' \<longleftrightarrow>
     organizations d' = organizations d \<and> members d' = members d \<and> invitations d' = invitations d \<and> users d' = users d"

lemma same_tenancy_refl [simp]: "same_tenancy d d"
  by (simp add: same_tenancy_def)

lemma same_tenancy_trans: "same_tenancy a b \<Longrightarrow> same_tenancy b c \<Longrightarrow> same_tenancy a c"
  by (simp add: same_tenancy_def)

lemma same_tenancy_inv: "same_tenancy d d' \<Longrightarrow> tenancy_inv d' = tenancy_inv d"
  by (simp add: same_tenancy_def tenancy_inv_def)

lemma same_tenancy_publish: "publishAll z es d = (r, d') \<Longrightarrow> same_tenancy d d'"
  by (auto simp: same_tenancy_def dest!: publishAll_outbox)

lemma same_tenancy_cas: "compareAndSave f st d = (ok, d') \<Longrightarrow> same_tenancy d d'"
  by (auto simp: compareAndSave_def same_tenancy_def Let_def)

lemma same_tenancy_presign: "PresignUpload_execute limits policy i now g u name mime n d = (r, d') \<Longrightarrow> same_tenancy d d'"
  by (auto simp: PresignUpload_execute_def save_file_def same_tenancy_def insert_unique_def split: sum.splits prod.splits if_splits)

lemma same_tenancy_update: "UpdateUserProfile_execute now c u n a d = (r, d') \<Longrightarrow> same_tenancy d d'"
  by (auto simp: UpdateUserProfile_execute_def save_profile_def same_tenancy_def insert_unique_def Let_def
      split: sum.splits prod.splits if_splits option.splits)

lemma same_tenancy_commit:
  assumes "confirm_commit z i now cid (out, prev, f) d = (res, d')"
  shows "same_tenancy d d'"
proof (cases out)
  case (Inl e)
  then show ?thesis using assms same_tenancy_cas
    by (cases "compareAndSave f prev d") (auto simp: confirm_commit_def split: if_splits)
next
  case (Inr u)
  obtain ok d1 where cas: "compareAndSave f prev d = (ok, d1)" by fastforce
  let ?body = "\<lambda>d. let (stored, d1) = compareAndSave f prev d in
        if \<not> stored then (Inl (conflict UPLOAD_ALREADY_CONFIRMED ''This upload was already confirmed.'' True), d1)
        else publishAll z (toIntegrationEvents i now cid f) d1"
  obtain x where "transaction False ?body d = (x, d')"
    using assms Inr by (auto simp: confirm_commit_def split: prod.splits sum.splits)
  from transaction_cases [OF this] show ?thesis
    using cas same_tenancy_cas [OF cas] same_tenancy_trans
    by (auto split: if_splits dest!: same_tenancy_publish)
qed

lemma same_tenancy_confirm:
  "ConfirmUpload_execute z detect down i now g u f cid objs d = (r, d') \<Longrightarrow> same_tenancy d d'"
  by (auto simp: ConfirmUpload_execute_def split: sum.splits intro: same_tenancy_commit)

section \<open>Who becomes an owner\<close>

definition new_owner :: "uuid \<Rightarrow> uuid \<Rightarrow> db \<Rightarrow> db \<Rightarrow> bool" where
  "new_owner g u d d' \<longleftrightarrow> owns g u (members d') \<and> \<not> owns g u (members d)"

lemma new_owner_same: "same_tenancy d d' \<Longrightarrow> \<not> new_owner g u d d'"
  by (simp add: same_tenancy_def new_owner_def)

lemma new_owner_confined: "confined h d d' \<Longrightarrow> new_owner g u d d' \<Longrightarrow> g = h"
proof (rule ccontr)
  assume c: "confined h d d'" and n: "new_owner g u d d'" and ne: "g \<noteq> h"
  have "filter (\<lambda>m. om_organizationId m \<noteq> h) (members d') = filter (\<lambda>m. om_organizationId m \<noteq> h) (members d)"
    using c by (auto simp: confined_def outside_def dest!: arg_cong [where f = members])
  then have "{m \<in> set (members d'). om_organizationId m \<noteq> h} = {m \<in> set (members d). om_organizationId m \<noteq> h}"
    by (metis set_filter)
  with n ne show False unfolding new_owner_def owns_def by blast
qed

lemma new_owner_subset: "set (members d') \<subseteq> set (members d) \<Longrightarrow> \<not> new_owner g u d d'"
  by (auto simp: new_owner_def owns_def)

lemma removeMember_subset: "removeMember False g u d = (r, d') \<Longrightarrow> set (members d') \<subseteq> set (members d)"
  unfolding removeMember_body
  by (auto simp: removeMember_def withinTransaction_def mutateMembership_def delete_member_def delete_where_def
      split: option.splits if_splits)

lemma remove_subset: "RemoveMember_execute g u d = (r, d') \<Longrightarrow> set (members d') \<subseteq> set (members d)"
  by (auto simp: RemoveMember_execute_def split: prod.splits sum.splits dest!: removeMember_subset)

lemma invite_rows:
  assumes "InviteMember_execute z sha add i token now org email role (d, b) = (r, (d', b'))"
  shows "d' = d \<or> (\<exists>v. d' = d\<lparr>invitations := invitations d @ [v]\<rparr> \<and> oi_role v \<noteq> Owner)"
  using assms
  by (auto simp: InviteMember_execute_def save_invitation_def Invitation_issue_def Let_def insert_unique_Inr
      split: option.splits if_splits sum.splits prod.splits)

lemma revoke_members: "RevokeInvitation_execute g i d = (r, d') \<Longrightarrow> members d' = members d"
  by (auto simp: RevokeInvitation_execute_def revoke_def Let_def split: if_splits)

lemma changeState_members:
  assumes "changeState z i now org actor a n d = (r, d')"
  shows "members d' = members d"
proof -
  have "d' = d \<or> (\<exists>u. publishAll z [lifecycle_event i now n org actor] (snd (setArchivedAt org a d)) = (Inr u, d'))"
    using assms by (auto simp: changeState_def Let_def case_prod_unfold split: option.splits if_splits
        sum.splits dest!: transaction_cases)
  then show ?thesis by (auto simp: setArchivedAt_def Let_def same_tenancy_def dest!: same_tenancy_publish)
qed

lemma purge_subset:
  assumes "purge z i now org actor d = (r, d')"
  shows "set (members d') \<subseteq> set (members d)"
proof -
  have "d' = d \<or> (\<exists>u v d1. purgeWithClient org d = (Inr v, d1)
      \<and> publishAll z [lifecycle_event i now ORGANIZATION_PURGED org actor] d1 = (Inr u, d'))"
    using assms by (auto simp: purge_def purge_organization_def withinTransaction_def
        split: option.splits if_splits sum.splits prod.splits dest!: transaction_cases)
  then show ?thesis
    by (auto simp: purgeWithClient_def Let_def same_tenancy_def delete_where_def split: option.splits if_splits
        dest!: same_tenancy_publish)
qed

lemma accept_no_owner:
  assumes inv: "tenancy_inv d" and run: "AcceptInvitation_execute sha i now token user email d = (r, d')"
  shows "\<not> new_owner g u d d'"
proof -
  have "d' = d \<or> (\<exists>v \<in> set (invitations d). \<exists>w c d1. markAccepted (oi_id v) now d = (c, d1)
      \<and> addMember i now (oi_organizationId v) user (oi_role v) d1 = (Inr w, d'))"
    using run by (auto simp: AcceptInvitation_execute_def findPendingByTokenHash_def find_Some_iff Let_def transaction_def
        split: option.splits if_splits prod.splits sum.splits)
  moreover have "oi_role v \<noteq> Owner" if "v \<in> set (invitations d)" for v
    using inv that by (auto simp: tenancy_inv_def)
  ultimately show ?thesis
    by (auto simp: new_owner_def markAccepted_def addMember_def insert_skip_def owns_append require_reference_def Let_def
        split: if_splits sum.splits)
qed

lemma create_owner:
  assumes "CreateOrganization_execute i j now owner slug name d = (r, d')" "new_owner g u d d'"
  shows "u = owner \<and> g \<notin> org_id ` set (organizations d)"
proof -
  have "d' = d \<or> (\<exists>x. createOrganizationWithOwner j now x owner d = (Inr (), d'))"
    using assms(1) by (auto simp: CreateOrganization_execute_def createWithOwner_def split: sum.splits prod.splits
        dest!: transaction_cases)
  with assms(2) obtain x where "createOrganizationWithOwner j now x owner d = (Inr (), d')"
    by (auto simp: new_owner_def)
  then have "org_id x \<notin> org_id ` set (organizations d)
      \<and> (\<exists>m. members d' = members d @ [m] \<and> om_organizationId m = org_id x \<and> om_userId m = owner)"
    by (auto simp: createOrganizationWithOwner_def Let_def insert_unique_Inr split: sum.splits)
  with assms(2) show ?thesis unfolding new_owner_def by (metis owns_append)
qed

section \<open>Every request\<close>

lemmas user_controller_defs =
  InvitationRedemptionController_accept_def OrganizationsController_create_def OrganizationsController_list_def
  OrganizationsController_archive_def OrganizationsController_restore_def OrganizationsController_purge_def
  UsersController_me_def UsersController_byId_def UsersController_updateMe_def

lemma on_db_run: "on_db f body w = (res, w') \<Longrightarrow> \<exists>x. f (w_db w) = (x, w_db w')"
  by (auto simp: on_db_def split: prod.splits)

text \<open>What a handler may do to the tenancy tables.\<close>

inductive tenancy_effect :: "api_call \<Rightarrow> http_request \<Rightarrow> db \<Rightarrow> db \<Rightarrow> bool" for call r where
  nothing: "same_tenancy d d' \<Longrightarrow> tenancy_effect call r d d'"
| invite: "oi_role v \<noteq> Owner \<Longrightarrow> tenancy_effect call r d (d\<lparr>invitations := invitations d @ [v]\<rparr>)"
| revoke: "RevokeInvitation_execute org i d = (x1, d') \<Longrightarrow> tenancy_effect call r d d'"
| set_role: "policy_of call = TenantRole {Owner} \<Longrightarrow> rq_tenantContext r = Some t
     \<Longrightarrow> ChangeMemberRole_execute (tc_organizationId t) user role d = (x1, d') \<Longrightarrow> tenancy_effect call r d d'"
| remove: "RemoveMember_execute org user d = (x1, d') \<Longrightarrow> tenancy_effect call r d d'"
| accept: "AcceptInvitation_execute sha i now token user email d = (x2, d') \<Longrightarrow> tenancy_effect call r d d'"
| create: "rq_authSession r = Some s
     \<Longrightarrow> CreateOrganization_execute i j now (as_userId s) slug name d = (x3, d') \<Longrightarrow> tenancy_effect call r d d'"
| lifecycle: "changeState z i now org actor a n d = (x1, d') \<Longrightarrow> tenancy_effect call r d d'"
| purge: "purge z i now org actor d = (x1, d') \<Longrightarrow> tenancy_effect call r d d'"

lemma effect_same: "d' = d \<Longrightarrow> tenancy_effect call r d d'"
  by (simp add: tenancy_effect.nothing)

lemma invite_effect:
  assumes "MembersController_invite env r email role w = (res, w')"
  shows "tenancy_effect call r (w_db w) (w_db w')"
proof (cases "rq_tenantContext r")
  case None
  with assms show ?thesis by (auto simp: MembersController_invite_def wrapper_defs intro: effect_same)
next
  case (Some t)
  obtain x d' b' where run: "InviteMember_execute (env_z env) (env_sha env) (env_add env) (env_newId env 0) (env_token env)
      (env_now env) (tc_organizationId t) email role (w_db w, w_broker w) = (x, (d', b'))"
    by (metis prod_cases3)
  with assms Some have "w_db w' = d'" by (auto simp: MembersController_invite_def wrapper_defs)
  with invite_rows [OF run] show ?thesis by (auto intro: effect_same tenancy_effect.invite)
qed

lemma on_db_effect:
  assumes "on_db f body w = (res, w')" "\<And>x d'. f (w_db w) = (x, d') \<Longrightarrow> tenancy_effect call r (w_db w) d'"
  shows "tenancy_effect call r (w_db w) (w_db w')"
  using on_db_run [OF assms(1)] assms(2) by blast

lemma set_role_effect:
  "rq_tenantContext r = Some t \<Longrightarrow> ChangeMemberRole_execute (tc_organizationId t) user role d = (x, d')
     \<Longrightarrow> tenancy_effect (MembersSetRole u name) r d d'"
  by (auto intro: tenancy_effect.set_role)

lemmas writing_controller_defs =
  MembersController_revoke_def MembersController_setRole_def MembersController_remove_def
  InvitationRedemptionController_accept_def OrganizationsController_create_def OrganizationsController_archive_def
  OrganizationsController_restore_def OrganizationsController_purge_def UploadController_createPolicy_def
  UploadController_confirmUpload_def UsersController_updateMe_def archive_def restore_def

lemmas writing_effects =
  set_role_effect tenancy_effect.revoke tenancy_effect.remove tenancy_effect.accept tenancy_effect.create
  tenancy_effect.lifecycle tenancy_effect.purge same_tenancy_presign [THEN tenancy_effect.nothing]
  same_tenancy_confirm [THEN tenancy_effect.nothing] same_tenancy_update [THEN tenancy_effect.nothing]

lemma handler_effect:
  assumes run: "handler env r call w = (res, w')"
  shows "tenancy_effect call r (w_db w) (w_db w')"
proof (cases call)
  case (MembersInvite email role)
  with run show ?thesis by (auto simp: invalid_def split: option.splits intro: effect_same invite_effect)
qed (use run in \<open>auto simp: writing_controller_defs controller_defs user_controller_defs wrapper_defs
       intro: effect_same on_db_effect writing_effects split: if_splits option.splits prod.splits\<close>)

lemma effect_inv: "tenancy_effect call r d d' \<Longrightarrow> tenancy_inv d \<Longrightarrow> tenancy_inv d'"
proof (induction rule: tenancy_effect.induct)
  case (nothing d d')
  then show ?case by (simp add: same_tenancy_inv)
next
  case (invite v d)
  then show ?case by (auto simp: tenancy_inv_def)
next
  case (set_role t user role d x1 d')
  then show ?case
    by (auto simp: ChangeMemberRole_execute_def split: prod.splits sum.splits dest: tenancy_inv_changeMemberRole)
next
  case (remove org user d x1 d')
  then show ?case
    by (auto simp: RemoveMember_execute_def split: prod.splits sum.splits dest: tenancy_inv_removeMember)
qed (auto dest: tenancy_inv_create tenancy_inv_accept tenancy_inv_revoke tenancy_inv_changeState tenancy_inv_purge)

lemma effect_owner:
  assumes "tenancy_effect call r d d'" "tenancy_inv d" "new_owner g u d d'"
  shows "(policy_of call = TenantRole {Owner} \<and> (\<exists>t. rq_tenantContext r = Some t \<and> tc_organizationId t = g))
         \<or> (\<exists>s. rq_authSession r = Some s \<and> u = as_userId s \<and> g \<notin> org_id ` set (organizations d))"
  using assms
proof (induction rule: tenancy_effect.induct)
  case (nothing d d')
  then show ?case by (simp add: new_owner_same)
next
  case (invite v d)
  then show ?case by (simp add: new_owner_def)
next
  case (revoke org i d x1 d')
  then show ?case by (simp add: new_owner_def revoke_members)
next
  case (set_role t user role d x1 d')
  from set_role.hyps(3) have "confined (tc_organizationId t) d d'" by (rule set_role.run_confined)
  from new_owner_confined [OF this set_role.prems(2)] show ?case using set_role.hyps by auto
next
  case (remove org user d x1 d')
  then show ?case by (meson remove_subset new_owner_subset)
next
  case (accept sha i now token user email d x2 d')
  then show ?case by (meson accept_no_owner)
next
  case (create s i j now slug name d x3 d')
  then show ?case using create_owner by blast
next
  case (lifecycle z i now org actor a n d x1 d')
  then show ?case by (simp add: new_owner_def changeState_members)
next
  case (purge z i now org actor d x1 d')
  then show ?case by (meson purge_subset new_owner_subset)
qed

text \<open>
  C3: ownership is given by owners. Every request to the interface keeps the tenancy invariant (unique
  ids, slugs and memberships, every organization with an owner, no invitation that grants ownership), and
  if a request makes someone an owner of an organization, then the caller was an owner of it, or created it
  with this request and is the one who becomes its owner. In particular no invitation, and no admin, makes
  an owner.\<close>

theorem ownership_from_owners:
  assumes "fresh_request r" "tenancy_inv (w_db w)" "api_request env r call w = (res, w')"
  shows "tenancy_inv (w_db w')
         \<and> (\<forall>g u. owns g u (members (w_db w')) \<and> \<not> owns g u (members (w_db w)) \<longrightarrow>
              (\<exists>s. getSession (env_getSession env) (rq_headers r) = Some s
                 \<and> (owns g (as_userId s) (members (w_db w))
                     \<or> u = as_userId s \<and> g \<notin> org_id ` set (organizations (w_db w)))))"
proof -
  obtain x r' where run: "run_guards (APP_GUARDS (env_getSession env) (env_throttle env) (env_isUuidV7 env)
      (w_db w) (metadata call)) r = (x, r')"
    by fastforce
  show ?thesis
  proof (cases x)
    case (Inl e)
    with run assms(2,3) show ?thesis by (auto simp: api_request_def)
  next
    case (Inr y)
    with run have run': "run_guards (APP_GUARDS (env_getSession env) (env_throttle env) (env_isUuidV7 env)
      (w_db w) (metadata call)) r = (Inr (), r')" by simp
    note auth = guards_authorize [OF assms(1) run', unfolded authorized_def]
    have "handler env r' call w = (res, w')" using assms(3) run' by (simp add: api_request_def)
    note effect = handler_effect [OF this]
    have "\<exists>s. getSession (env_getSession env) (rq_headers r) = Some s
            \<and> (owns g (as_userId s) (members (w_db w)) \<or> u = as_userId s \<and> g \<notin> org_id ` set (organizations (w_db w)))"
      if "new_owner g u (w_db w) (w_db w')" for g u
      using effect_owner [OF effect assms(2) that]
    proof (elim disjE conjE exE)
      fix t assume t: "policy_of call = TenantRole {Owner}" "rq_tenantContext r' = Some t" "tc_organizationId t = g"
      obtain roles where "metadata call = tenant_route roles" "roles = Some [Owner]"
        using t(1) by (cases call) auto
      with auth t have "tc_role t = Owner" by (auto simp: tenant_route_def)
      with auth t show ?thesis by (auto simp: live_member_def owns_def member_key_def)
    next
      fix s assume "rq_authSession r' = Some s" "u = as_userId s" "g \<notin> org_id ` set (organizations (w_db w))"
      with auth show ?thesis by auto
    qed
    with effect_inv [OF effect assms(2)] show ?thesis by (auto simp: new_owner_def)
  qed
qed

theorem ownership_from_owners_witness:
  "tenancy_inv (w_db (snd (api_request sample_env sample_request (MembersSetRole ''u1'' ''admin'') sample_world)))"
proof -
  have "tenancy_inv (w_db sample_world)"
    by (simp add: tenancy_inv_def sample_world_def sample_live_def empty_db_def unique_on_def has_owner_def owns_def
        sample_owner_def sample_org_def sample_user_def)
  from ownership_from_owners [OF sample_fresh this, of sample_env "MembersSetRole ''u1'' ''admin''"
      "fst (api_request sample_env sample_request (MembersSetRole ''u1'' ''admin'') sample_world)"
      "snd (api_request sample_env sample_request (MembersSetRole ''u1'' ''admin'') sample_world)"]
  show ?thesis by simp
qed

end
