(* ===== verification/Config.thy ===== *)
theory Config
  imports Redaction "HOL-Library.Sublist"
begin

text \<open>
  The environment of a process (\<open>src/src/bootstrap/config\<close>): the schemas of the three roles as tables of
  fields, what production refuses on top of them, the password file, and \<open>loadEnv\<close>. The string formats, the
  number coercion and the boolean words are zod's and parameters; an issue is the path it is reported
  under.
\<close>

section \<open>Fields\<close>

datatype env_value = EStr string | ENum rat | EBool bool | EList "string list"

record env_zod =
  ez_url :: "string \<Rightarrow> bool"
  ez_email :: "string \<Rightarrow> bool"
  ez_number :: "string \<Rightarrow> rat option"
  ez_stringbool :: "string \<Rightarrow> bool option"

datatype env_kind =
    KString nat
  | KEnum "string list"
  | KUrl
  | KEmail
  | KInt int "int option"
  | KBool
  | KCsv
  | KCsvUrls
  | KSecretOrEmpty nat

datatype env_presence = Required | Optional | Default env_value

definition csv :: "string \<Rightarrow> string list" where
  "csv value = filter (\<lambda>entry. entry \<noteq> []) (map trim (split_on (\<lambda>c. c = CHR '','') value))"

text \<open>\<open>int()\<close> accepts the integers a JavaScript number represents exactly.\<close>

definition safe_int :: "rat \<Rightarrow> bool" where
  "safe_int n \<longleftrightarrow> of_int \<lfloor>n\<rfloor> = n \<and> - 9007199254740991 \<le> n \<and> n \<le> 9007199254740991"

fun parse_kind :: "env_zod \<Rightarrow> env_kind \<Rightarrow> string \<Rightarrow> env_value option" where
  "parse_kind z (KString n) s = (if n \<le> length s then Some (EStr s) else None)"
| "parse_kind z (KEnum ws) s = (if s \<in> set ws then Some (EStr s) else None)"
| "parse_kind z KUrl s = (if ez_url z s then Some (EStr s) else None)"
| "parse_kind z KEmail s = (if ez_email z s then Some (EStr s) else None)"
| "parse_kind z (KInt lo hi) s =
     (case ez_number z s of
        None \<Rightarrow> None
      | Some n \<Rightarrow>
          if safe_int n \<and> of_int lo \<le> n \<and> (case hi of None \<Rightarrow> True | Some h \<Rightarrow> n \<le> of_int h) then Some (ENum n) else None)"
| "parse_kind z KBool s = map_option EBool (ez_stringbool z s)"
| "parse_kind z KCsv s = Some (EList (csv s))"
| "parse_kind z KCsvUrls s = (if csv s \<noteq> [] \<and> list_all (ez_url z) (csv s) then Some (EList (csv s)) else None)"
| "parse_kind z (KSecretOrEmpty n) s = (if n \<le> length s \<or> s = [] then Some (EStr s) else None)"

definition parse_field :: "env_zod \<Rightarrow> env_kind \<Rightarrow> env_presence \<Rightarrow> string option \<Rightarrow> env_value option option" where
  "parse_field z kind presence raw =
     (case raw of
        Some s \<Rightarrow> map_option Some (parse_kind z kind s)
      | None \<Rightarrow> (case presence of Required \<Rightarrow> None | Optional \<Rightarrow> Some None | Default v \<Rightarrow> Some (Some v)))"

type_synonym env_schema = "(string \<times> env_kind \<times> env_presence) list"

type_synonym env = "(string \<times> env_value) list"

fun parse_env :: "env_zod \<Rightarrow> (string \<Rightarrow> string option) \<Rightarrow> env_schema \<Rightarrow> env option" where
  "parse_env z source [] = Some []"
| "parse_env z source ((k, kind, presence) # fs) =
     (case parse_field z kind presence (source k) of
        None \<Rightarrow> None
      | Some v \<Rightarrow>
          (case parse_env z source fs of
             None \<Rightarrow> None
           | Some env \<Rightarrow> Some (case v of None \<Rightarrow> env | Some x \<Rightarrow> (k, x) # env)))"

section \<open>The schemas\<close>

definition NODE_ENVS :: "string list" where "NODE_ENVS = [''development'', ''test'', ''production'']"

definition LOG_LEVELS :: "string list" where
  "LOG_LEVELS = [''trace'', ''debug'', ''info'', ''warn'', ''error'', ''fatal'']"

definition envBaseSchema :: env_schema where
  "envBaseSchema =
     [(''NODE_ENV'', KEnum NODE_ENVS, Default (EStr ''development'')),
      (''LOG_LEVEL'', KEnum LOG_LEVELS, Default (EStr ''info'')),
      (''DATABASE_URL'', KString 1, Required),
      (''DATABASE_DIRECT_URL'', KString 0, Optional),
      (''DATABASE_POOL_MAX'', KInt 1 None, Default (ENum 10)),
      (''DB_PASSWORD_FILE'', KString 0, Optional),
      (''HEALTH_PORT'', KInt 1 (Some 65535), Default (ENum 3001)),
      (''REDIS_URL'', KUrl, Required),
      (''METRICS_ALLOW_CIDRS'', KCsv, Default (EList [])),
      (''METRICS_CACHE_TTL_SECONDS'', KInt 0 None, Default (ENum 10))]"

definition envStorageSchema :: env_schema where
  "envStorageSchema =
     [(''FILE_DRIVER'', KEnum [''s3-presigned'', ''local''], Default (EStr ''s3-presigned'')),
      (''S3_ENDPOINT'', KUrl, Required),
      (''S3_BUCKET'', KString 1, Required),
      (''S3_REGION'', KString 1, Default (EStr ''us-east-1'')),
      (''S3_ACCESS_KEY_ID'', KString 1, Required),
      (''S3_SECRET_ACCESS_KEY'', KString 1, Required),
      (''S3_FORCE_PATH_STYLE'', KBool, Default (EBool False))]"

definition envApiSchema :: env_schema where
  "envApiSchema = envBaseSchema @ envStorageSchema @
     [(''PORT'', KInt 1 (Some 65535), Default (ENum 3000)),
      (''API_PREFIX'', KString 1, Default (EStr ''api'')),
      (''CORS_ORIGINS'', KCsvUrls, Required),
      (''BETTER_AUTH_SECRET'', KString 32, Required),
      (''BETTER_AUTH_URL'', KUrl, Required),
      (''FRONTEND_BASE_URL'', KUrl, Required),
      (''HTTP_BODY_LIMIT_BYTES'', KInt 1024 None, Default (ENum 1048576)),
      (''HTTP_REQUEST_TIMEOUT_MS'', KInt 1000 None, Default (ENum 30000)),
      (''TRUST_INBOUND_REQUEST_ID'', KBool, Default (EBool False)),
      (''DEPLOYMENT_TOPOLOGY'', KEnum [''direct'', ''behind-proxy''], Default (EStr ''direct'')),
      (''TRUST_PROXY'', KBool, Default (EBool False)),
      (''AUTH_RATE_LIMIT_MAX'', KInt 1 None, Default (ENum 5)),
      (''AUTH_RATE_LIMIT_WINDOW_MS'', KInt 1000 None, Default (ENum 900000)),
      (''AUTH_ACCOUNT_RATE_LIMIT_MAX'', KInt 1 None, Default (ENum 5)),
      (''AUTH_ACCOUNT_RATE_LIMIT_WINDOW_MS'', KInt 1000 None, Default (ENum 900000)),
      (''AUTH_SESSION_RATE_LIMIT_MAX'', KInt 1 None, Default (ENum 60)),
      (''AUTH_SESSION_RATE_LIMIT_WINDOW_MS'', KInt 1000 None, Default (ENum 60000)),
      (''API_RATE_LIMIT_MAX'', KInt 1 None, Default (ENum 300)),
      (''API_RATE_LIMIT_WINDOW_MS'', KInt 1000 None, Default (ENum 60000)),
      (''UPLOAD_MAX_FILE_BYTES'', KInt 1 None, Default (ENum 10485760)),
      (''BILLING_WEBHOOK_SECRET'', KSecretOrEmpty 32, Optional)]"

definition envWorkerSchema :: env_schema where
  "envWorkerSchema = envBaseSchema @ envStorageSchema @
     [(''QUEUE_CONCURRENCY'', KInt 1 (Some 100), Default (ENum 5)),
      (''FRONTEND_BASE_URL'', KUrl, Optional),
      (''MAIL_HOST'', KString 1, Required),
      (''MAIL_PORT'', KInt 1 (Some 65535), Default (ENum 1025)),
      (''MAIL_USER'', KString 0, Optional),
      (''MAIL_PASSWORD'', KString 0, Optional),
      (''MAIL_FROM'', KEmail, Required),
      (''AUDIT_RETENTION_DAYS'', KInt 1 None, Default (ENum 365)),
      (''UPLOAD_MAX_FILE_BYTES'', KInt 1 None, Default (ENum 10485760))]"

definition envSchedulerSchema :: env_schema where
  "envSchedulerSchema = envBaseSchema @
     [(''OUTBOX_DRAIN_INTERVAL_SECONDS'', KInt 1 (Some 300), Default (ENum 10)),
      (''OUTBOX_DRAIN_BATCH_SIZE'', KInt 1 (Some 1000), Default (ENum 100)),
      (''OUTBOX_RETENTION_DAYS'', KInt 1 None, Default (ENum 14))]"

section \<open>What production refuses\<close>

definition env_str :: "env \<Rightarrow> string \<Rightarrow> string" where
  "env_str env k = (case map_of env k of Some (EStr s) \<Rightarrow> s | _ \<Rightarrow> [])"

definition env_num :: "env \<Rightarrow> string \<Rightarrow> rat" where
  "env_num env k = (case map_of env k of Some (ENum n) \<Rightarrow> n | _ \<Rightarrow> 0)"

definition env_bool :: "env \<Rightarrow> string \<Rightarrow> bool" where
  "env_bool env k = (case map_of env k of Some (EBool b) \<Rightarrow> b | _ \<Rightarrow> False)"

definition env_list :: "env \<Rightarrow> string \<Rightarrow> string list" where
  "env_list env k = (case map_of env k of Some (EList ws) \<Rightarrow> ws | _ \<Rightarrow> [])"

definition HTTPS_SCHEME :: string where "HTTPS_SCHEME = ''https://''"

definition HTTPS_ONLY_KEYS :: "string list" where "HTTPS_ONLY_KEYS = [''BETTER_AUTH_URL'', ''FRONTEND_BASE_URL'']"

definition FORBIDDEN_SECRET_SUBSTRINGS :: "string list" where
  "FORBIDDEN_SECRET_SUBSTRINGS =
     [''changeme'', ''change-me'', ''placeholder'', ''example'', ''development'', ''insecure'', ''password'', ''secret-key'',
      ''your-secret'']"

definition str_includes :: "string \<Rightarrow> string \<Rightarrow> bool" where
  "str_includes s sub \<longleftrightarrow> indexOf sub s \<noteq> None"

definition refineMetricsExposure :: "env \<Rightarrow> string list" where
  "refineMetricsExposure env = (if env_list env ''METRICS_ALLOW_CIDRS'' = [] then [''METRICS_ALLOW_CIDRS''] else [])"

definition refineApiForProduction :: "env \<Rightarrow> string list" where
  "refineApiForProduction env =
     (if env_str env ''NODE_ENV'' \<noteq> ''production'' then []
      else
        (let secret = toLowerCase (env_str env ''BETTER_AUTH_SECRET''); origins = env_list env ''CORS_ORIGINS'' in
         (case find (str_includes secret) FORBIDDEN_SECRET_SUBSTRINGS of Some _ \<Rightarrow> [''BETTER_AUTH_SECRET''] | None \<Rightarrow> [])
         @ refineMetricsExposure env
         @ map (\<lambda>_. ''CORS_ORIGINS'') (filter (\<lambda>origin. origin = ''*'') origins)
         @ (if env_str env ''FRONTEND_BASE_URL'' \<notin> set origins then [''CORS_ORIGINS''] else [])
         @ filter (\<lambda>key. \<not> starts_with HTTPS_SCHEME (env_str env key)) HTTPS_ONLY_KEYS
         @ map (\<lambda>_. ''CORS_ORIGINS'') (filter (\<lambda>origin. origin \<noteq> ''*'' \<and> \<not> starts_with HTTPS_SCHEME origin) origins)
         @ (if env_bool env ''TRUST_INBOUND_REQUEST_ID'' \<and> \<not> env_bool env ''TRUST_PROXY'' then [''TRUST_INBOUND_REQUEST_ID''] else [])
         @ (if env_str env ''DEPLOYMENT_TOPOLOGY'' = ''behind-proxy'' \<and> \<not> env_bool env ''TRUST_PROXY'' then [''TRUST_PROXY''] else [])
         @ (if env_str env ''DEPLOYMENT_TOPOLOGY'' = ''direct'' \<and> env_bool env ''TRUST_PROXY'' then [''TRUST_PROXY''] else [])))"

definition refineWorkerForProduction :: "env \<Rightarrow> string list" where
  "refineWorkerForProduction env =
     (if env_str env ''NODE_ENV'' \<noteq> ''production'' then []
      else refineMetricsExposure env
        @ (if env_str env ''MAIL_HOST'' = ''localhost'' \<or> env_str env ''MAIL_HOST'' = ''127.0.0.1'' then [''MAIL_HOST''] else [])
        @ (if map_of env ''FRONTEND_BASE_URL'' = None then [''FRONTEND_BASE_URL''] else []))"

definition refineSchedulerForProduction :: "env \<Rightarrow> string list" where
  "refineSchedulerForProduction env =
     (if env_str env ''NODE_ENV'' \<noteq> ''production'' then []
      else refineMetricsExposure env
        @ (if 60 < env_num env ''OUTBOX_DRAIN_INTERVAL_SECONDS'' then [''OUTBOX_DRAIN_INTERVAL_SECONDS''] else []))"

section \<open>Loading\<close>

datatype process_role = RoleApi | RoleWorker | RoleScheduler

datatype env_error = EnvValidationError process_role | EnvFailure failure

primrec SCHEMAS :: "process_role \<Rightarrow> env_schema \<times> (env \<Rightarrow> string list)" where
  "SCHEMAS RoleApi = (envApiSchema, refineApiForProduction)"
| "SCHEMAS RoleWorker = (envWorkerSchema, refineWorkerForProduction)"
| "SCHEMAS RoleScheduler = (envSchedulerSchema, refineSchedulerForProduction)"

text \<open>\<open>with_password dsn encoded\<close> is the address with its password replaced, by the URL class.\<close>

definition injectDatabasePassword ::
  "(string \<Rightarrow> string \<Rightarrow> failure + string) \<Rightarrow> (string \<Rightarrow> string) \<Rightarrow> string \<Rightarrow> string \<Rightarrow> failure + string"
where
  "injectDatabasePassword with_password encodeURIComponent dsn password = with_password dsn (encodeURIComponent password)"

definition env_set :: "string \<Rightarrow> string \<Rightarrow> env \<Rightarrow> env" where
  "env_set k s env = (k, EStr s) # filter (\<lambda>(k', _). k' \<noteq> k) env"

definition applyPasswordFile ::
  "(string \<Rightarrow> failure + string) \<Rightarrow> (string \<Rightarrow> string \<Rightarrow> failure + string) \<Rightarrow> (string \<Rightarrow> string) \<Rightarrow> env \<Rightarrow> string option \<Rightarrow> failure + env"
where
  "applyPasswordFile readFileSync with_password encode env passwordFile =
     (case passwordFile of
        None \<Rightarrow> Inr env
      | Some f \<Rightarrow>
          if f = [] then Inr env
          else
            (case readFileSync f of
               Inl e \<Rightarrow> Inl e
             | Inr contents \<Rightarrow>
                 (let password = trim contents in
                  case injectDatabasePassword with_password encode (env_str env ''DATABASE_URL'') password of
                    Inl e \<Rightarrow> Inl e
                  | Inr url \<Rightarrow>
                      (if env_str env ''DATABASE_DIRECT_URL'' = [] then Inr (env_set ''DATABASE_URL'' url env)
                       else (case injectDatabasePassword with_password encode (env_str env ''DATABASE_DIRECT_URL'') password of
                               Inl e \<Rightarrow> Inl e
                             | Inr direct \<Rightarrow> Inr (env_set ''DATABASE_DIRECT_URL'' direct (env_set ''DATABASE_URL'' url env)))))))"

definition loadEnv ::
  "env_zod \<Rightarrow> (string \<Rightarrow> failure + string) \<Rightarrow> (string \<Rightarrow> string \<Rightarrow> failure + string) \<Rightarrow> (string \<Rightarrow> string) \<Rightarrow> process_role
     \<Rightarrow> (string \<Rightarrow> string option) \<Rightarrow> env_error + env"
where
  "loadEnv z readFileSync with_password encode role source =
     (let (schema, refine) = SCHEMAS role in
      case parse_env z source schema of
        None \<Rightarrow> Inl (EnvValidationError role)
      | Some env \<Rightarrow>
          if refine env \<noteq> [] then Inl (EnvValidationError role)
          else
            (case applyPasswordFile readFileSync with_password encode env
                    (case map_of env ''DB_PASSWORD_FILE'' of Some (EStr f) \<Rightarrow> Some f | _ \<Rightarrow> None) of
               Inl e \<Rightarrow> Inl (EnvFailure e)
             | Inr env' \<Rightarrow> Inr env'))"

section \<open>What the schemas guarantee\<close>

lemma parse_env_keys: "parse_env z source fs = Some env \<Longrightarrow> fst ` set env \<subseteq> fst ` set fs"
proof (induction z source fs arbitrary: env rule: parse_env.induct)
  case (2 z source k kind presence fs)
  then obtain v env' where v: "parse_field z kind presence (source k) = Some v" "parse_env z source fs = Some env'"
    and env: "env = (case v of None \<Rightarrow> env' | Some x \<Rightarrow> (k, x) # env')"
    by (auto split: option.splits)
  from "2.IH" [OF v] show ?case by (auto simp: env split: option.splits)
qed simp

lemma parse_env_lookup:
  assumes "parse_env z source fs = Some env" "distinct (map fst fs)" "(k, kind, presence) \<in> set fs"
  shows "parse_field z kind presence (source k) = Some (map_of env k)"
  using assms
proof (induction z source fs arbitrary: env rule: parse_env.induct)
  case (2 z source k' kind' presence' fs)
  then obtain v env' where v: "parse_field z kind' presence' (source k') = Some v" "parse_env z source fs = Some env'"
    and env: "env = (case v of None \<Rightarrow> env' | Some x \<Rightarrow> (k', x) # env')"
    by (auto split: option.splits)
  have fresh: "k' \<notin> fst ` set fs" using "2.prems"(2) by auto
  then have none: "map_of env' k' = None" using parse_env_keys [OF v(2)] by (auto simp: map_of_eq_None_iff)
  show ?case
  proof (cases "k = k'")
    case True
    with "2.prems"(3) fresh have "kind = kind'" "presence = presence'" by (auto simp: rev_image_eqI)
    then show ?thesis using v(1) none True by (cases v) (simp_all add: env)
  next
    case False
    then have "parse_field z kind presence (source k) = Some (map_of env' k)"
      using "2.IH" [OF v(1,2)] "2.prems"(2,3) by auto
    then show ?thesis using False by (cases v) (simp_all add: env)
  qed
qed simp

text \<open>A value of a kind, whatever text it was read from; the kinds of the three schemas admit their defaults.\<close>

fun value_ok :: "env_zod \<Rightarrow> env_kind \<Rightarrow> env_value \<Rightarrow> bool" where
  "value_ok z (KString n) (EStr s) \<longleftrightarrow> n \<le> length s"
| "value_ok z (KEnum ws) (EStr s) \<longleftrightarrow> s \<in> set ws"
| "value_ok z KUrl (EStr s) \<longleftrightarrow> ez_url z s"
| "value_ok z KEmail (EStr s) \<longleftrightarrow> ez_email z s"
| "value_ok z (KInt lo hi) (ENum n) \<longleftrightarrow>
     safe_int n \<and> of_int lo \<le> n \<and> (case hi of None \<Rightarrow> True | Some h \<Rightarrow> n \<le> of_int h)"
| "value_ok z KBool (EBool b) \<longleftrightarrow> True"
| "value_ok z KCsv (EList ws) \<longleftrightarrow> list_all (\<lambda>w. w \<noteq> []) ws"
| "value_ok z KCsvUrls (EList ws) \<longleftrightarrow> ws \<noteq> [] \<and> list_all (ez_url z) ws"
| "value_ok z (KSecretOrEmpty n) (EStr s) \<longleftrightarrow> n \<le> length s \<or> s = []"
| "value_ok z _ _ \<longleftrightarrow> False"

definition field_ok :: "env_zod \<Rightarrow> env \<Rightarrow> string \<times> env_kind \<times> env_presence \<Rightarrow> bool" where
  "field_ok z env = (\<lambda>(k, kind, presence).
     case map_of env k of None \<Rightarrow> presence = Optional | Some v \<Rightarrow> value_ok z kind v)"

definition env_typed :: "env_zod \<Rightarrow> env_schema \<Rightarrow> env \<Rightarrow> bool" where
  "env_typed z fs env \<longleftrightarrow> list_all (field_ok z env) fs"

definition default_ok :: "env_zod \<Rightarrow> string \<times> env_kind \<times> env_presence \<Rightarrow> bool" where
  "default_ok z = (\<lambda>(k, kind, presence). case presence of Default v \<Rightarrow> value_ok z kind v | _ \<Rightarrow> True)"

lemma parse_kind_ok: "parse_kind z kind s = Some v \<Longrightarrow> value_ok z kind v"
  by (cases kind) (auto simp: csv_def list_all_iff split: if_splits option.splits)

lemma parse_field_ok:
  assumes "parse_field z kind presence raw = Some v" "default_ok z (k, kind, presence)"
  shows "case v of None \<Rightarrow> presence = Optional | Some x \<Rightarrow> value_ok z kind x"
  using assms
  by (cases raw; cases presence)
    (auto simp: parse_field_def default_ok_def parse_kind_ok)

lemma parse_env_typed:
  assumes "parse_env z source fs = Some env" "distinct (map fst fs)" "list_all (default_ok z) fs"
  shows "env_typed z fs env"
  unfolding env_typed_def list_all_iff
proof
  fix f assume f: "f \<in> set fs"
  obtain k kind presence where [simp]: "f = (k, kind, presence)" by (cases f) auto
  show "field_ok z env f"
    using parse_field_ok [OF parse_env_lookup [OF assms(1,2)], of k kind presence k] f assms(3)
    by (simp add: field_ok_def list_all_iff)
qed

lemma env_keys_distinct: "distinct (map fst envApiSchema)" "distinct (map fst envWorkerSchema)" "distinct (map fst envSchedulerSchema)"
  by code_simp+

lemma defaults_base: "list_all (default_ok z) envBaseSchema"
  by (simp add: envBaseSchema_def default_ok_def NODE_ENVS_def LOG_LEVELS_def safe_int_def)

lemma defaults_storage: "list_all (default_ok z) envStorageSchema"
  by (simp add: envStorageSchema_def default_ok_def)

lemma SCHEMAS_wf: "distinct (map fst (fst (SCHEMAS role)))" "list_all (default_ok z) (fst (SCHEMAS role))"
  by (cases role; simp add: env_keys_distinct)
    (cases role; simp add: envApiSchema_def envWorkerSchema_def envSchedulerSchema_def defaults_base defaults_storage;
      simp add: default_ok_def safe_int_def)

section \<open>What production guarantees\<close>

text \<open>What a deployment relies on, said without the order in which the refinements look for it.\<close>

primrec production_safe :: "process_role \<Rightarrow> env \<Rightarrow> bool" where
  "production_safe RoleApi env \<longleftrightarrow>
     (\<forall>w \<in> set FORBIDDEN_SECRET_SUBSTRINGS. \<not> sublist w (toLowerCase (env_str env ''BETTER_AUTH_SECRET'')))
     \<and> env_list env ''METRICS_ALLOW_CIDRS'' \<noteq> []
     \<and> env_str env ''FRONTEND_BASE_URL'' \<in> set (env_list env ''CORS_ORIGINS'')
     \<and> (\<forall>origin \<in> set (env_list env ''CORS_ORIGINS''). prefix HTTPS_SCHEME origin)
     \<and> prefix HTTPS_SCHEME (env_str env ''BETTER_AUTH_URL'')
     \<and> (env_bool env ''TRUST_INBOUND_REQUEST_ID'' \<longrightarrow> env_bool env ''TRUST_PROXY'')
     \<and> (env_bool env ''TRUST_PROXY'' \<longleftrightarrow> env_str env ''DEPLOYMENT_TOPOLOGY'' = ''behind-proxy'')"
| "production_safe RoleWorker env \<longleftrightarrow>
     env_list env ''METRICS_ALLOW_CIDRS'' \<noteq> [] \<and> env_str env ''MAIL_HOST'' \<notin> {''localhost'', ''127.0.0.1''}
     \<and> map_of env ''FRONTEND_BASE_URL'' \<noteq> None"
| "production_safe RoleScheduler env \<longleftrightarrow>
     env_list env ''METRICS_ALLOW_CIDRS'' \<noteq> [] \<and> env_num env ''OUTBOX_DRAIN_INTERVAL_SECONDS'' \<le> 60"

lemma starts_with_prefix: "starts_with pre s \<longleftrightarrow> prefix pre s"
  by (auto simp: starts_with_def prefix_def) (metis append_take_drop_id)

lemma str_includes_sublist: "str_includes s sub \<longleftrightarrow> sublist sub s"
proof (induction s)
  case (Cons c cs)
  then show ?case by (auto simp: str_includes_def starts_with_prefix sublist_Cons_right split: if_splits)
qed (simp add: str_includes_def)

lemma topology_known:
  assumes "env_typed z envApiSchema env"
  shows "env_str env ''DEPLOYMENT_TOPOLOGY'' \<in> {''direct'', ''behind-proxy''}"
proof -
  have "(''DEPLOYMENT_TOPOLOGY'', KEnum [''direct'', ''behind-proxy''], Default (EStr ''direct'')) \<in> set envApiSchema"
    by (simp add: envApiSchema_def)
  with assms have "case map_of env ''DEPLOYMENT_TOPOLOGY'' of
      None \<Rightarrow> False | Some v \<Rightarrow> value_ok z (KEnum [''direct'', ''behind-proxy'']) v"
    unfolding env_typed_def list_all_iff by (fastforce simp: field_ok_def split: option.splits)
  then obtain v where v: "map_of env ''DEPLOYMENT_TOPOLOGY'' = Some v" "value_ok z (KEnum [''direct'', ''behind-proxy'']) v"
    by (auto split: option.splits)
  then show ?thesis by (cases v) (simp_all add: env_str_def)
qed

lemma refineApi_iff:
  assumes "env_typed z envApiSchema env"
  shows "refineApiForProduction env = [] \<longleftrightarrow> (env_str env ''NODE_ENV'' = ''production'' \<longrightarrow> production_safe RoleApi env)"
proof -
  have star: "\<not> prefix HTTPS_SCHEME ''*''" by (simp add: HTTPS_SCHEME_def)
  have words: "(case find f ws of None \<Rightarrow> [] | Some _ \<Rightarrow> [k]) = [] \<longleftrightarrow> (\<forall>w \<in> set ws. \<not> f w)" for f ws and k :: string
    by (induction ws) auto
  show ?thesis
    using topology_known [OF assms] star
    by (auto simp: refineApiForProduction_def refineMetricsExposure_def HTTPS_ONLY_KEYS_def Let_def words filter_empty_conv
        starts_with_prefix str_includes_sublist)
qed

lemma refine_iff:
  assumes "env_typed z (fst (SCHEMAS role)) env"
  shows "snd (SCHEMAS role) env = [] \<longleftrightarrow> (env_str env ''NODE_ENV'' = ''production'' \<longrightarrow> production_safe role env)"
  using assms refineApi_iff
  by (cases role) (auto simp: refineWorkerForProduction_def refineSchedulerForProduction_def refineMetricsExposure_def)

lemma map_of_env_set: "map_of (env_set k s env) j = (if j = k then Some (EStr s) else map_of env j)"
  by (induction env) (auto simp: env_set_def)

text \<open>The password file changes the two database addresses and nothing else.\<close>

lemma applyPasswordFile_keeps:
  assumes "applyPasswordFile readFileSync with_password encode env passwordFile = Inr env'"
    "j \<noteq> ''DATABASE_URL''" "j \<noteq> ''DATABASE_DIRECT_URL''"
  shows "map_of env' j = map_of env j"
  using assms by (auto simp: applyPasswordFile_def Let_def map_of_env_set split: option.splits sum.splits if_splits)

lemma applyPasswordFile_address:
  assumes "applyPasswordFile readFileSync with_password encode env passwordFile = Inr env'"
  shows "map_of env' ''DATABASE_URL'' = map_of env ''DATABASE_URL''
         \<or> (\<exists>dsn pw url. with_password dsn pw = Inr url \<and> map_of env' ''DATABASE_URL'' = Some (EStr url))"
    and "map_of env' ''DATABASE_DIRECT_URL'' = map_of env ''DATABASE_DIRECT_URL''
         \<or> (\<exists>url. map_of env' ''DATABASE_DIRECT_URL'' = Some (EStr url))"
  using assms
  by (auto simp: applyPasswordFile_def injectDatabasePassword_def Let_def map_of_env_set split: option.splits sum.splits if_splits)

lemma applyPasswordFile_fails:
  "applyPasswordFile readFileSync with_password encode env passwordFile = Inl e \<Longrightarrow> \<exists>f. passwordFile = Some f \<and> f \<noteq> []"
  by (auto simp: applyPasswordFile_def split: option.splits if_splits)

lemma production_safe_cong:
  assumes "\<And>j. j \<noteq> ''DATABASE_URL'' \<Longrightarrow> j \<noteq> ''DATABASE_DIRECT_URL'' \<Longrightarrow> map_of env' j = map_of env j"
  shows "production_safe role env' \<longleftrightarrow> production_safe role env" "env_str env' ''NODE_ENV'' = env_str env ''NODE_ENV''"
  by (cases role) (simp_all add: env_str_def env_list_def env_bool_def env_num_def assms)

lemma schema_addresses:
  assumes "(k, kind, presence) \<in> set (fst (SCHEMAS role))"
  shows "(k = ''DATABASE_URL'' \<longrightarrow> kind = KString 1 \<and> presence = Required)
         \<and> (k = ''DATABASE_DIRECT_URL'' \<longrightarrow> kind = KString 0 \<and> presence = Optional)"
  using assms by (cases role) (auto simp: envApiSchema_def envWorkerSchema_def envSchedulerSchema_def envBaseSchema_def envStorageSchema_def)

lemma applyPasswordFile_typed:
  assumes run: "applyPasswordFile readFileSync with_password encode env passwordFile = Inr env'"
    and typed: "env_typed z (fst (SCHEMAS role)) env"
    and url: "\<And>dsn pw url. with_password dsn pw = Inr url \<Longrightarrow> url \<noteq> []"
  shows "env_typed z (fst (SCHEMAS role)) env'"
  unfolding env_typed_def list_all_iff
proof
  fix f assume f: "f \<in> set (fst (SCHEMAS role))"
  obtain k kind presence where [simp]: "f = (k, kind, presence)" by (cases f) auto
  have old: "field_ok z env (k, kind, presence)" using typed f by (simp add: env_typed_def list_all_iff)
  note kinds = schema_addresses [of k kind presence role] f
  consider "k = ''DATABASE_URL''" | "k = ''DATABASE_DIRECT_URL''" | "k \<noteq> ''DATABASE_URL''" "k \<noteq> ''DATABASE_DIRECT_URL''" by blast
  then show "field_ok z env' f"
  proof cases
    case 1
    then show ?thesis using applyPasswordFile_address(1) [OF run] kinds old url
      by (fastforce simp: field_ok_def Suc_le_eq split: option.splits)
  next
    case 2
    then show ?thesis using applyPasswordFile_address(2) [OF run] kinds old by (auto simp: field_ok_def split: option.splits)
  next
    case 3
    then show ?thesis using applyPasswordFile_keeps [OF run, of k] old by (simp add: field_ok_def)
  qed
qed

lemma loadEnv_cases:
  "loadEnv z readFileSync with_password encode role source =
     (case parse_env z source (fst (SCHEMAS role)) of
        None \<Rightarrow> Inl (EnvValidationError role)
      | Some env \<Rightarrow>
          if env_str env ''NODE_ENV'' = ''production'' \<and> \<not> production_safe role env then Inl (EnvValidationError role)
          else (case applyPasswordFile readFileSync with_password encode env
                       (case map_of env ''DB_PASSWORD_FILE'' of Some (EStr f) \<Rightarrow> Some f | _ \<Rightarrow> None) of
                  Inl e \<Rightarrow> Inl (EnvFailure e) | Inr env' \<Rightarrow> Inr env'))"
proof (cases "parse_env z source (fst (SCHEMAS role))")
  case None
  then show ?thesis by (simp add: loadEnv_def split_def Let_def)
next
  case (Some env)
  with refine_iff [OF parse_env_typed [OF Some SCHEMAS_wf]] show ?thesis by (simp add: loadEnv_def split_def Let_def)
qed

lemma loadEnv_returns:
  assumes "\<forall>dsn pw url. with_password dsn pw = Inr url \<longrightarrow> url \<noteq> []"
    and "loadEnv z readFileSync with_password encode role source = Inr env'"
  shows "env_typed z (fst (SCHEMAS role)) env'" "env_str env' ''NODE_ENV'' = ''production'' \<longrightarrow> production_safe role env'"
proof -
  obtain env where parsed: "parse_env z source (fst (SCHEMAS role)) = Some env"
    and safe: "env_str env ''NODE_ENV'' = ''production'' \<longrightarrow> production_safe role env"
    and final: "applyPasswordFile readFileSync with_password encode env
        (case map_of env ''DB_PASSWORD_FILE'' of Some (EStr f) \<Rightarrow> Some f | _ \<Rightarrow> None) = Inr env'"
    using assms(2) by (auto simp: loadEnv_cases split: option.splits if_splits sum.splits)
  show "env_typed z (fst (SCHEMAS role)) env'"
    using applyPasswordFile_typed [OF final parse_env_typed [OF parsed SCHEMAS_wf]] assms(1) by blast
  show "env_str env' ''NODE_ENV'' = ''production'' \<longrightarrow> production_safe role env'"
    using safe production_safe_cong [OF applyPasswordFile_keeps [OF final]] by simp
qed

text \<open>
  C11: a process starts only in an environment its role can run in. Whatever \<open>loadEnv\<close> returns has every
  required field, and every field within the kind the schema gives it, defaults included; in production it is
  moreover safe: for the API a secret of at least 32 characters without a placeholder word, a metrics
  allow-list, https everywhere, the front end among the allowed origins, and proxy trust exactly behind a
  proxy. Conversely the only environments refused as invalid are those that do not parse and those unsafe in
  production, and any other failure comes from a password file that is configured. The address the URL class prints is assumed not to be empty.\<close>

theorem production_environment:
  assumes "\<forall>dsn pw url. with_password dsn pw = Inr url \<longrightarrow> url \<noteq> []"
  shows "case loadEnv z readFileSync with_password encode role source of
           Inr env \<Rightarrow> env_typed z (fst (SCHEMAS role)) env
             \<and> (env_str env ''NODE_ENV'' = ''production'' \<longrightarrow> production_safe role env)
         | Inl (EnvValidationError r) \<Rightarrow> r = role \<and>
             (case parse_env z source (fst (SCHEMAS role)) of
                None \<Rightarrow> True | Some env \<Rightarrow> env_str env ''NODE_ENV'' = ''production'' \<and> \<not> production_safe role env)
         | Inl (EnvFailure e) \<Rightarrow>
             (case parse_env z source (fst (SCHEMAS role)) of
                None \<Rightarrow> False
              | Some env \<Rightarrow> \<exists>f. map_of env ''DB_PASSWORD_FILE'' = Some (EStr f) \<and> f \<noteq> [])"
proof (cases "loadEnv z readFileSync with_password encode role source")
  case (Inr env)
  show ?thesis using loadEnv_returns [OF assms Inr] by (simp add: Inr)
next
  case (Inl e)
  show ?thesis
  proof (cases "parse_env z source (fst (SCHEMAS role))")
    case None
    then show ?thesis by (simp add: loadEnv_cases)
  next
    case (Some env)
    with Inl show ?thesis
      by (auto simp: loadEnv_cases split: if_splits sum.splits option.splits env_value.splits dest!: applyPasswordFile_fails)
  qed
qed

text \<open>A complete environment of the API, in production behind a proxy.\<close>

definition sample_zod :: env_zod where
  "sample_zod = \<lparr>ez_url = (\<lambda>s. s \<noteq> []), ez_email = (\<lambda>s. CHR ''@'' \<in> set s), ez_number = (\<lambda>s. if s = ''8080'' then Some 8080 else None),
     ez_stringbool = (\<lambda>s. if s = ''true'' then Some True else if s = ''false'' then Some False else None)\<rparr>"

definition sample_source :: "string \<Rightarrow> string option" where
  "sample_source = map_of
     [(''NODE_ENV'', ''production''), (''DATABASE_URL'', ''postgres://db/app''), (''REDIS_URL'', ''redis://cache''), (''PORT'', ''8080''),
      (''METRICS_ALLOW_CIDRS'', ''10.0.0.0/8''), (''S3_ENDPOINT'', ''https://s3''), (''S3_BUCKET'', ''files''),
      (''S3_ACCESS_KEY_ID'', ''k''), (''S3_SECRET_ACCESS_KEY'', ''s''), (''CORS_ORIGINS'', ''https://a.io, https://b.io''),
      (''BETTER_AUTH_SECRET'', ''0123456789abcdef0123456789abcdef''), (''BETTER_AUTH_URL'', ''https://api.a.io''),
      (''FRONTEND_BASE_URL'', ''https://a.io''), (''DEPLOYMENT_TOPOLOGY'', ''behind-proxy''), (''TRUST_PROXY'', ''true''),
      (''DB_PASSWORD_FILE'', ''/run/db'')]"

definition sample_with_password :: "string \<Rightarrow> string \<Rightarrow> failure + string" where
  "sample_with_password dsn pw = Inr (CHR ''p'' # dsn @ pw)"

definition sample_load :: "env_error + env" where
  "sample_load = loadEnv sample_zod (\<lambda>_. Inr ''pw'') sample_with_password id RoleApi sample_source"

lemma sample_loads: "case sample_load of Inr env \<Rightarrow> env_str env ''NODE_ENV'' = ''production'' | _ \<Rightarrow> False"
  by code_simp

theorem production_environment_witness:
  "\<exists>env. sample_load = Inr env \<and> env_typed sample_zod envApiSchema env \<and> production_safe RoleApi env"
proof -
  obtain env where env: "sample_load = Inr env" "env_str env ''NODE_ENV'' = ''production''"
    using sample_loads by (simp only: sum.case_eq_if split: if_splits) (metis sum.collapse(2))
  have printed: "\<forall>dsn pw url. sample_with_password dsn pw = Inr url \<longrightarrow> url \<noteq> []" by (auto simp: sample_with_password_def)
  note safe = production_environment [OF printed, where z = sample_zod and readFileSync = "\<lambda>_. Inr ''pw''" and encode = id
      and role = RoleApi and source = sample_source, folded sample_load_def, unfolded env(1) sum.case SCHEMAS.simps fst_conv]
  show ?thesis using safe env by blast
qed

end
