(* ===== verification/Http_Errors.thy ===== *)
theory Http_Errors
  imports Access
begin

text \<open>
  How a failure becomes an answer: the translations of \<open>platform/i18n/i18n.service.ts\<close>, problem documents
  (\<open>bootstrap/http/problem-details.ts\<close>), the mapping of database errors
  (\<open>bootstrap/http/prisma-error.mapper.ts\<close>), the health details, the exception filter
  (\<open>bootstrap/http/domain-exception.filter.ts\<close>), the hook for answers that bypass it
  (\<open>bootstrap/fastify/problem-details.hook.ts\<close>), the field errors of the validation pipe and the error
  documentation endpoint.

  The Vietnamese catalog has characters outside the type \<open>string\<close>, so it is a parameter \<open>vi\<close>; the status
  phrases of the platform are the parameter \<open>phrases\<close>. A lookup by a key that came from a client finds
  only the properties the tables define themselves.
\<close>

section \<open>Translations\<close>

datatype i18n_locale = En | Vi

primrec locale_name :: "i18n_locale \<Rightarrow> string" where
  "locale_name En = ''en''"
| "locale_name Vi = ''vi''"

definition SUPPORTED_LOCALES :: "i18n_locale list" where "SUPPORTED_LOCALES = [En, Vi]"

definition DEFAULT_LOCALE :: i18n_locale where "DEFAULT_LOCALE = En"

definition messages_en :: "(string \<times> string) list" where
  "messages_en =
     [(''errors.malformed_request.detail'', ''The request could not be parsed.''),
      (''errors.validation_failed.detail'', ''One or more fields are invalid.''),
      (''errors.not_found.detail'', ''The requested resource was not found.''),
      (''errors.conflict.detail'', ''The request conflicts with the current state.''),
      (''errors.internal_error.detail'', ''The request could not be completed.''),
      (''errors.unauthenticated.detail'', ''No valid session.''),
      (''errors.forbidden.detail'', ''The caller is not allowed to perform this operation.''),
      (''errors.rate_limited.detail'', ''Too many requests. Retry later.''),
      (''errors.request_timeout.detail'', ''The request took too long to complete.''),
      (''errors.payload_too_large.detail'', ''The request payload exceeds the allowed size.''),
      (''errors.unsupported_media_type.detail'', ''The request media type is not supported.''),
      (''errors.service_unavailable.detail'', ''The service is temporarily unavailable.''),
      (''errors.cursor_malformed.detail'', ''The pagination cursor is invalid.''),
      (''errors.user_not_found.detail'', ''The user does not exist.''),
      (''errors.user_profile_not_found.detail'', ''The user profile does not exist yet.''),
      (''errors.display_name_invalid.detail'', ''The display name is invalid.''),
      (''errors.user_role_invalid.detail'', ''The user role is invalid.''),
      (''errors.organization_invalid.detail'', ''The organization name or slug is invalid.''),
      (''errors.organization_access_denied.detail'', ''The caller cannot access this organization.''),
      (''errors.organization_not_found.detail'', ''The organization does not exist or is unavailable.''),
      (''errors.invitation_invalid.detail'', ''The invitation could not be issued as requested.''),
      (''errors.invitation_not_found.detail'', ''That invitation is unknown, already used, or has expired.''),
      (''errors.member_not_found.detail'', ''That person is not a member of this organization.''),
      (''errors.last_owner.detail'', ''An organization must keep at least one owner.''),
      (''errors.upload_not_found.detail'', ''No upload with that id belongs to the caller.''),
      (''errors.upload_already_confirmed.detail'', ''This upload was already confirmed.''),
      (''errors.upload_size_exceeded.detail'', ''The file size is outside the allowed range.''),
      (''errors.upload_mime_not_allowed.detail'', ''The file type is not allowed.''),
      (''errors.upload_object_missing.detail'', ''No uploaded object was found for this file.''),
      (''errors.upload_content_mismatch.detail'', ''The uploaded bytes do not match the declaration.''),
      (''errors.upload_filename_invalid.detail'', ''The filename is invalid.''),
      (''errors.audit_entry_invalid.detail'', ''The audit event contract is invalid.''),
      (''validation.required'', ''This field is required.''),
      (''validation.wrong_type'', ''This field has an invalid type.''),
      (''validation.too_short'', ''This value is too short.''),
      (''validation.too_long'', ''This value is too long.''),
      (''validation.out_of_range'', ''This value is out of range.''),
      (''validation.invalid_email'', ''Enter a valid email address.''),
      (''validation.invalid_uuid'', ''Enter a valid identifier.''),
      (''validation.invalid_url'', ''Enter a valid URL.''),
      (''validation.invalid_date'', ''Enter a valid date.''),
      (''validation.invalid_enum_value'', ''Choose one of the allowed values.''),
      (''validation.invalid_format'', ''This value has an invalid format.''),
      (''validation.invalid_length'', ''This value has an invalid length.''),
      (''validation.unknown_field'', ''This field is not allowed.'')]"

type_synonym catalog = "string \<rightharpoonup> string"

text \<open>The first language of an \<open>Accept-Language\<close> header, without its region.\<close>

definition resolve :: "string option \<Rightarrow> i18n_locale" where
  "resolve value =
     (case value of
        None \<Rightarrow> DEFAULT_LOCALE
      | Some v \<Rightarrow>
          (let candidate = hd (split_on (\<lambda>c. c = CHR ''-'') (toLowerCase (trim (hd (split_on (\<lambda>c. c = CHR '','') v)))))
           in case find (\<lambda>l. locale_name l = candidate) SUPPORTED_LOCALES of
                Some l \<Rightarrow> l
              | None \<Rightarrow> DEFAULT_LOCALE))"

definition messages :: "catalog \<Rightarrow> i18n_locale \<Rightarrow> catalog" where
  "messages vi l = (case l of En \<Rightarrow> map_of messages_en | Vi \<Rightarrow> vi)"

definition translate :: "catalog \<Rightarrow> string \<Rightarrow> i18n_locale \<Rightarrow> string" where
  "translate vi key l =
     (case messages vi l key of
        Some s \<Rightarrow> s
      | None \<Rightarrow> (case messages vi DEFAULT_LOCALE key of Some s \<Rightarrow> s | None \<Rightarrow> key))"

definition translateFieldError :: "catalog \<Rightarrow> i18n_locale \<Rightarrow> field_error \<Rightarrow> field_error" where
  "translateFieldError vi l e =
     (let key = ''validation.'' @ fe_code e; translated = translate vi key l
      in if translated = key then e else e\<lparr>fe_message := translated\<rparr>)"

section \<open>Problem documents\<close>

datatype dependency_state = Up | Down

record dependency_check =
  dc_name :: string
  dc_status :: dependency_state

record problem_details =
  pd_type :: string
  pd_title :: string
  pd_status :: nat
  pd_code :: string
  pd_messageKey :: string
  pd_detail :: string
  pd_instance :: string
  pd_requestId :: string
  pd_timestamp :: string
  pd_errors :: "field_error list option"
  pd_checks :: "dependency_check list option"

primrec statusForKind :: "domain_error_kind \<Rightarrow> nat" where
  "statusForKind Malformed = 400"
| "statusForKind Validation = 422"
| "statusForKind NotFound = 404"
| "statusForKind Conflict = 409"
| "statusForKind Forbidden = 403"

definition TITLE_BY_STATUS :: "(nat \<times> string) list" where
  "TITLE_BY_STATUS =
     [(400, ''Malformed request''), (401, ''Authentication required''), (403, ''Forbidden''), (404, ''Not found''),
      (409, ''Conflict''), (413, ''Payload too large''), (415, ''Unsupported media type''), (422, ''Validation failed''),
      (429, ''Too many requests''), (408, ''Request timeout''), (500, ''Internal server error''),
      (503, ''Service unavailable'')]"

definition titleForStatus :: "(nat \<rightharpoonup> string) \<Rightarrow> nat \<Rightarrow> string" where
  "titleForStatus phrases status =
     (case map_of TITLE_BY_STATUS status of
        Some t \<Rightarrow> t
      | None \<Rightarrow> (case phrases status of Some t \<Rightarrow> t | None \<Rightarrow> ''Error''))"

definition replaceAll :: "char \<Rightarrow> char \<Rightarrow> string \<Rightarrow> string" where
  "replaceAll a b s = map (\<lambda>c. if c = a then b else c) s"

definition typeForCode :: "string \<Rightarrow> string" where
  "typeForCode code = ''/errors/'' @ replaceAll (CHR ''_'') (CHR ''-'') code"

definition unless_empty :: "'a list option \<Rightarrow> 'a list option" where
  "unless_empty xs = (case xs of None \<Rightarrow> None | Some ys \<Rightarrow> if ys = [] then None else Some ys)"

definition buildProblemDetails ::
  "(nat \<rightharpoonup> string) \<Rightarrow> date \<Rightarrow> nat \<Rightarrow> string \<Rightarrow> string \<Rightarrow> string \<Rightarrow> string
     \<Rightarrow> field_error list option \<Rightarrow> dependency_check list option \<Rightarrow> problem_details"
where
  "buildProblemDetails phrases now status code detail path requestId errors checks =
     \<lparr>pd_type = typeForCode code, pd_title = titleForStatus phrases status, pd_status = status, pd_code = code,
      pd_messageKey = ''errors.'' @ code @ ''.detail'', pd_detail = detail, pd_instance = path,
      pd_requestId = requestId, pd_timestamp = toISOString now, pd_errors = unless_empty errors,
      pd_checks = unless_empty checks\<rparr>"

definition genericServerError ::
  "(nat \<rightharpoonup> string) \<Rightarrow> date \<Rightarrow> string \<Rightarrow> string \<Rightarrow> nat \<Rightarrow> dependency_check list option \<Rightarrow> string \<Rightarrow> problem_details"
where
  "genericServerError phrases now path requestId status checks detail =
     buildProblemDetails phrases now status
       (wire_code (if status = 503 then SERVICE_UNAVAILABLE else INTERNAL_ERROR))
       (if status = 503 then ''The service is temporarily unable to handle the request.'' else detail)
       path requestId None checks"

section \<open>Reading what was thrown\<close>

text \<open>
  What can be thrown: a domain exception, an exception of the framework with its status, response and
  message, or any other value. The latter is a JavaScript value; an error object is given by its
  properties.
\<close>

datatype thrown =
    DomainThrown domain_exception
  | HttpThrown nat js string
  | ValueThrown js

definition property_of :: "js \<Rightarrow> string \<Rightarrow> js option" where
  "property_of v k = (case v of JsObj kvs \<Rightarrow> map_of kvs k | _ \<Rightarrow> None)"

definition string_prop :: "js \<Rightarrow> string \<Rightarrow> string option" where
  "string_prop v k = (case property_of v k of Some (JsStr s) \<Rightarrow> Some s | _ \<Rightarrow> None)"

definition MAX_CHECKS :: nat where "MAX_CHECKS = 20"

definition readState :: "js \<Rightarrow> dependency_state" where
  "readState v = (case string_prop v ''status'' of Some s \<Rightarrow> if s = ''up'' then Up else Down | None \<Rightarrow> Down)"

text \<open>The entries of the details, which are an object of the health library.\<close>

definition readDependencyChecks :: "js \<Rightarrow> dependency_check list option" where
  "readDependencyChecks response =
     (case property_of response ''details'' of
        Some (JsObj details) \<Rightarrow>
          unless_empty (Some (map (\<lambda>(k, v). \<lparr>dc_name = k, dc_status = readState v\<rparr>) (take MAX_CHECKS details)))
      | Some (JsArr vs) \<Rightarrow>
          unless_empty (Some (map (\<lambda>(i, v). \<lparr>dc_name = show_nat i, dc_status = readState v\<rparr>)
            (take MAX_CHECKS (enumerate 0 vs))))
      | _ \<Rightarrow> None)"

record mapped_error =
  me_status :: nat
  me_code :: error_code
  me_detail :: string

definition BY_PRISMA_CODE :: "(string \<times> mapped_error) list" where
  "BY_PRISMA_CODE =
     [(''P2002'', \<lparr>me_status = 409, me_code = CONFLICT, me_detail = ''That value is already in use.''\<rparr>),
      (''P2003'', \<lparr>me_status = 409, me_code = CONFLICT, me_detail = ''A related record prevents this change.''\<rparr>),
      (''P2025'', \<lparr>me_status = 404, me_code = NOT_FOUND, me_detail = ''Not found.''\<rparr>),
      (''P2023'', \<lparr>me_status = 400, me_code = MALFORMED_REQUEST,
                  me_detail = ''The request contained a value the server could not interpret.''\<rparr>),
      (''P2024'', \<lparr>me_status = 503, me_code = SERVICE_UNAVAILABLE, me_detail = ''The service is busy. Retry shortly.''\<rparr>),
      (''P2028'', \<lparr>me_status = 503, me_code = SERVICE_UNAVAILABLE, me_detail = ''The service is busy. Retry shortly.''\<rparr>)]"

definition mapPrismaError :: "js \<Rightarrow> mapped_error option" where
  "mapPrismaError error =
     (case string_prop error ''name'' of
        Some name \<Rightarrow>
          if \<not> starts_with ''PrismaClient'' name then None
          else (case Option.bind (string_prop error ''code'') (map_of BY_PRISMA_CODE) of
                  Some mapped \<Rightarrow> Some mapped
                | None \<Rightarrow> Some \<lparr>me_status = 500, me_code = INTERNAL_ERROR, me_detail = ''The request could not be completed.''\<rparr>)
      | None \<Rightarrow> None)"

definition is_num :: "js option \<Rightarrow> bool" where
  "is_num v = (case v of Some (JsNum _) \<Rightarrow> True | _ \<Rightarrow> False)"

text \<open>A problem document built elsewhere; neither exception class has a \<open>type\<close>.\<close>

definition asProblemDetails :: "thrown \<Rightarrow> js option" where
  "asProblemDetails e =
     (case e of
        ValueThrown v \<Rightarrow>
          if string_prop v ''type'' \<noteq> None \<and> is_num (property_of v ''status'') \<and> string_prop v ''code'' \<noteq> None
             \<and> string_prop v ''detail'' \<noteq> None
          then Some v else None
      | _ \<Rightarrow> None)"

definition instancePath :: "string \<Rightarrow> string" where
  "instancePath url = takeWhile (\<lambda>c. c \<noteq> CHR ''?'') url"

definition CODE_BY_STATUS :: "(nat \<times> error_code) list" where
  "CODE_BY_STATUS =
     [(401, UNAUTHENTICATED), (403, FORBIDDEN), (404, NOT_FOUND), (409, CONFLICT), (429, RATE_LIMITED),
      (413, PAYLOAD_TOO_LARGE), (415, UNSUPPORTED_MEDIA_TYPE), (408, REQUEST_TIMEOUT), (422, VALIDATION_FAILED)]"

definition readCode :: "js \<Rightarrow> nat \<Rightarrow> string" where
  "readCode response status =
     (case string_prop response ''code'' of
        Some c \<Rightarrow> c
      | None \<Rightarrow> wire_code (case map_of CODE_BY_STATUS status of Some c \<Rightarrow> c | None \<Rightarrow> MALFORMED_REQUEST))"

definition readDetail :: "js \<Rightarrow> string \<Rightarrow> string" where
  "readDetail response fallback =
     (case string_prop response ''detail'' of
        Some d \<Rightarrow> d
      | None \<Rightarrow> (case string_prop response ''message'' of Some m \<Rightarrow> m | None \<Rightarrow> fallback))"

definition to_field_error :: "js \<Rightarrow> field_error option" where
  "to_field_error v =
     (case (string_prop v ''path'', string_prop v ''code'', string_prop v ''message'') of
        (Some p, Some c, Some m) \<Rightarrow>
          Some \<lparr>fe_path = p, fe_code = c, fe_message = m, fe_rule = string_prop v ''rule''\<rparr>
      | _ \<Rightarrow> None)"

definition readFieldErrors :: "js \<Rightarrow> field_error list option" where
  "readFieldErrors response =
     (case property_of response ''errors'' of
        Some (JsArr vs) \<Rightarrow> Some (List.map_filter to_field_error vs)
      | _ \<Rightarrow> None)"

section \<open>The exception filter\<close>

datatype problem_body = Problem problem_details | Prebuilt js

definition fromHttpException ::
  "(nat \<rightharpoonup> string) \<Rightarrow> catalog \<Rightarrow> date \<Rightarrow> nat \<Rightarrow> js \<Rightarrow> string \<Rightarrow> string \<Rightarrow> string \<Rightarrow> i18n_locale \<Rightarrow> problem_details"
where
  "fromHttpException phrases vi now status response message path requestId l =
     (if 500 \<le> status
      then genericServerError phrases now path requestId status
             (if status = 503 then readDependencyChecks response else None)
             (translate vi ''errors.internal_error.detail'' l)
      else
        (let code = readCode response status;
             key = ''errors.'' @ code @ ''.detail'';
             translated = translate vi key l
         in buildProblemDetails phrases now status code
              (if translated = key then readDetail response message else translated) path requestId
              (map_option (map (translateFieldError vi l)) (readFieldErrors response)) None))"

definition translateDetail :: "catalog \<Rightarrow> string \<Rightarrow> string option \<Rightarrow> i18n_locale \<Rightarrow> string" where
  "translateDetail vi code fallback l =
     (let key = ''errors.'' @ code @ ''.detail''; translated = translate vi key l
      in if translated = key
         then (case fallback of Some d \<Rightarrow> d | None \<Rightarrow> ''The request could not be completed.'')
         else translated)"

definition toProblem ::
  "(nat \<rightharpoonup> string) \<Rightarrow> catalog \<Rightarrow> date \<Rightarrow> thrown \<Rightarrow> string \<Rightarrow> string \<Rightarrow> i18n_locale \<Rightarrow> problem_body"
where
  "toProblem phrases vi now e path requestId l =
     (case asProblemDetails e of
        Some v \<Rightarrow> Prebuilt v
      | None \<Rightarrow>
          Problem
            (case e of
               DomainThrown d \<Rightarrow>
                 buildProblemDetails phrases now (statusForKind (de_kind d)) (wire_code (de_code d))
                   (translateDetail vi (wire_code (de_code d)) (de_detail d) l) path requestId
                   (Some (map (translateFieldError vi l) (de_errors d))) None
             | HttpThrown status response message \<Rightarrow>
                 fromHttpException phrases vi now status response message path requestId l
             | ValueThrown v \<Rightarrow>
                 (case mapPrismaError v of
                    Some p \<Rightarrow>
                      buildProblemDetails phrases now (me_status p) (wire_code (me_code p)) (me_detail p) path requestId None None
                  | None \<Rightarrow>
                      genericServerError phrases now path requestId 500 None
                        (translate vi ''errors.internal_error.detail'' l))))"

definition problem_status :: "problem_body \<Rightarrow> rat" where
  "problem_status b =
     (case b of
        Problem p \<Rightarrow> of_nat (pd_status p)
      | Prebuilt v \<Rightarrow> (case property_of v ''status'' of Some (JsNum n) \<Rightarrow> n | _ \<Rightarrow> 0))"

definition retryAfterSecondsFor :: "rat \<Rightarrow> nat option" where
  "retryAfterSecondsFor status = (if status = 429 then Some 60 else if status = 503 then Some 5 else None)"

record problem_reply =
  reply_status :: rat
  reply_contentType :: string
  reply_retryAfter :: "string option"
  reply_body :: problem_body
  reply_logged :: bool

text \<open>
  \<open>catch\<close>: the request ids are those stamped on the request or minted now, the locale is that of the
  \<open>accept-language\<close> header, and a \<open>Retry-After\<close> that was set earlier is kept.
\<close>

definition catch_exception ::
  "(nat \<rightharpoonup> string) \<Rightarrow> catalog \<Rightarrow> string \<Rightarrow> date \<Rightarrow> http_request \<Rightarrow> string option \<Rightarrow> thrown \<Rightarrow> problem_reply"
where
  "catch_exception phrases vi newId now r retryAfterSet e =
     (let requestId = ids_requestId (fst (ensureRequestIds newId False r));
          l = resolve (case rq_headers r ''accept-language'' of Header v \<Rightarrow> Some v | _ \<Rightarrow> None);
          body = toProblem phrases vi now e (instancePath (rq_url r)) requestId l;
          status = problem_status body
      in \<lparr>reply_status = status, reply_contentType = ''application/problem+json'',
          reply_retryAfter =
            (case retryAfterSet of
               Some v \<Rightarrow> Some v
             | None \<Rightarrow> map_option show_nat (retryAfterSecondsFor status)),
          reply_body = body, reply_logged = (500 \<le> status)\<rparr>)"

text \<open>What the program throws, as the filter sees it; a violated constraint is an error of the database client.\<close>

definition thrown_of :: "failure \<Rightarrow> thrown" where
  "thrown_of e =
     (case e of
        DomainFailure d \<Rightarrow> DomainThrown d
      | HttpFailure status message \<Rightarrow>
          HttpThrown status (JsObj [(''message'', JsStr message), (''statusCode'', JsNum (of_nat status))]) message
      | PlainError message \<Rightarrow>
          ValueThrown
            (if starts_with ''Unique constraint failed: '' message
             then JsObj [(''name'', JsStr ''PrismaClientKnownRequestError''), (''code'', JsStr ''P2002''), (''message'', JsStr message)]
             else if starts_with ''Foreign key constraint violated: '' message
             then JsObj [(''name'', JsStr ''PrismaClientKnownRequestError''), (''code'', JsStr ''P2003''), (''message'', JsStr message)]
             else JsObj [(''name'', JsStr ''Error''), (''message'', JsStr message)]))"

section \<open>Answers that bypass the filter\<close>

definition codeForClientStatus :: "nat \<Rightarrow> error_code" where
  "codeForClientStatus status =
     (if status = 401 then UNAUTHENTICATED else if status = 403 then FORBIDDEN else if status = 404 then NOT_FOUND
      else if status = 413 then PAYLOAD_TOO_LARGE else if status = 415 then UNSUPPORTED_MEDIA_TYPE
      else if status = 429 then RATE_LIMITED else MALFORMED_REQUEST)"

definition isProblemDetailsPayload :: "(string \<Rightarrow> js option) \<Rightarrow> string \<Rightarrow> bool" where
  "isProblemDetailsPayload parse payload \<longleftrightarrow>
     starts_with ''{'' payload
     \<and> (case parse payload of
          None \<Rightarrow> False
        | Some v \<Rightarrow> string_prop v ''type'' \<noteq> None \<and> is_num (property_of v ''status'') \<and> string_prop v ''code'' \<noteq> None
                    \<and> string_prop v ''requestId'' \<noteq> None)"

datatype sent_payload = Unchanged | Marked | Replaced problem_details

text \<open>\<open>onSend\<close>: keep the payload, keep it and set the content type, or replace it.\<close>

definition problemDetailsHook ::
  "(nat \<rightharpoonup> string) \<Rightarrow> (string \<Rightarrow> js option) \<Rightarrow> string option \<Rightarrow> date \<Rightarrow> string \<Rightarrow> http_request \<Rightarrow> nat \<Rightarrow> string option
     \<Rightarrow> string \<Rightarrow> sent_payload"
where
  "problemDetailsHook phrases parse passthroughPrefix now newId r status contentType payload =
     (if status < 400 then Unchanged
      else if isProblemDetailsPayload parse payload then Marked
      else if (case passthroughPrefix of None \<Rightarrow> False | Some p \<Rightarrow> starts_with p (rq_url r) \<and> status < 500) then Unchanged
      else if (case contentType of None \<Rightarrow> False
               | Some c \<Rightarrow> \<exists>i \<le> length c. starts_with ''application/problem+json'' (drop i c)) then Unchanged
      else Replaced
        (buildProblemDetails phrases now status
           (wire_code (if 500 \<le> status then INTERNAL_ERROR else codeForClientStatus status))
           (if 500 \<le> status then ''The request could not be completed.''
            else ''The request was rejected before it reached the application.'')
           (instancePath (rq_url r)) (ids_requestId (fst (ensureRequestIds newId False r))) None None))"

section \<open>Field errors of the validation pipe\<close>

definition BY_CONSTRAINT :: "(string \<times> string) list" where
  "BY_CONSTRAINT =
     [(''isDefined'', ''required''),
      (''isNotEmpty'', ''required''),
      (''isNotEmptyObject'', ''required''),
      (''isString'', ''wrong_type''),
      (''isNumber'', ''wrong_type''),
      (''isInt'', ''wrong_type''),
      (''isBoolean'', ''wrong_type''),
      (''isArray'', ''wrong_type''),
      (''isObject'', ''wrong_type''),
      (''isNumberString'', ''wrong_type''),
      (''isLength'', ''invalid_length''),
      (''minLength'', ''too_short''),
      (''arrayMinSize'', ''too_short''),
      (''maxLength'', ''too_long''),
      (''arrayMaxSize'', ''too_long''),
      (''min'', ''out_of_range''),
      (''max'', ''out_of_range''),
      (''isPositive'', ''out_of_range''),
      (''isNegative'', ''out_of_range''),
      (''isEmail'', ''invalid_email''),
      (''isUuid'', ''invalid_uuid''),
      (''isUrl'', ''invalid_url''),
      (''isDate'', ''invalid_date''),
      (''isDateString'', ''invalid_date''),
      (''isIso8601'', ''invalid_date''),
      (''isIn'', ''invalid_enum_value''),
      (''isEnum'', ''invalid_enum_value''),
      (''matches'', ''invalid_format''),
      (''isAlphanumeric'', ''invalid_format''),
      (''isJson'', ''invalid_format''),
      (''whitelistValidation'', ''unknown_field'')]"

definition validationCodeFor :: "string \<Rightarrow> string" where
  "validationCodeFor rule = (case map_of BY_CONSTRAINT rule of Some c \<Rightarrow> c | None \<Rightarrow> rule)"

datatype validation_error = ValidationError string "(string \<times> string) list" "validation_error list"

definition joinPath :: "string \<Rightarrow> string \<Rightarrow> string" where
  "joinPath parentPath property =
     (if parentPath = [] then property
      else if property \<noteq> [] \<and> list_all (\<lambda>c. 48 \<le> code_unit c \<and> code_unit c \<le> 57) property
      then parentPath @ ''['' @ property @ '']''
      else parentPath @ ''.'' @ property)"

fun toFieldErrors :: "validation_error list \<Rightarrow> string \<Rightarrow> field_error list" where
  "toFieldErrors [] parentPath = []"
| "toFieldErrors (ValidationError property constraints children # es) parentPath =
     (let path = joinPath parentPath property
      in map (\<lambda>(rule, message). \<lparr>fe_path = path, fe_code = validationCodeFor rule, fe_message = message, fe_rule = Some rule\<rparr>) constraints
         @ toFieldErrors children path) @ toFieldErrors es parentPath"

section \<open>The error documentation\<close>

definition ERROR_CATALOG_KEYS :: "error_code list" where
  "ERROR_CATALOG_KEYS =
     [MALFORMED_REQUEST, VALIDATION_FAILED, NOT_FOUND, CONFLICT, FORBIDDEN, UNAUTHENTICATED, RATE_LIMITED,
      REQUEST_TIMEOUT, PAYLOAD_TOO_LARGE, UNSUPPORTED_MEDIA_TYPE, INTERNAL_ERROR, SERVICE_UNAVAILABLE,
      CURSOR_MALFORMED, USER_NOT_FOUND, USER_PROFILE_NOT_FOUND, DISPLAY_NAME_INVALID, USER_ROLE_INVALID,
      ORGANIZATION_INVALID, ORGANIZATION_NOT_FOUND, ORGANIZATION_ACCESS_DENIED, INVITATION_INVALID,
      INVITATION_NOT_FOUND, MEMBER_NOT_FOUND, LAST_OWNER, UPLOAD_NOT_FOUND, UPLOAD_ALREADY_CONFIRMED,
      UPLOAD_SIZE_EXCEEDED, UPLOAD_MIME_NOT_ALLOWED, UPLOAD_OBJECT_MISSING, UPLOAD_CONTENT_MISMATCH,
      UPLOAD_FILENAME_INVALID, AUDIT_ENTRY_INVALID]"

record error_doc_entry =
  ed_code :: string
  ed_type :: string
  ed_summary :: string
  ed_clientAction :: string

definition describe :: "error_code \<Rightarrow> error_doc_entry" where
  "describe c =
     \<lparr>ed_code = wire_code c, ed_type = typeForCode (wire_code c), ed_summary = summary (describeErrorCode c),
      ed_clientAction = clientAction (describeErrorCode c)\<rparr>"

definition ErrorDocsController_list :: "error_doc_entry list" where
  "ErrorDocsController_list = map describe ERROR_CATALOG_KEYS"

definition ErrorDocsController_read :: "string \<Rightarrow> failure + error_doc_entry" where
  "ErrorDocsController_read slug =
     (let code = replaceAll (CHR ''-'') (CHR ''_'') slug in
      case find (\<lambda>c. wire_code c = code) ERROR_CATALOG_KEYS of
        Some c \<Rightarrow> Inr (describe c)
      | None \<Rightarrow> Inl (HttpFailure 404 (''No error type is documented at /errors/'' @ slug)))"

section \<open>Properties\<close>

abbreviation detail_key :: "string \<Rightarrow> string" where
  "detail_key code \<equiv> ''errors.'' @ code @ ''.detail''"

definition language :: "http_request \<Rightarrow> i18n_locale" where
  "language r = resolve (case rq_headers r ''accept-language'' of Header v \<Rightarrow> Some v | _ \<Rightarrow> None)"

lemma documented: "c \<in> set ERROR_CATALOG_KEYS"
  by (cases c) (simp_all add: ERROR_CATALOG_KEYS_def)

lemma catalog_covers: "list_all (\<lambda>c. detail_key (wire_code c) \<in> set (map fst messages_en)) ERROR_CATALOG_KEYS"
  by code_simp

lemma catalog_complete: "map_of messages_en (detail_key (wire_code c)) \<noteq> None"
  using catalog_covers documented [of c] by (auto simp: list_all_iff map_of_eq_None_iff)

lemma catalog_texts: "list_all (\<lambda>(k, s). s \<noteq> k) messages_en"
  by code_simp

lemma catalog_no_key: "map_of messages_en k = Some s \<Longrightarrow> s \<noteq> k"
  using catalog_texts by (auto simp: list_all_iff dest!: map_of_SomeD)

text \<open>Every error code is translated, so the text of the exception itself is never shown.\<close>

lemma translate_code:
  assumes "\<forall>k. vi k \<noteq> Some k"
  shows "translate vi (detail_key (wire_code c)) l \<noteq> detail_key (wire_code c)"
proof -
  obtain s where s: "map_of messages_en (detail_key (wire_code c)) = Some s" using catalog_complete by blast
  then have "s \<noteq> detail_key (wire_code c)" by (rule catalog_no_key)
  with s assms show ?thesis
    by (auto simp: translate_def messages_def DEFAULT_LOCALE_def split: i18n_locale.splits option.splits)
qed

lemma translateDetail_code:
  "\<forall>k. vi k \<noteq> Some k \<Longrightarrow> translateDetail vi (wire_code c) fallback l = translate vi (detail_key (wire_code c)) l"
  using translate_code by (simp add: translateDetail_def Let_def)

lemma show_seconds: "show_nat 60 = ''60''" "show_nat 5 = ''5''"
  by code_simp+



lemma slug_code: "replaceAll (CHR ''-'') (CHR ''_'') (replaceAll (CHR ''_'') (CHR ''-'') (wire_code c)) = wire_code c"
  by (cases c) (simp_all add: replaceAll_def)

lemma distinct_codes: "distinct (map wire_code ERROR_CATALOG_KEYS)"
  by (simp add: ERROR_CATALOG_KEYS_def)

lemma wire_code_inj: "wire_code a = wire_code b \<Longrightarrow> a = b"
  using distinct_codes documented unfolding distinct_map inj_on_def by blast

lemma type_inj: "typeForCode (wire_code a) = typeForCode (wire_code b) \<Longrightarrow> a = b"
  unfolding typeForCode_def by (metis slug_code same_append_eq wire_code_inj)

lemma find_code: "find (\<lambda>c'. wire_code c' = wire_code c) ERROR_CATALOG_KEYS = Some c"
proof -
  have "find (\<lambda>c'. wire_code c' = wire_code c) ERROR_CATALOG_KEYS \<noteq> None"
    using documented by (auto simp: find_None_iff)
  then show ?thesis using wire_code_inj by (auto simp: find_Some_iff)
qed

text \<open>
  The type of a problem document leads to its documentation. For every error code, the path in the
  type of a problem with that code is answered by the error documentation with the entry of that code, the
  listing has an entry for every code and no two entries share a type.\<close>

lemma error_docs_roundtrip:
  "(\<exists>slug. typeForCode (wire_code c) = ''/errors/'' @ slug \<and> ErrorDocsController_read slug = Inr (describe c))
   \<and> describe c \<in> set ErrorDocsController_list \<and> distinct (map ed_type ErrorDocsController_list)"
proof (intro conjI)
  show "\<exists>slug. typeForCode (wire_code c) = ''/errors/'' @ slug \<and> ErrorDocsController_read slug = Inr (describe c)"
    unfolding typeForCode_def ErrorDocsController_read_def
    by (intro exI [of _ "replaceAll (CHR ''_'') (CHR ''-'') (wire_code c)"]) (simp add: slug_code find_code)
  show "describe c \<in> set ErrorDocsController_list"
    using documented by (simp add: ErrorDocsController_list_def)
  have "distinct ERROR_CATALOG_KEYS" using distinct_codes by (simp add: distinct_map)
  then show "distinct (map ed_type ErrorDocsController_list)"
    unfolding ErrorDocsController_list_def by (auto simp: distinct_map inj_on_def describe_def comp_def dest: type_inj)
qed

end
