(* ===== verification/Paths.thy ===== *)
theory Paths
  imports Prelude
begin

text \<open>
  The POSIX part of Node's \<open>path\<close> module that the local object store calls (\<open>normalize\<close>, \<open>join\<close>,
  \<open>resolve\<close> of an absolute path, \<open>dirname\<close>), on strings as the code passes them, and what they do to the
  components of a path: an absolute path is the list of its components, and resolving one never leaves a
  dot component behind.
\<close>

section \<open>The functions\<close>

abbreviation slash :: char where
  "slash \<equiv> CHR ''/''"

definition segments :: "string \<Rightarrow> string list" where
  "segments s = split_on (\<lambda>c. c = slash) s"

text \<open>
  \<open>normalizeString\<close> on the segments of a path; the segments kept so far are on a stack. Empty segments
  and \<open>.\<close> are dropped; \<open>..\<close> removes the last segment kept, and at the top it is kept or dropped.
\<close>

definition push_segment :: "bool \<Rightarrow> string list \<Rightarrow> string \<Rightarrow> string list" where
  "push_segment allow stack w =
     (if w = [] \<or> w = ''.'' then stack
      else if w = ''..''
      then (case stack of
              v # rest \<Rightarrow> if v \<noteq> ''..'' then rest else if allow then w # stack else stack
            | [] \<Rightarrow> if allow then [w] else [])
      else w # stack)"

definition normalize_segments :: "bool \<Rightarrow> string list \<Rightarrow> string list \<Rightarrow> string list" where
  "normalize_segments allow stack ws = rev (foldl (push_segment allow) stack ws)"

definition is_absolute :: "string \<Rightarrow> bool" where
  "is_absolute s \<longleftrightarrow> s \<noteq> [] \<and> hd s = slash"

definition normalize :: "string \<Rightarrow> string" where
  "normalize s =
     (if s = [] then ''.''
      else
        (let trailing = (last s = slash);
             path = join_with ''/'' (normalize_segments (\<not> is_absolute s) [] (segments s))
         in if path = []
            then (if is_absolute s then ''/'' else if trailing then ''./'' else ''.'')
            else (if is_absolute s then ''/'' else []) @ path @ (if trailing then ''/'' else [])))"

definition join_paths :: "string \<Rightarrow> string \<Rightarrow> string" where
  "join_paths a b =
     (let parts = filter (\<lambda>p. p \<noteq> []) [a, b]
      in if parts = [] then ''.'' else normalize (join_with ''/'' parts))"

text \<open>\<open>resolve\<close>: a relative path is resolved against the working directory.\<close>

definition resolve_path :: "string \<Rightarrow> string \<Rightarrow> string" where
  "resolve_path cwd p =
     (let full = (if is_absolute p then p else cwd @ ''/'' @ p)
      in ''/'' @ join_with ''/'' (normalize_segments False [] (segments full)))"

definition path_of :: "string list \<Rightarrow> string" where
  "path_of ws = ''/'' @ join_with ''/'' ws"

text \<open>The components of an absolute path; \<open>dirname\<close> drops the last one.\<close>

definition components :: "string \<Rightarrow> string list" where
  "components p = filter (\<lambda>w. w \<noteq> []) (segments p)"

section \<open>Components\<close>

definition proper :: "string \<Rightarrow> bool" where
  "proper w \<longleftrightarrow> w \<noteq> [] \<and> w \<noteq> ''.'' \<and> w \<noteq> ''..'' \<and> slash \<notin> set w"

lemma segments_simps [simp]:
  "segments [] = [[]]" "segments (slash # s) = [] # segments s"
  by (simp_all add: segments_def)

lemma segments_append: "slash \<notin> set w \<Longrightarrow> segments (w @ slash # s) = w # segments s"
  by (induction w) (auto simp: segments_def)

lemma segments_single: "slash \<notin> set w \<Longrightarrow> segments w = [w]"
  unfolding segments_def by (rule split_on_single) auto

lemma segments_no_slash: "w \<in> set (segments s) \<Longrightarrow> slash \<notin> set w"
  using split_on_no_sep unfolding segments_def by blast

lemma segments_join:
  "\<forall>w \<in> set ws. slash \<notin> set w \<Longrightarrow> ws \<noteq> [] \<Longrightarrow> segments (join_with ''/'' ws) = ws"
proof (induction ws rule: induct_list012)
  case (3 v w ws)
  then show ?case using segments_append [of v "join_with ''/'' (w # ws)"] by simp
qed (simp_all add: segments_single)

lemma join_segments: "join_with ''/'' (segments s) = s"
proof (induction s)
  case (Cons c s)
  obtain v vs where "segments s = v # vs" by (cases "segments s") (auto simp: segments_def)
  with Cons show ?case by (cases vs) (auto simp: segments_def)
qed (simp add: segments_def)

lemma segments_append_slash: "segments (s @ slash # t) = segments s @ segments t"
proof (induction s)
  case (Cons c s)
  obtain v vs where "segments s = v # vs" by (cases "segments s") (auto simp: segments_def)
  with Cons show ?case by (auto simp: segments_def)
qed simp

lemma normalize_segments_append:
  "normalize_segments allow stack (xs @ ys) = normalize_segments allow (rev (normalize_segments allow stack xs)) ys"
  by (simp add: normalize_segments_def)

lemma normalize_segments_proper:
  "\<forall>w \<in> set ws. proper w \<Longrightarrow> normalize_segments allow stack ws = rev stack @ ws"
  by (induction ws arbitrary: stack) (simp_all add: normalize_segments_def push_segment_def proper_def)

lemma normalize_segments_clean:
  assumes "\<forall>w \<in> set stack. proper w" "\<forall>w \<in> set ws. slash \<notin> set w"
  shows "\<forall>w \<in> set (normalize_segments False stack ws). proper w"
  using assms
proof (induction ws arbitrary: stack)
  case (Cons w ws)
  have "\<forall>v \<in> set (push_segment False stack w). proper v"
    using Cons.prems by (auto simp: push_segment_def proper_def split: list.splits)
  with Cons.IH Cons.prems show ?case by (simp add: normalize_segments_def)
qed (simp add: normalize_segments_def)

lemma components_path_of: "\<forall>w \<in> set ws. proper w \<Longrightarrow> components (path_of ws) = ws"
proof (cases ws)
  case (Cons v vs)
  assume *: "\<forall>w \<in> set ws. proper w"
  then have "segments (join_with ''/'' ws) = ws" using Cons by (intro segments_join) (auto simp: proper_def)
  moreover have "filter (\<lambda>w. w \<noteq> []) ws = ws" using * by (auto simp: proper_def intro!: filter_True)
  ultimately show ?thesis by (simp add: components_def path_of_def)
qed (simp add: components_def path_of_def)

lemma path_of_inj: "\<forall>w \<in> set ws. proper w \<Longrightarrow> \<forall>w \<in> set vs. proper w \<Longrightarrow> path_of ws = path_of vs \<Longrightarrow> ws = vs"
  by (metis components_path_of)

lemma resolve_absolute:
  assumes "is_absolute p"
  shows "resolve_path cwd p = path_of (normalize_segments False [] (segments p))"
    and "\<forall>w \<in> set (normalize_segments False [] (segments p)). proper w"
  using assms normalize_segments_clean [of "[]" "segments p"] segments_no_slash
  by (auto simp: resolve_path_def path_of_def Let_def)

text \<open>
  Joining a root and a key and resolving the result is the same as following the segments of the key
  from the components of the root, however the key is written: normalizing it first changes nothing.
\<close>

lemma push_segment_set: "set (push_segment allow stack w) \<subseteq> set stack \<union> {v. v = w \<and> w \<noteq> []}"
  by (cases stack) (simp_all add: push_segment_def subset_iff)

lemma normalize_segments_set:
  assumes "\<forall>w \<in> set ws. slash \<notin> set w" "\<forall>w \<in> set stack. slash \<notin> set w \<and> w \<noteq> []"
  shows "\<forall>w \<in> set (normalize_segments allow stack ws). slash \<notin> set w \<and> w \<noteq> []"
  using assms
proof (induction ws arbitrary: stack)
  case (Cons w ws)
  have "slash \<notin> set v \<and> v \<noteq> []" if "v \<in> set (push_segment allow stack w)" for v
  proof -
    from that push_segment_set [of allow stack w] have "v \<in> set stack \<or> v = w \<and> w \<noteq> []" by (simp only: subset_iff Un_iff mem_Collect_eq)
    then show ?thesis using Cons.prems by (auto simp only: list.set_intros)
  qed
  then have "\<forall>w \<in> set (normalize_segments allow (push_segment allow stack w) ws). slash \<notin> set w \<and> w \<noteq> []"
    using Cons.prems(1) by (intro Cons.IH) simp_all
  then show ?case by (simp only: normalize_segments_def foldl.simps)
qed (simp add: normalize_segments_def)

lemma segments_normalize:
  "normalize_segments False stack (segments (normalize s))
     = normalize_segments False stack (normalize_segments (\<not> is_absolute s) [] (segments s))"
proof (cases "s = []")
  case False
  let ?ws = "normalize_segments (\<not> is_absolute s) [] (segments s)"
  have clean: "\<forall>w \<in> set ?ws. slash \<notin> set w \<and> w \<noteq> []"
    by (rule normalize_segments_set) (auto dest: segments_no_slash)
  show ?thesis
  proof (cases "?ws = []")
    case True
    with False show ?thesis
      by (simp add: normalize_def Let_def segments_def normalize_segments_def push_segment_def)
  next
    case ne: False
    then have "join_with ''/'' ?ws \<noteq> []" using clean by (cases ?ws rule: remdups_adj.cases) auto
    moreover have "segments (join_with ''/'' ?ws) = ?ws" using clean ne by (intro segments_join) auto
    moreover have "normalize_segments False stack (ws @ [[]]) = normalize_segments False stack ws" for ws
      by (simp add: normalize_segments_def push_segment_def)
    moreover have "normalize_segments False stack ([] # ws) = normalize_segments False stack ws" for ws
      by (simp add: normalize_segments_def push_segment_def)
    ultimately show ?thesis using False
      by (auto simp: normalize_def Let_def segments_append_slash [where t = "[]", simplified])
  qed
qed (simp add: normalize_def segments_def normalize_segments_def push_segment_def)

lemma is_absolute_normalize: "is_absolute s \<Longrightarrow> is_absolute (normalize s)"
  by (auto simp: normalize_def is_absolute_def Let_def)

lemma is_absolute_path_of [simp]: "is_absolute (path_of ws)" "is_absolute (path_of ws @ t)"
  by (simp_all add: is_absolute_def path_of_def)

lemma resolve_normalize:
  assumes "is_absolute s"
  shows "resolve_path cwd (normalize s) = path_of (normalize_segments False [] (segments s))"
  using resolve_absolute(1) [OF is_absolute_normalize [OF assms]] resolve_absolute(2) [OF assms] assms
  by (simp add: segments_normalize normalize_segments_proper)

definition follow :: "string list \<Rightarrow> string \<Rightarrow> string list" where
  "follow rs key = normalize_segments False (rev rs) (normalize_segments (\<not> is_absolute key) [] (segments key))"

lemma resolve_join:
  assumes "\<forall>w \<in> set rs. proper w"
  shows "resolve_path cwd (join_paths (path_of rs) (normalize key)) = path_of (follow rs key)"
proof -
  have ne: "normalize key \<noteq> []" "path_of rs \<noteq> []" by (auto simp: normalize_def path_of_def Let_def)
  have "segments (path_of rs) = [] # (if rs = [] then [[]] else rs)"
    using assms segments_join [of rs] by (auto simp: path_of_def proper_def)
  then have "normalize_segments False [] (segments (path_of rs)) = rs"
    using normalize_segments_proper [OF assms, of False "[]"] by (simp add: normalize_segments_def push_segment_def)
  then have "normalize_segments False [] (segments (path_of rs @ slash # normalize key)) = follow rs key"
    by (simp add: segments_append_slash normalize_segments_append segments_normalize follow_def)
  moreover have "join_paths (path_of rs) (normalize key) = normalize (path_of rs @ slash # normalize key)"
    using ne by (simp add: join_paths_def)
  ultimately show ?thesis using resolve_normalize [of "path_of rs @ slash # normalize key" cwd] by simp
qed

lemma follow_proper: "\<forall>w \<in> set rs. proper w \<Longrightarrow> \<forall>w \<in> set (follow rs key). proper w"
  unfolding follow_def
  by (rule normalize_segments_clean) (use normalize_segments_set [of "segments key" "[]"] in \<open>auto dest: segments_no_slash\<close>)

lemma follow_key:
  assumes "\<forall>w \<in> set ks. proper w" "ks \<noteq> []"
  shows "follow rs (join_with ''/'' ks) = rs @ ks"
proof -
  have "segments (join_with ''/'' ks) = ks" using assms by (intro segments_join) (auto simp: proper_def)
  then show ?thesis using assms(1) by (simp add: follow_def normalize_segments_proper)
qed

text \<open>
  The test of the store compares strings: the path is the root, or begins with the root and a separator.
  For resolved paths that is the order of prefixes on components.
\<close>

lemma join_with_append:
  "xs \<noteq> [] \<Longrightarrow> ys \<noteq> [] \<Longrightarrow> join_with sep (xs @ ys) = join_with sep xs @ sep @ join_with sep ys"
proof (induction xs rule: induct_list012)
  case (2 x)
  then show ?case by (cases ys) simp_all
qed simp_all

lemma below_root_iff:
  assumes rs: "\<forall>w \<in> set rs. proper w" "rs \<noteq> []" and ws: "\<forall>w \<in> set ws. proper w"
  shows "path_of ws = path_of rs \<or> starts_with (path_of rs @ ''/'') (path_of ws) \<longleftrightarrow> (\<exists>ks. ws = rs @ ks)"
proof
  assume "path_of ws = path_of rs \<or> starts_with (path_of rs @ ''/'') (path_of ws)"
  then show "\<exists>ks. ws = rs @ ks"
  proof
    assume "path_of ws = path_of rs"
    then show ?thesis using path_of_inj [OF ws rs(1)] by auto
  next
    assume "starts_with (path_of rs @ ''/'') (path_of ws)"
    then obtain t where t: "path_of ws = path_of rs @ slash # t"
      by (metis append.assoc append_Cons append_Nil append_take_drop_id starts_with_def)
    have "components (path_of rs @ slash # t) = components (path_of rs) @ components t"
      by (simp add: components_def segments_append_slash)
    then show ?thesis using t components_path_of rs(1) ws by metis
  qed
next
  assume "\<exists>ks. ws = rs @ ks"
  then obtain ks where ks: "ws = rs @ ks" by blast
  show "path_of ws = path_of rs \<or> starts_with (path_of rs @ ''/'') (path_of ws)"
  proof (cases "ks = []")
    case False
    then show ?thesis using join_with_append [OF rs(2) False, of "''/''"] by (simp add: ks path_of_def starts_with_def)
  qed (simp add: ks)
qed

end
