(* ===== verification/Storage.thy ===== *)
theory Storage
  imports Upload_Lifecycle Http_Errors Paths
begin

text \<open>
  The object store (\<open>src/src/platform/storage\<close>) and the route the local driver serves
  (\<open>bootstrap/fastify/local-upload-routes.ts\<close>): the S3 adapter over the commands of its client, the local
  adapter over a file system, and the upload module's adapter that reads both through one port.

  The contract of the port is the locale \<open>storage_port\<close>, against the map from keys to objects the upload
  component works with; both adapters are interpreted in it, so what is proved of confirmations and
  sweeps on the map holds on either store. The S3 service is a parameter, a record of the commands the
  adapter sends.
\<close>

section \<open>Options and the port\<close>

datatype file_driver = S3_presigned | Local

record storage_options =
  st_driver :: file_driver
  st_bucket :: string
  st_region :: string
  st_endpoint :: string
  st_accessKeyId :: string
  st_secretAccessKey :: string
  st_forcePathStyle :: bool
  st_connectionTimeoutMs :: "nat option"
  st_requestTimeoutMs :: "nat option"
  st_localRoot :: "string option"

definition show_int :: "int \<Rightarrow> string" where
  "show_int n = (if n < 0 then CHR ''-'' # show_nat (nat (- n)) else show_nat (nat n))"

text \<open>The upload module's adapter over a port: the policy is passed on, \<open>inspect\<close> reads the head and a sample.\<close>

definition createUploadPolicy ::
  "(string \<Rightarrow> string \<Rightarrow> int \<Rightarrow> nat \<Rightarrow> failure + upload_policy) \<Rightarrow> string \<Rightarrow> string \<Rightarrow> int \<Rightarrow> nat \<Rightarrow> failure + upload_policy"
where
  "createUploadPolicy createPresignedUpload key contentType sizeBytes expiresInSeconds =
     (case createPresignedUpload key contentType sizeBytes expiresInSeconds of
        Inl e \<Rightarrow> Inl e
      | Inr presigned \<Rightarrow>
          Inr \<lparr>pol_url = pol_url presigned, pol_method = pol_method presigned, pol_headers = pol_headers presigned,
               pol_expiresAt = pol_expiresAt presigned\<rparr>)"

definition FileStorage_inspect ::
  "(nat list \<Rightarrow> string list) \<Rightarrow> (string \<Rightarrow> 's \<Rightarrow> failure + (int \<times> string option) option)
     \<Rightarrow> (string \<Rightarrow> int \<Rightarrow> 's \<Rightarrow> failure + nat list option) \<Rightarrow> string \<Rightarrow> 's \<Rightarrow> failure + (int \<times> string option) option"
where
  "FileStorage_inspect detectMimeTypes headObject getObjectRange key s =
     (case headObject key s of
        Inl e \<Rightarrow> Inl e
      | Inr None \<Rightarrow> Inr None
      | Inr (Some (sizeBytes, _)) \<Rightarrow>
          (case getObjectRange key (int SIGNATURE_SAMPLE_BYTES) s of
             Inl e \<Rightarrow> Inl e
           | Inr None \<Rightarrow> Inr None
           | Inr (Some sample) \<Rightarrow>
               (let detected = detectMimeTypes sample
                in Inr (Some (sizeBytes, if detected = [] then None else Some (hd detected))))))"

definition FileStorage_remove :: "(string \<Rightarrow> 's \<Rightarrow> (failure + unit) \<times> 's) \<Rightarrow> string \<Rightarrow> 's \<Rightarrow> (failure + unit) \<times> 's" where
  "FileStorage_remove deleteObject key s = deleteObject key s"

section \<open>The S3 adapter\<close>

definition CONTENT_TYPE_HEADER :: string where "CONTENT_TYPE_HEADER = ''content-type''"

definition CONTENT_LENGTH_HEADER :: string where "CONTENT_LENGTH_HEADER = ''content-length''"

definition MAX_RANGE_BYTES :: nat where "MAX_RANGE_BYTES = SIGNATURE_SAMPLE_BYTES"

record s3_client_config =
  cc_region :: string
  cc_endpoint :: string
  cc_forcePathStyle :: bool
  cc_credentials :: "(string \<times> string) option"
  cc_maxAttempts :: nat
  cc_connectionTimeout :: nat
  cc_requestTimeout :: nat

definition s3_config :: "storage_options \<Rightarrow> s3_client_config" where
  "s3_config options =
     \<lparr>cc_region = st_region options, cc_endpoint = st_endpoint options, cc_forcePathStyle = st_forcePathStyle options,
      cc_credentials =
        (if st_accessKeyId options = [] \<or> st_secretAccessKey options = [] then None
         else Some (st_accessKeyId options, st_secretAccessKey options)),
      cc_maxAttempts = 3,
      cc_connectionTimeout = (case st_connectionTimeoutMs options of Some t \<Rightarrow> t | None \<Rightarrow> 3000),
      cc_requestTimeout = (case st_requestTimeoutMs options of Some t \<Rightarrow> t | None \<Rightarrow> 10000)\<rparr>"

datatype s3_error = S3NotFound | S3NoSuchKey | S3Other failure

text \<open>
  The client: the outputs of the head and get commands with their optional members, the delete command,
  and the signer of an upload.
\<close>

record 's s3_client =
  s3_head :: "string \<Rightarrow> string \<Rightarrow> 's \<Rightarrow> s3_error + int option \<times> string option"
  s3_get :: "string \<Rightarrow> string \<Rightarrow> string \<Rightarrow> 's \<Rightarrow> s3_error + nat list option"
  s3_delete :: "string \<Rightarrow> string \<Rightarrow> 's \<Rightarrow> (s3_error + unit) \<times> 's"
  s3_sign :: "string \<Rightarrow> string \<Rightarrow> string \<Rightarrow> int \<Rightarrow> nat \<Rightarrow> string list \<Rightarrow> failure + string"

definition isObjectMissing :: "s3_error \<Rightarrow> bool" where
  "isObjectMissing e \<longleftrightarrow> e = S3NotFound \<or> e = S3NoSuchKey"

primrec s3_failure :: "s3_error \<Rightarrow> failure" where
  "s3_failure S3NotFound = PlainError ''NotFound''"
| "s3_failure S3NoSuchKey = PlainError ''NoSuchKey''"
| "s3_failure (S3Other e) = e"

definition missing_is_null :: "s3_error + 'a \<Rightarrow> failure + 'a option" where
  "missing_is_null r =
     (case r of
        Inr v \<Rightarrow> Inr (Some v)
      | Inl e \<Rightarrow> if isObjectMissing e then Inr None else Inl (s3_failure e))"

definition sendHead :: "'s s3_client \<Rightarrow> string \<Rightarrow> string \<Rightarrow> 's \<Rightarrow> failure + (int option \<times> string option) option" where
  "sendHead client bucket key s = missing_is_null (s3_head client bucket key s)"

definition sendRangedGet :: "'s s3_client \<Rightarrow> string \<Rightarrow> string \<Rightarrow> int \<Rightarrow> 's \<Rightarrow> failure + nat list option option" where
  "sendRangedGet client bucket key bytes s =
     missing_is_null (s3_get client bucket key (''bytes=0-'' @ show_int (bytes - 1)) s)"

definition assertReadableRange :: "int \<Rightarrow> failure + unit" where
  "assertReadableRange bytes =
     (if bytes < 1 \<or> int MAX_RANGE_BYTES < bytes
      then Inl (PlainError (''getObjectRange accepts 1..'' @ show_nat MAX_RANGE_BYTES @ '' bytes, received ''
                  @ show_int bytes @ ''.''))
      else Inr ())"

definition S3_createPresignedUpload ::
  "'s s3_client \<Rightarrow> string \<Rightarrow> date \<Rightarrow> string \<Rightarrow> string \<Rightarrow> int \<Rightarrow> nat \<Rightarrow> failure + upload_policy"
where
  "S3_createPresignedUpload client bucket now key contentType sizeBytes expiresInSeconds =
     (case s3_sign client bucket key contentType sizeBytes expiresInSeconds [CONTENT_TYPE_HEADER, CONTENT_LENGTH_HEADER] of
        Inl e \<Rightarrow> Inl e
      | Inr url \<Rightarrow>
          Inr \<lparr>pol_url = url, pol_method = ''PUT'',
               pol_headers = [(CONTENT_TYPE_HEADER, contentType), (CONTENT_LENGTH_HEADER, show_int sizeBytes)],
               pol_expiresAt = now + int expiresInSeconds * 1000\<rparr>)"

definition S3_headObject :: "'s s3_client \<Rightarrow> string \<Rightarrow> string \<Rightarrow> 's \<Rightarrow> failure + (int \<times> string option) option" where
  "S3_headObject client bucket key s =
     (case sendHead client bucket key s of
        Inl e \<Rightarrow> Inl e
      | Inr None \<Rightarrow> Inr None
      | Inr (Some (None, _)) \<Rightarrow> Inl (PlainError (''Storage returned no content-length for object '' @ [CHR 0x22] @ key @ [CHR 0x22] @ ''.''))
      | Inr (Some (Some contentLength, contentType)) \<Rightarrow> Inr (Some (contentLength, contentType)))"

definition S3_getObjectRange :: "'s s3_client \<Rightarrow> string \<Rightarrow> string \<Rightarrow> int \<Rightarrow> 's \<Rightarrow> failure + nat list option" where
  "S3_getObjectRange client bucket key bytes s =
     (case assertReadableRange bytes of
        Inl e \<Rightarrow> Inl e
      | Inr _ \<Rightarrow>
          (case sendRangedGet client bucket key bytes s of
             Inl e \<Rightarrow> Inl e
           | Inr None \<Rightarrow> Inr None
           | Inr (Some None) \<Rightarrow> Inl (PlainError (''Storage returned no body for object '' @ [CHR 0x22] @ key @ [CHR 0x22] @ ''.''))
           | Inr (Some (Some body)) \<Rightarrow> Inr (Some body)))"

definition S3_deleteObject :: "'s s3_client \<Rightarrow> string \<Rightarrow> string \<Rightarrow> 's \<Rightarrow> (failure + unit) \<times> 's" where
  "S3_deleteObject client bucket key s =
     (case s3_delete client bucket key s of
        (Inl e, s') \<Rightarrow> (Inl (s3_failure e), s')
      | (Inr _, s') \<Rightarrow> (Inr (), s'))"

section \<open>The file system\<close>

text \<open>
  A file system is a map from the components of an absolute path to a file or a directory. \<open>failing\<close> are
  the paths on which the operating system refuses an operation for reasons of its own.
\<close>

datatype node = File "nat list" | Dir

type_synonym fs = "string list \<rightharpoonup> node"

definition io_error :: failure where
  "io_error = PlainError ''the file system refused the operation''"

definition blocked :: "fs \<Rightarrow> string list \<Rightarrow> bool" where
  "blocked fs ws \<longleftrightarrow> list_ex (\<lambda>n. case fs (take n ws) of Some (File _) \<Rightarrow> True | _ \<Rightarrow> False) [0..<length ws]"

definition stat :: "(string \<Rightarrow> bool) \<Rightarrow> nat \<Rightarrow> string \<Rightarrow> fs \<Rightarrow> failure + nat" where
  "stat failing dirSize path fs =
     (if failing path then Inl io_error
      else (case fs (components path) of
              None \<Rightarrow> Inl io_error
            | Some (File b) \<Rightarrow> Inr (length b)
            | Some Dir \<Rightarrow> Inr dirSize))"

definition readFile :: "(string \<Rightarrow> bool) \<Rightarrow> string \<Rightarrow> fs \<Rightarrow> failure + nat list" where
  "readFile failing path fs =
     (if failing path then Inl io_error
      else (case fs (components path) of Some (File b) \<Rightarrow> Inr b | _ \<Rightarrow> Inl io_error))"

definition rm_force :: "(string \<Rightarrow> bool) \<Rightarrow> string \<Rightarrow> (fs, unit) action" where
  "rm_force failing path fs =
     (if failing path \<or> blocked fs (components path) then (Inl io_error, fs)
      else (case fs (components path) of
              None \<Rightarrow> (Inr (), fs)
            | Some (File _) \<Rightarrow> (Inr (), fs(components path := None))
            | Some Dir \<Rightarrow> (Inl io_error, fs)))"

definition mkdir_recursive :: "(string \<Rightarrow> bool) \<Rightarrow> string \<Rightarrow> (fs, unit) action" where
  "mkdir_recursive failing path fs =
     (let ws = components path in
      if failing path \<or> blocked fs ws \<or> (case fs ws of Some (File _) \<Rightarrow> True | _ \<Rightarrow> False) then (Inl io_error, fs)
      else (Inr (), \<lambda>vs. if take (length vs) ws = vs then Some Dir else fs vs))"

definition writeFile :: "(string \<Rightarrow> bool) \<Rightarrow> string \<Rightarrow> nat list \<Rightarrow> (fs, unit) action" where
  "writeFile failing path body fs =
     (let ws = components path in
      if failing path \<or> ws = [] \<or> fs (butlast ws) \<noteq> Some Dir \<or> fs ws = Some Dir then (Inl io_error, fs)
      else (Inr (), fs(ws \<mapsto> File body)))"

section \<open>The local adapter\<close>

definition LOCAL_UPLOAD_PREFIX :: string where "LOCAL_UPLOAD_PREFIX = ''/local-storage''"

definition UPLOAD_TOKEN_HEADER :: string where "UPLOAD_TOKEN_HEADER = ''x-upload-token''"

definition local_root :: "string \<Rightarrow> storage_options \<Rightarrow> string" where
  "local_root cwd options =
     resolve_path cwd (case st_localRoot options of Some r \<Rightarrow> r | None \<Rightarrow> join_paths cwd ''.local-storage'')"

definition tokenFor :: "(string \<Rightarrow> string) \<Rightarrow> string \<Rightarrow> string \<Rightarrow> string" where
  "tokenFor sha secretAccessKey key = take 32 (sha (secretAccessKey @ '':'' @ key))"

definition pathFor :: "string \<Rightarrow> string \<Rightarrow> failure + string" where
  "pathFor base key =
     (let path = resolve_path [] (join_paths base (normalize key))
      in if path \<noteq> base \<and> \<not> starts_with (base @ ''/'') path
         then Inl (PlainError ''Storage key resolved outside the storage root.'')
         else Inr path)"

definition Local_createPresignedUpload ::
  "(string \<Rightarrow> string) \<Rightarrow> storage_options \<Rightarrow> date \<Rightarrow> string \<Rightarrow> string \<Rightarrow> int \<Rightarrow> nat \<Rightarrow> failure + upload_policy"
where
  "Local_createPresignedUpload sha options now key contentType sizeBytes expiresInSeconds =
     Inr \<lparr>pol_url = LOCAL_UPLOAD_PREFIX @ ''/'' @ st_bucket options @ ''/'' @ key, pol_method = ''PUT'',
          pol_headers =
            [(CONTENT_TYPE_HEADER, contentType), (CONTENT_LENGTH_HEADER, show_int sizeBytes),
             (UPLOAD_TOKEN_HEADER, tokenFor sha (st_secretAccessKey options) key)],
          pol_expiresAt = now + int expiresInSeconds * 1000\<rparr>"

definition Local_headObject ::
  "(string \<Rightarrow> bool) \<Rightarrow> nat \<Rightarrow> string \<Rightarrow> string \<Rightarrow> fs \<Rightarrow> failure + (int \<times> string option) option"
where
  "Local_headObject failing dirSize base key fs =
     (case pathFor base key of
        Inl _ \<Rightarrow> Inr None
      | Inr path \<Rightarrow>
          (case stat failing dirSize path fs of Inl _ \<Rightarrow> Inr None | Inr n \<Rightarrow> Inr (Some (int n, None))))"

definition Local_getObjectRange :: "(string \<Rightarrow> bool) \<Rightarrow> string \<Rightarrow> string \<Rightarrow> int \<Rightarrow> fs \<Rightarrow> failure + nat list option" where
  "Local_getObjectRange failing base key bytes fs =
     (case pathFor base key of
        Inl _ \<Rightarrow> Inr None
      | Inr path \<Rightarrow>
          (case readFile failing path fs of
             Inl _ \<Rightarrow> Inr None
           | Inr contents \<Rightarrow>
               (let n = min bytes (int SIGNATURE_SAMPLE_BYTES)
                in Inr (Some (take (if n < 0 then length contents - nat (- n) else nat n) contents)))))"

definition Local_deleteObject :: "(string \<Rightarrow> bool) \<Rightarrow> string \<Rightarrow> string \<Rightarrow> (fs, unit) action" where
  "Local_deleteObject failing base key fs =
     (case pathFor base key of Inl e \<Rightarrow> (Inl e, fs) | Inr path \<Rightarrow> rm_force failing path fs)"

definition putObject :: "(string \<Rightarrow> bool) \<Rightarrow> string \<Rightarrow> string \<Rightarrow> nat list \<Rightarrow> (fs, unit) action" where
  "putObject failing base key body fs =
     (case pathFor base key of
        Inl e \<Rightarrow> (Inl e, fs)
      | Inr path \<Rightarrow>
          (case mkdir_recursive failing (path_of (butlast (components path))) fs of
             (Inl e, fs') \<Rightarrow> (Inl e, fs')
           | (Inr _, fs') \<Rightarrow> writeFile failing path body fs'))"

section \<open>The upload route of the local driver\<close>

text \<open>
  The route \<open>/:bucket/*\<close> under the prefix: the first segment after the prefix and the rest. The address
  of a key is written without percent escapes.
\<close>

definition local_upload_params :: "string \<Rightarrow> (string \<times> string) option" where
  "local_upload_params url =
     (let path = instancePath url; start = LOCAL_UPLOAD_PREFIX @ ''/'' in
      if starts_with start path
      then (case segments (drop (length start) path) of
              b # w # ws \<Rightarrow> Some (b, join_with ''/'' (w # ws))
            | _ \<Rightarrow> None)
      else None)"

definition refuse :: "(nat \<rightharpoonup> string) \<Rightarrow> string \<Rightarrow> date \<Rightarrow> http_request \<Rightarrow> nat \<times> problem_details option" where
  "refuse phrases newId now r =
     (403, Some (buildProblemDetails phrases now 403 (wire_code FORBIDDEN) ''This upload URL is not valid.''
                   (instancePath (rq_url r)) (ids_requestId (fst (ensureRequestIds newId False r))) None None))"

text \<open>
  The handler: a body over the limit is refused by the parser, everything else that is not a valid upload
  by \<open>refuse\<close>. No body is \<open>None\<close>.
\<close>

definition local_upload_put ::
  "(string \<Rightarrow> string) \<Rightarrow> (nat \<rightharpoonup> string) \<Rightarrow> (string \<Rightarrow> bool) \<Rightarrow> storage_options \<Rightarrow> string \<Rightarrow> nat \<Rightarrow> string \<Rightarrow> date
     \<Rightarrow> http_request \<Rightarrow> string \<times> string \<Rightarrow> nat list option \<Rightarrow> (fs, nat \<times> problem_details option) action"
where
  "local_upload_put sha phrases failing options base limit newId now r params body fs =
     (case body of
        Some bytes \<Rightarrow>
          if limit < length bytes then (Inl (HttpFailure 413 ''Request body is too large''), fs)
          else
            (let (bucket, key) = params in
             if bucket \<noteq> st_bucket options \<or> key = []
                \<or> (case rq_headers r UPLOAD_TOKEN_HEADER of
                     Header token \<Rightarrow> \<not> constantTimeEquals token (tokenFor sha (st_secretAccessKey options) key)
                   | _ \<Rightarrow> True)
             then (Inr (refuse phrases newId now r), fs)
             else (case putObject failing base key bytes fs of
                     (Inl e, fs') \<Rightarrow> (Inl e, fs')
                   | (Inr _, fs') \<Rightarrow> (Inr (200, None), fs')))
      | None \<Rightarrow> (Inr (refuse phrases newId now r), fs))"

section \<open>The contract of the port\<close>

text \<open>
  \<open>stored\<close> is the map a state stands for, \<open>serves\<close> the keys the store answers for. An object without bytes
  has no range to read, so the sample law leaves it out.
\<close>

locale storage_port =
  fixes headObject :: "string \<Rightarrow> 's \<Rightarrow> failure + (int \<times> string option) option"
    and getObjectRange :: "string \<Rightarrow> int \<Rightarrow> 's \<Rightarrow> failure + nat list option"
    and deleteObject :: "string \<Rightarrow> 's \<Rightarrow> (failure + unit) \<times> 's"
    and stored :: "'s \<Rightarrow> objects"
    and serves :: "'s \<Rightarrow> string \<Rightarrow> bool"
  assumes head_present: "serves s k \<Longrightarrow> stored s k = Some obj \<Longrightarrow> \<exists>t. headObject k s = Inr (Some (so_size obj, t))"
    and head_absent: "serves s k \<Longrightarrow> stored s k = None \<Longrightarrow> headObject k s = Inr None"
    and range_present: "serves s k \<Longrightarrow> stored s k = Some obj \<Longrightarrow> so_bytes obj \<noteq> [] \<Longrightarrow> 1 \<le> n \<Longrightarrow> n \<le> 4100
      \<Longrightarrow> getObjectRange k n s = Inr (Some (take (nat n) (so_bytes obj)))"
    and delete_removes: "serves s k \<Longrightarrow> \<exists>s'. deleteObject k s = (Inr (), s') \<and> stored s' = (stored s)(k := None)"
begin

lemma port_inspect:
  assumes "serves s k" "\<forall>obj. stored s k = Some obj \<longrightarrow> so_bytes obj \<noteq> []"
  shows "FileStorage_inspect detect headObject getObjectRange k s = inspect detect (\<lambda>_. False) k (stored s)"
proof (cases "stored s k")
  case None
  then show ?thesis using head_absent [OF assms(1)] by (simp add: FileStorage_inspect_def inspect_def)
next
  case (Some obj)
  then obtain t where "headObject k s = Inr (Some (so_size obj, t))" using head_present [OF assms(1)] by blast
  moreover have "getObjectRange k 4100 s = Inr (Some (take 4100 (so_bytes obj)))"
    using range_present [OF assms(1) Some, of 4100] assms(2) Some by simp
  ultimately show ?thesis using Some by (simp add: FileStorage_inspect_def inspect_def SIGNATURE_SAMPLE_BYTES_def)
qed

lemma port_remove:
  assumes "serves s k"
  shows "\<exists>s'. FileStorage_remove deleteObject k s = (Inr (), s')
      \<and> remove_object (\<lambda>_. False) k (stored s) = (Inr (), stored s')"
  using delete_removes [OF assms] by (auto simp: FileStorage_remove_def remove_object_def)

end

section \<open>The local adapter keeps the contract\<close>

definition canonical :: "string \<Rightarrow> bool" where
  "canonical key \<longleftrightarrow> list_all proper (segments key)"

definition sound_root :: "string \<Rightarrow> bool" where
  "sound_root base \<longleftrightarrow> (\<exists>rs. rs \<noteq> [] \<and> base = path_of rs \<and> (\<forall>w \<in> set rs. proper w))"

definition local_stored :: "string \<Rightarrow> fs \<Rightarrow> objects" where
  "local_stored base fs key =
     (if canonical key
      then (case fs (components base @ segments key) of
              Some (File b) \<Rightarrow> Some \<lparr>so_size = int (length b), so_bytes = b\<rparr>
            | _ \<Rightarrow> None)
      else None)"

definition local_serves :: "(string \<Rightarrow> bool) \<Rightarrow> string \<Rightarrow> fs \<Rightarrow> string \<Rightarrow> bool" where
  "local_serves failing base fs key \<longleftrightarrow>
     sound_root base \<and> canonical key \<and> \<not> failing (path_of (components base @ segments key))
     \<and> fs (components base @ segments key) \<noteq> Some Dir \<and> \<not> blocked fs (components base @ segments key)"

lemma pathFor_follow:
  assumes "rs \<noteq> []" "\<forall>w \<in> set rs. proper w"
  shows "pathFor (path_of rs) key =
     (if \<exists>ks. follow rs key = rs @ ks then Inr (path_of (follow rs key))
      else Inl (PlainError ''Storage key resolved outside the storage root.''))"
  using below_root_iff [OF assms(2,1) follow_proper [OF assms(2)], of key] resolve_join [OF assms(2), of "[]" key]
  by (auto simp: pathFor_def Let_def)

lemma pathFor_canonical:
  assumes "sound_root base" "canonical key"
  shows "pathFor base key = Inr (path_of (components base @ segments key))"
    and "components (path_of (components base @ segments key)) = components base @ segments key"
    and "components base \<noteq> []" "segments key \<noteq> []"
proof -
  obtain rs where rs: "rs \<noteq> []" "base = path_of rs" "\<forall>w \<in> set rs. proper w" using assms(1) by (auto simp: sound_root_def)
  have ks: "\<forall>w \<in> set (segments key). proper w" using assms(2) by (simp add: canonical_def list_all_iff)
  show ne: "segments key \<noteq> []" by (simp add: segments_def)
  have "follow rs key = rs @ segments key" using follow_key [OF ks ne, of rs] by (simp add: join_segments)
  then show "pathFor base key = Inr (path_of (components base @ segments key))"
    using pathFor_follow [OF rs(1,3), of key] by (auto simp: rs(2) components_path_of [OF rs(3)])
  show "components (path_of (components base @ segments key)) = components base @ segments key"
    using ks rs by (intro components_path_of) (auto simp: components_path_of)
  show "components base \<noteq> []" using rs by (simp add: components_path_of)
qed

lemma segments_inj: "segments a = segments b \<Longrightarrow> a = b"
  by (metis join_segments)

lemma local_stored_update:
  assumes "canonical key"
  shows "local_stored base (fs(components base @ segments key := v))
      = (local_stored base fs)(key := (case v of Some (File b) \<Rightarrow> Some \<lparr>so_size = int (length b), so_bytes = b\<rparr> | _ \<Rightarrow> None))"
  using assms segments_inj by (auto simp: local_stored_def fun_eq_iff)

interpretation local_port: storage_port
  "Local_headObject failing dirSize base" "Local_getObjectRange failing base" "Local_deleteObject failing base"
  "local_stored base" "local_serves failing base"
  for failing dirSize base
proof unfold_locales
  fix s k obj
  assume k: "local_serves failing base s k"
  then have path: "sound_root base" "canonical k" "\<not> failing (path_of (components base @ segments k))"
    by (simp_all add: local_serves_def)
  note p = pathFor_canonical [OF path(1,2)]
  show "\<exists>t. Local_headObject failing dirSize base k s = Inr (Some (so_size obj, t))" if "local_stored base s k = Some obj"
    using that path p by (auto simp: Local_headObject_def stat_def local_stored_def split: option.splits node.splits if_splits)
  show "Local_headObject failing dirSize base k s = Inr None" if "local_stored base s k = None"
    using that k p by (auto simp: Local_headObject_def stat_def local_stored_def local_serves_def split: option.splits node.splits if_splits)
  show "Local_getObjectRange failing base k n s = Inr (Some (take (nat n) (so_bytes obj)))"
    if "local_stored base s k = Some obj" "1 \<le> n" "n \<le> 4100" for n
    using that path p
    by (auto simp: Local_getObjectRange_def readFile_def local_stored_def SIGNATURE_SAMPLE_BYTES_def min_def Let_def
        split: option.splits node.splits if_splits)
  show "\<exists>s'. Local_deleteObject failing base k s = (Inr (), s') \<and> local_stored base s' = (local_stored base s)(k := None)"
  proof (cases "s (components base @ segments k)")
    case None
    then have "Local_deleteObject failing base k s = (Inr (), s)"
      using k by (simp add: Local_deleteObject_def p(1,2) rm_force_def local_serves_def)
    moreover have "local_stored base s k = None" using None by (simp add: local_stored_def)
    ultimately show ?thesis by (metis fun_upd_triv)
  next
    case (Some nd)
    then obtain b where "nd = File b" using k by (cases nd) (simp_all add: local_serves_def)
    with Some have "Local_deleteObject failing base k s = (Inr (), s(components base @ segments k := None))"
      using k by (simp add: Local_deleteObject_def p(1,2) rm_force_def local_serves_def)
    then show ?thesis using local_stored_update [OF path(2), of base s None] by simp
  qed
qed

section \<open>The S3 adapter keeps the contract\<close>

text \<open>
  The documented behaviour of the service for one bucket: the head of an object carries its length, a get
  with a range from zero returns that prefix, and a range of an object without bytes is an error.
\<close>

definition read_nat :: "string \<Rightarrow> nat" where
  "read_nat s = foldl (\<lambda>n c. 10 * n + (code_unit c - 48)) 0 s"

definition bucket_client :: "objects s3_client" where
  "bucket_client =
     \<lparr>s3_head = (\<lambda>_ key objs. case objs key of None \<Rightarrow> Inl S3NotFound | Some obj \<Rightarrow> Inr (Some (so_size obj), None)),
      s3_get = (\<lambda>_ key bytes objs.
        case objs key of
          None \<Rightarrow> Inl S3NoSuchKey
        | Some obj \<Rightarrow>
            if so_bytes obj = [] then Inl (S3Other (PlainError ''InvalidRange''))
            else Inr (Some (take (Suc (read_nat (drop 8 bytes))) (so_bytes obj)))),
      s3_delete = (\<lambda>_ key objs. (Inr (), objs(key := None))),
      s3_sign = (\<lambda>bucket key _ _ _ _. Inr (bucket @ ''/'' @ key))\<rparr>"

lemma read_show_nat: "read_nat (show_nat n) = n"
proof (induction n rule: show_nat.induct)
  case (1 n)
  show ?case
  proof (cases "n < 10")
    case True
    then show ?thesis by (subst show_nat.simps) (simp add: read_nat_def)
  next
    case False
    then show ?thesis using "1.IH" by (subst show_nat.simps) (simp add: read_nat_def)
  qed
qed

interpretation s3_port: storage_port
  "S3_headObject bucket_client bucket" "S3_getObjectRange bucket_client bucket" "S3_deleteObject bucket_client bucket"
  "\<lambda>objs. objs" "\<lambda>_ _. True"
  for bucket
proof unfold_locales
  fix s :: objects and k obj and n :: int
  assume k: "s k = Some obj" "so_bytes obj \<noteq> []" "1 \<le> n" "n \<le> 4100"
  then have "Suc (nat (n - 1)) = nat n" by simp
  then show "S3_getObjectRange bucket_client bucket k n s = Inr (Some (take (nat n) (so_bytes obj)))"
    using k by (simp add: S3_getObjectRange_def assertReadableRange_def sendRangedGet_def missing_is_null_def bucket_client_def
        MAX_RANGE_BYTES_def SIGNATURE_SAMPLE_BYTES_def show_int_def read_show_nat)
qed (simp_all add: S3_headObject_def sendHead_def missing_is_null_def bucket_client_def isObjectMissing_def S3_deleteObject_def)

section \<open>Writing through the local route\<close>

lemma is_file_iff: "(case v of Some (File _) \<Rightarrow> True | _ \<Rightarrow> False) \<longleftrightarrow> (\<exists>b. v = Some (File b))"
  by (cases v; cases "the v") simp_all

lemma blocked_iff: "blocked fs ws \<longleftrightarrow> (\<exists>n < length ws. \<exists>b. fs (take n ws) = Some (File b))"
  unfolding blocked_def list_ex_iff is_file_iff by auto

lemma blocked_update [simp]: "blocked (fs(ws := v)) ws = blocked fs ws"
proof -
  have "take n ws \<noteq> ws" if "n < length ws" for n
    using that arg_cong [of "take n ws" ws length] by auto
  then have "(fs(ws := v)) (take n ws) = fs (take n ws)" if "n < length ws" for n using that by simp
  then show ?thesis unfolding blocked_iff by (simp only: cong: conj_cong)
qed

lemma blocked_take: "\<not> blocked fs ws \<Longrightarrow> n < length ws \<Longrightarrow> fs (take n ws) \<noteq> Some (File b)"
  by (auto simp: blocked_iff)

lemma blocked_butlast: "\<not> blocked fs ws \<Longrightarrow> \<not> blocked fs (butlast ws)"
  by (auto simp: blocked_iff take_butlast)

lemma components_butlast:
  "\<forall>w \<in> set ws. proper w \<Longrightarrow> components (path_of (butlast ws)) = butlast ws"
  by (rule components_path_of) (meson in_set_butlastD)

lemma putObject_stores:
  assumes k: "local_serves failing base fs key" and dir: "\<not> failing (path_of (butlast (components base @ segments key)))"
  shows "\<exists>fs'. putObject failing base key body fs = (Inr (), fs')
     \<and> local_stored base fs' = (local_stored base fs)(key \<mapsto> \<lparr>so_size = int (length body), so_bytes = body\<rparr>)
     \<and> local_serves failing base fs' key"
proof -
  let ?ws = "components base @ segments key"
  have path: "sound_root base" "canonical key" "\<not> failing (path_of ?ws)" "fs ?ws \<noteq> Some Dir" "\<not> blocked fs ?ws"
    using k by (simp_all add: local_serves_def)
  note p = pathFor_canonical [OF path(1,2)]
  have proper: "\<forall>w \<in> set ?ws. proper w"
    using path(1,2) by (auto simp: sound_root_def canonical_def list_all_iff components_path_of)
  have ne: "?ws \<noteq> []" using p(3) by simp
  have parent: "fs (butlast ?ws) \<noteq> Some (File b)" for b
    using blocked_take [OF path(5), of "length ?ws - 1"] ne by (simp add: butlast_conv_take)
  define fs1 where "fs1 = (\<lambda>vs. if take (length vs) (butlast ?ws) = vs then Some Dir else fs vs)"
  have mk: "mkdir_recursive failing (path_of (butlast ?ws)) fs = (Inr (), fs1)"
    using dir parent blocked_butlast [OF path(5)] components_butlast [OF proper]
    by (auto simp: mkdir_recursive_def fs1_def Let_def split: option.splits node.splits)
  have self: "fs1 ?ws = fs ?ws" 
  proof -
    have "length (take (length ?ws) (butlast ?ws)) \<noteq> length ?ws" using ne by (cases ?ws) simp_all
    then show ?thesis unfolding fs1_def by (metis (mono_tags))
  qed
  have "fs1 (butlast ?ws) = Some Dir" by (simp add: fs1_def)
  then have "putObject failing base key body fs = (Inr (), fs1(?ws \<mapsto> File body))"
    using mk path(3,4) self ne by (simp add: putObject_def p(1,2) writeFile_def Let_def)
  moreover have "local_stored base fs1 = local_stored base fs"
  proof
    fix j
    have "fs vs \<noteq> Some (File b)" if "take (length vs) (butlast ?ws) = vs" for vs b
    proof -
      have "length vs \<le> length (butlast ?ws)" using arg_cong [OF that, of length] by simp
      moreover have "0 < length ?ws" using ne by blast
      ultimately have "length vs < length ?ws" by (simp only: length_butlast)
      moreover have "vs = take (length vs) ?ws" using that calculation by (metis take_butlast)
      ultimately show ?thesis using blocked_take [OF path(5)] by metis
    qed
    then show "local_stored base fs1 j = local_stored base fs j"
      by (auto simp: local_stored_def fs1_def split: option.splits node.splits)
  qed
  moreover have "\<not> blocked (fs1(?ws \<mapsto> File body)) ?ws"
    using path(5) unfolding blocked_update by (auto simp: blocked_iff fs1_def simp del: take_append split: if_splits)
  ultimately show ?thesis
    using local_stored_update [OF path(2), of base fs1 "Some (File body)"] path by (auto simp: local_serves_def)
qed

text \<open>Every write of \<open>putObject\<close>, whatever the key, is below the root or creates a directory above it.\<close>

lemma putObject_below:
  assumes rs: "rs \<noteq> []" "\<forall>w \<in> set rs. proper w"
    and put: "putObject failing (path_of rs) key body fs = (res, fs')" and changed: "fs' vs \<noteq> fs vs"
  shows "(\<exists>ks. vs = rs @ ks) \<or> (fs' vs = Some Dir \<and> (\<exists>us. rs = vs @ us))"
proof -
  obtain ks where ks: "follow rs key = rs @ ks" "pathFor (path_of rs) key = Inr (path_of (rs @ ks))"
    using put changed pathFor_follow [OF rs, of key] by (auto simp: putObject_def split: if_splits)
  have proper: "\<forall>w \<in> set (rs @ ks). proper w" using follow_proper [OF rs(2), of key] ks(1) by metis
  have comps: "components (path_of (rs @ ks)) = rs @ ks" "components (path_of (butlast (rs @ ks))) = butlast (rs @ ks)"
    using components_path_of [OF proper] components_butlast [OF proper] by simp_all
  have "vs = rs @ ks \<or> (take (length vs) (butlast (rs @ ks)) = vs \<and> fs' vs = Some Dir)"
    using put changed
    by (auto simp: putObject_def ks(2) comps mkdir_recursive_def writeFile_def Let_def split: if_splits prod.splits sum.splits)
  then show ?thesis
  proof
    assume v: "take (length vs) (butlast (rs @ ks)) = vs \<and> fs' vs = Some Dir"
    then obtain us where "vs @ us = butlast (rs @ ks)" by (metis append_take_drop_id)
    then have "\<exists>us. vs @ us = rs @ ks" by (metis append_butlast_last_id append.assoc append_self_conv butlast.simps(1))
    then show ?thesis using v by (auto simp: append_eq_append_conv2)
  qed blast
qed

text \<open>
  C9: the upload route of the local driver writes nothing it should not. If a request changes the file
  system, then it named the bucket of the deployment, carried in its header the token this server derives
  for exactly that key, and its body is within the limit; and whatever the key is, dots and separators
  included, every file and directory that changed lies under the storage root, or is a missing directory
  on the way to it.\<close>

theorem local_upload_confined:
  assumes "rs \<noteq> []" "\<forall>w \<in> set rs. proper w"
    and "local_upload_put sha phrases failing options (path_of rs) limit newId now r (bucket, key) body fs = (res, fs')"
    and "fs' \<noteq> fs"
  shows "bucket = st_bucket options \<and> rq_headers r UPLOAD_TOKEN_HEADER = Header (tokenFor sha (st_secretAccessKey options) key)
    \<and> (\<exists>bytes. body = Some bytes \<and> length bytes \<le> limit)
    \<and> (\<forall>vs. fs' vs \<noteq> fs vs \<longrightarrow> (\<exists>ks. vs = rs @ ks) \<or> (fs' vs = Some Dir \<and> (\<exists>us. rs = vs @ us)))"
proof -
  obtain bytes where b: "body = Some bytes" using assms(3,4) by (cases body) (auto simp: local_upload_put_def)
  obtain token where token: "rq_headers r UPLOAD_TOKEN_HEADER = Header token"
    using assms(3,4) b by (cases "rq_headers r UPLOAD_TOKEN_HEADER") (auto simp: local_upload_put_def split: if_splits)
  have ok: "length bytes \<le> limit" "bucket = st_bucket options" "constantTimeEquals token (tokenFor sha (st_secretAccessKey options) key)"
    using assms(3,4) b token by (auto simp: local_upload_put_def split: if_splits)
  obtain res' where "putObject failing (path_of rs) key bytes fs = (res', fs')"
    using assms(3,4) b token ok by (auto simp: local_upload_put_def split: if_splits prod.splits sum.splits)
  from putObject_below [OF assms(1,2) this] ok utf8_inj b token show ?thesis by (auto simp: constantTimeEquals_def)
qed

definition sample_options :: storage_options where
  "sample_options =
     \<lparr>st_driver = Local, st_bucket = ''b'', st_region = [], st_endpoint = [], st_accessKeyId = [], st_secretAccessKey = ''s'',
      st_forcePathStyle = False, st_connectionTimeoutMs = None, st_requestTimeoutMs = None, st_localRoot = Some ''/r''\<rparr>"

definition upload_request :: "string \<Rightarrow> string \<Rightarrow> http_request" where
  "upload_request url token =
     \<lparr>rq_headers = (\<lambda>h. if h = UPLOAD_TOKEN_HEADER then Header token else NoHeader), rq_url = url, rq_ip = [], rq_ids = None,
      rq_authSession = None, rq_tenantContext = None\<rparr>"

definition sample_put :: "(failure + nat \<times> problem_details option) \<times> fs" where
  "sample_put = local_upload_put id (\<lambda>_. None) (\<lambda>_. False) sample_options (path_of [''r'']) 9 ''i'' 0
     (upload_request [] ''s:a/../x'') (''b'', ''a/../x'') (Some [1]) (\<lambda>_. None)"

lemma sample_put_writes: "snd sample_put [''r'', ''x''] = Some (File [1])"
  by code_simp

theorem local_upload_confined_witness:
  "snd sample_put [''r'', ''x''] = Some (File [1])
   \<and> {vs. snd sample_put vs \<noteq> None}
        \<subseteq> {vs. (\<exists>ks. vs = [''r''] @ ks) \<or> (snd sample_put vs = Some Dir \<and> (\<exists>us. [''r''] = vs @ us))}"
proof -
  have "snd sample_put \<noteq> (\<lambda>_. None)" using sample_put_writes by (metis option.discI)
  moreover have "\<forall>w \<in> set [''r'']. proper w" by (simp add: proper_def)
  ultimately show ?thesis
    using local_upload_confined [of "[''r'']" id "\<lambda>_. None" "\<lambda>_. False" sample_options 9 "''i''" 0 "upload_request [] ''s:a/../x''"
        "''b''" "''a/../x''" "Some [1]" "\<lambda>_. None" "fst sample_put" "snd sample_put"] sample_put_writes
    unfolding prod.collapse by (simp only: sample_put_def [symmetric]) blast
qed

section \<open>From the presigned address to the confirmed file\<close>

definition plain :: "string \<Rightarrow> bool" where
  "plain w \<longleftrightarrow> proper w \<and> CHR ''?'' \<notin> set w"

lemma storage_key_segments:
  assumes "proper g" "proper u" "proper i"
  shows "segments (storage_key g u i) = [''uploads'', g, u, i]"
proof -
  have "storage_key g u i = join_with ''/'' [''uploads'', g, u, i]" by (simp add: storage_key_def)
  then show ?thesis using assms by (simp add: proper_def segments_join del: join_with.simps)
qed

lemma instancePath_plain: "CHR ''?'' \<notin> set s \<Longrightarrow> instancePath s = s"
  by (auto simp: instancePath_def takeWhile_eq_all_conv)

lemma local_upload_params_key:
  assumes "plain b" "plain g" "plain u" "plain i"
  shows "local_upload_params (LOCAL_UPLOAD_PREFIX @ ''/'' @ b @ ''/'' @ storage_key g u i) = Some (b, storage_key g u i)"
proof -
  let ?url = "LOCAL_UPLOAD_PREFIX @ ''/'' @ b @ ''/'' @ storage_key g u i"
  have "CHR ''?'' \<notin> set ?url" using assms by (auto simp: plain_def storage_key_def LOCAL_UPLOAD_PREFIX_def)
  then have "instancePath ?url = ?url" by (rule instancePath_plain)
  moreover have "segments (b @ ''/'' @ storage_key g u i) = b # segments (storage_key g u i)"
    using assms by (simp add: plain_def proper_def segments_append)
  moreover have "segments (storage_key g u i) = [''uploads'', g, u, i]"
    using assms by (intro storage_key_segments) (simp_all add: plain_def)
  ultimately show ?thesis using join_segments [of "storage_key g u i"]
    by (simp add: local_upload_params_def starts_with_def Let_def)
qed

definition presigned_row :: "uuid \<Rightarrow> date \<Rightarrow> uuid \<Rightarrow> uuid \<Rightarrow> string \<Rightarrow> string \<Rightarrow> int \<Rightarrow> stored_file_row" where
  "presigned_row i now g u name mime n =
     \<lparr>sf_id = i, sf_organizationId = g, sf_ownerId = u, sf_storageKey = storage_key g u i, sf_filename = name,
      sf_declaredMimeType = mime, sf_declaredSizeBytes = n, sf_verifiedMimeType = None, sf_verifiedSizeBytes = None,
      sf_status = Pending, sf_createdAt = now, sf_confirmedAt = None\<rparr>"

lemma presign_stores:
  assumes "PresignUpload_execute limits policy i now g u filename mime n d = (Inr v, d1)"
  shows "\<exists>name. storedFiles d1 = storedFiles d @ [presigned_row i now g u name mime n] \<and> i \<notin> sf_id ` set (storedFiles d)
     \<and> mime \<in> set ALLOWED_MIME_TYPES \<and> 0 < n \<and> n \<le> int (maxFileBytes limits)
     \<and> policy (storage_key g u i) mime n (presignExpirySeconds limits) = Inr (pu_policy v)"
proof -
  obtain f where f: "StoredFile_presign i now g u filename mime n (maxFileBytes limits) = Inr f"
    using assms by (auto simp: PresignUpload_execute_def split: sum.splits)
  then obtain name where name: "file_row f = presigned_row i now g u name mime n"
    and ok: "mime \<in> set ALLOWED_MIME_TYPES" "0 < n" "n \<le> int (maxFileBytes limits)"
    by (auto simp: StoredFile_presign_def presigned_row_def split: if_splits sum.splits)
  have saved: "save_file f d = (Inr (), d1)"
    and pol: "policy (storage_key g u i) mime n (presignExpirySeconds limits) = Inr (pu_policy v)"
    using assms f name by (auto simp: PresignUpload_execute_def presigned_row_def split: prod.splits sum.splits)
  show ?thesis using save_file_rows [OF saved] name ok pol by (auto simp: presigned_row_def)
qed


definition sample_limits :: upload_limits where
  "sample_limits = \<lparr>maxFileBytes = 10, presignExpirySeconds = 60, pendingTtlMinutes = 1\<rparr>"

definition sample_policy :: upload_policy where
  "sample_policy =
     \<lparr>pol_url = ''/local-storage/b/uploads/g1/u/i'', pol_method = ''PUT'',
      pol_headers = [(''content-type'', ''image/png''), (''content-length'', ''3''), (''x-upload-token'', ''s:uploads/g1/u/i'')],
      pol_expiresAt = 60000\<rparr>"

definition sample_upload :: http_request where
  "sample_upload =
     \<lparr>rq_headers = (\<lambda>h. case map_of (pol_headers sample_policy) h of None \<Rightarrow> NoHeader | Some x \<Rightarrow> Header x),
      rq_url = pol_url sample_policy, rq_ip = [], rq_ids = None, rq_authSession = None, rq_tenantContext = None\<rparr>"

lemma sample_presign:
  "\<exists>v d1. PresignUpload_execute sample_limits (createUploadPolicy (Local_createPresignedUpload id sample_options 0)) ''i'' 0 ''g1'' ''u''
     ''a.png'' ''image/png'' 3 (empty_db\<lparr>organizations := [sample_org]\<rparr>) = (Inr v, d1) \<and> pu_policy v = sample_policy"
proof -
  have name: "sanitiseFilename ''a.png'' = Inr ''a.png''" by code_simp
  have policy: "createUploadPolicy (Local_createPresignedUpload id sample_options 0) ''uploads/g1/u/i'' ''image/png'' 3 60 = Inr sample_policy"
    by code_simp
  show ?thesis
    using policy
    by (simp add: PresignUpload_execute_def StoredFile_presign_def ALLOWED_MIME_TYPES_def name sample_limits_def save_file_def
        require_reference_def insert_unique_def empty_db_def sample_org_def storage_key_def)
qed

lemma sample_store: "local_serves (\<lambda>_. False) (path_of [''r'']) (\<lambda>_. None) (storage_key ''g1'' ''u'' ''i'')"
proof -
  have "segments (storage_key ''g1'' ''u'' ''i'') = [''uploads'', ''g1'', ''u'', ''i'']"
    by (rule storage_key_segments) (simp_all add: proper_def)
  moreover have "sound_root (path_of [''r''])" by (auto simp: sound_root_def proper_def intro!: exI [of _ "[''r'']"])
  ultimately show ?thesis by (simp add: local_serves_def canonical_def proper_def blocked_iff)
qed


end
