(* ===== verification/Notifications.thy ===== *)
theory Notifications
  imports Outbox
begin

text \<open>
  The notifications module (\<open>src/src/modules/notifications\<close>) with the mail payload of the
  authentication platform (\<open>src/src/platform/auth/auth-mail.ts\<close>): message templates, the ledger of
  sent notifications, the sender that sends at most once per key, the use cases and listeners, and
  the retention of the ledger.

  The mail transport and the composition of addresses with a token (\<open>URL\<close> and its search
  parameters) are parameters. The interleaving of any number of workers is a step relation.
\<close>

section \<open>Templates\<close>

record rendered_message =
  rm_subject :: string
  rm_text :: string

definition newline :: string where "newline = [CHR 0x0A]"

definition welcomeMessage :: "string \<Rightarrow> string \<Rightarrow> rendered_message" where
  "welcomeMessage email frontendBaseUrl =
     \<lparr>rm_subject = ''Welcome'',
      rm_text = join_with newline [''Welcome, '' @ email @ ''.'', [], ''Your account is ready: '' @ frontendBaseUrl]\<rparr>"

definition invitationMessage :: "string \<Rightarrow> string \<Rightarrow> date \<Rightarrow> rendered_message" where
  "invitationMessage organizationName url expiresAt =
     \<lparr>rm_subject = ''You have been invited to '' @ organizationName,
      rm_text = join_with newline
        [''You have been invited to join '' @ organizationName @ ''.'', [], url, [],
         ''The invitation expires on '' @ toISOString expiresAt @ ''.'',
         ''If you were not expecting it, ignore this message.'']\<rparr>"

definition verifyEmailMessage :: "string \<Rightarrow> rendered_message" where
  "verifyEmailMessage url =
     \<lparr>rm_subject = ''Confirm your email address'',
      rm_text = join_with newline
        [''Confirm your email address to finish signing up:'', [], url, [],
         ''If you did not create an account, ignore this message.'']\<rparr>"

definition resetPasswordMessage :: "string \<Rightarrow> rendered_message" where
  "resetPasswordMessage url =
     \<lparr>rm_subject = ''Reset your password'',
      rm_text = join_with newline
        [''Use this link to choose a new password:'', [], url, [],
         ''The link expires shortly. If you did not ask for it, ignore this message.'']\<rparr>"

definition deleteAccountMessage :: "string \<Rightarrow> rendered_message" where
  "deleteAccountMessage url =
     \<lparr>rm_subject = ''Confirm account deletion'',
      rm_text = join_with newline
        [''Confirm that you want to delete your account:'', [], url, [],
         ''This cannot be undone. If you did not ask for it, ignore this message.'']\<rparr>"

section \<open>The ledger\<close>

type_synonym ledger = "sent_notification list"

definition claim_notification :: "date \<Rightarrow> string \<Rightarrow> string \<Rightarrow> ledger \<Rightarrow> bool \<times> ledger" where
  "claim_notification now key channel rows =
     (let (rows', n) = insert_skip sn_idempotencyKey \<lparr>sn_idempotencyKey = key, sn_channel = channel, sn_sentAt = now\<rparr> rows
      in (n = 1, rows'))"

definition release_notification :: "string \<Rightarrow> ledger \<Rightarrow> ledger" where
  "release_notification key rows = delete_where (\<lambda>r. sn_idempotencyKey r = key) rows"

definition deleteSentBefore :: "date \<Rightarrow> nat \<Rightarrow> ledger \<Rightarrow> ledger \<times> nat" where
  "deleteSentBefore cutoff limit rows =
     delete_oldest sn_idempotencyKey (\<lambda>r. sn_sentAt r < cutoff) sn_sentAt limit rows"

definition LEDGER_BATCH_SIZE :: nat where "LEDGER_BATCH_SIZE = 5000"

definition LEDGER_MAX_PASSES :: nat where "LEDGER_MAX_PASSES = 20"

definition DEFAULT_LEDGER_RETENTION_DAYS :: nat where "DEFAULT_LEDGER_RETENTION_DAYS = 90"

definition PruneNotificationLedger_execute :: "date \<Rightarrow> nat \<Rightarrow> ledger \<Rightarrow> ledger \<times> nat" where
  "PruneNotificationLedger_execute now retentionDays rows =
     prune_loop LEDGER_MAX_PASSES LEDGER_BATCH_SIZE (deleteSentBefore (now - int retentionDays * 86400000)) rows"

definition PruneNotificationLedger_handle :: "date \<Rightarrow> ledger \<Rightarrow> ledger \<times> nat" where
  "PruneNotificationLedger_handle now rows = PruneNotificationLedger_execute now DEFAULT_LEDGER_RETENTION_DAYS rows"

section \<open>Senders\<close>

record outgoing_notification =
  on_to :: string
  on_subject :: string
  on_text :: string
  on_html :: "string option"
  on_idempotencyKey :: "string option"

type_synonym 'm mailer = "outgoing_notification \<Rightarrow> ('m, unit) action"

definition MailerNotificationSender_send :: "'m mailer \<Rightarrow> outgoing_notification \<Rightarrow> ('m, unit) action" where
  "MailerNotificationSender_send mailer n m =
     mailer \<lparr>on_to = on_to n, on_subject = on_subject n, on_text = on_text n, on_html = on_html n,
             on_idempotencyKey = on_idempotencyKey n\<rparr> m"

text \<open>\<open>releaseFails\<close> says whether the release statement throws, which \<open>releaseQuietly\<close> swallows.\<close>

definition IdempotentNotificationSender_send ::
  "'m mailer \<Rightarrow> bool \<Rightarrow> date \<Rightarrow> outgoing_notification \<Rightarrow> (ledger \<times> 'm, unit) action"
where
  "IdempotentNotificationSender_send mailer releaseFails now n s =
     (case on_idempotencyKey n of
        None \<Rightarrow> (let (r, m) = MailerNotificationSender_send mailer n (snd s) in (r, (fst s, m)))
      | Some key \<Rightarrow>
          (let (claimed, rows) = claim_notification now key ''email'' (fst s) in
           if \<not> claimed then (Inr (), (rows, snd s))
           else (case MailerNotificationSender_send mailer n (snd s) of
                   (Inr _, m) \<Rightarrow> (Inr (), (rows, m))
                 | (Inl e, m) \<Rightarrow> (Inl e, (if releaseFails then rows else release_notification key rows, m)))))"

section \<open>Authentication mail\<close>

datatype auth_mail_kind = VerifyEmail | ResetPassword | DeleteAccount

primrec kind_name :: "auth_mail_kind \<Rightarrow> string" where
  "kind_name VerifyEmail = ''verify-email''"
| "kind_name ResetPassword = ''reset-password''"
| "kind_name DeleteAccount = ''delete-account''"

primrec FRONTEND_PATHS :: "auth_mail_kind \<Rightarrow> string" where
  "FRONTEND_PATHS VerifyEmail = ''/verify-email''"
| "FRONTEND_PATHS ResetPassword = ''/reset''"
| "FRONTEND_PATHS DeleteAccount = ''/delete-account''"

definition digestAuthToken :: "(string \<Rightarrow> string) \<Rightarrow> string \<Rightarrow> string" where
  "digestAuthToken sha256Hex token = sha256Hex token"

text \<open>\<open>token_url base path token\<close> is the address with the token as its search parameter.\<close>

definition buildFrontendTokenUrl ::
  "(string \<Rightarrow> string \<Rightarrow> string \<Rightarrow> string) \<Rightarrow> string \<Rightarrow> auth_mail_kind \<Rightarrow> string \<Rightarrow> string"
where
  "buildFrontendTokenUrl token_url frontendBaseUrl kind token = token_url frontendBaseUrl (FRONTEND_PATHS kind) token"

definition authMailPayloadSchema :: "zod \<Rightarrow> schema" where
  "authMailPayloadSchema z =
     [(''kind'', False, is_str (\<lambda>s. s \<in> kind_name ` {VerifyEmail, ResetPassword, DeleteAccount})),
      (''to'', False, is_str (z_email z)), (''url'', False, is_str (z_url z)),
      (''tokenDigest'', False, is_str (\<lambda>s. length s = 64))]"

definition kind_of_name :: "string \<Rightarrow> auth_mail_kind option" where
  "kind_of_name s = find (\<lambda>k. kind_name k = s) [VerifyEmail, ResetPassword, DeleteAccount]"

primrec render :: "auth_mail_kind \<Rightarrow> string \<Rightarrow> rendered_message" where
  "render VerifyEmail url = verifyEmailMessage url"
| "render ResetPassword url = resetPasswordMessage url"
| "render DeleteAccount url = deleteAccountMessage url"

definition notification_of :: "string \<Rightarrow> rendered_message \<Rightarrow> string \<Rightarrow> outgoing_notification" where
  "notification_of to message key =
     \<lparr>on_to = to, on_subject = rm_subject message, on_text = rm_text message, on_html = None,
      on_idempotencyKey = Some key\<rparr>"

section \<open>Use cases and listeners\<close>

type_synonym 's sender = "outgoing_notification \<Rightarrow> ('s, unit) action"

definition SendAuthEmail_execute :: "'s sender \<Rightarrow> auth_mail_kind \<Rightarrow> string \<Rightarrow> string \<Rightarrow> string \<Rightarrow> ('s, unit) action" where
  "SendAuthEmail_execute sender kind to url key = sender (notification_of to (render kind url) key)"

definition SendInvitationEmail_execute ::
  "'s sender \<Rightarrow> (string \<Rightarrow> string \<Rightarrow> string \<Rightarrow> string) \<Rightarrow> string \<Rightarrow> string \<Rightarrow> string \<Rightarrow> string \<Rightarrow> date \<Rightarrow> string
     \<Rightarrow> ('s, unit) action"
where
  "SendInvitationEmail_execute sender token_url frontendBaseUrl to organizationName token expiresAt key =
     sender (notification_of to
       (invitationMessage organizationName (token_url frontendBaseUrl ''/invitations/accept'' token) expiresAt) key)"

definition SendWelcomeEmail_execute :: "'s sender \<Rightarrow> string \<Rightarrow> string \<Rightarrow> string \<Rightarrow> ('s, unit) action" where
  "SendWelcomeEmail_execute sender frontendBaseUrl email key =
     sender (notification_of email (welcomeMessage email frontendBaseUrl) key)"

definition SendAuthEmail_handle :: "zod \<Rightarrow> 's sender \<Rightarrow> js \<Rightarrow> ('s, unit) action" where
  "SendAuthEmail_handle z sender data s =
     (case z_object (authMailPayloadSchema z) data of
        Some (JsObj kvs) \<Rightarrow>
          (case kind_of_name (str_of (field kvs ''kind'')) of
             None \<Rightarrow> (Inl (validation VALIDATION_FAILED ''Auth mail payload did not match its schema.''), s)
           | Some kind \<Rightarrow>
               SendAuthEmail_execute sender kind (str_of (field kvs ''to'')) (str_of (field kvs ''url''))
                 (str_of (field kvs ''tokenDigest'')) s)
      | _ \<Rightarrow> (Inl (validation VALIDATION_FAILED ''Auth mail payload did not match its schema.''), s))"

definition invitationJobSchema :: "zod \<Rightarrow> schema" where
  "invitationJobSchema z =
     [(''email'', False, is_str (z_email z)), (''organizationId'', False, is_str (z_uuid7 z)),
      (''organizationName'', False, is_str nonempty), (''token'', False, is_str nonempty),
      (''expiresAt'', False, is_str (z_iso_datetime z))]"

definition SendInvitationEmail_handle ::
  "zod \<Rightarrow> 's sender \<Rightarrow> (string \<Rightarrow> string \<Rightarrow> string \<Rightarrow> string) \<Rightarrow> (string \<Rightarrow> string) \<Rightarrow> string \<Rightarrow> js \<Rightarrow> ('s, unit) action"
where
  "SendInvitationEmail_handle z sender token_url sha256Hex frontendBaseUrl data s =
     (case z_object (invitationJobSchema z) data of
        Some (JsObj kvs) \<Rightarrow>
          (let token = str_of (field kvs ''token'') in
           SendInvitationEmail_execute sender token_url frontendBaseUrl (str_of (field kvs ''email''))
             (str_of (field kvs ''organizationName'')) token
             (case date_parse (str_of (field kvs ''expiresAt'')) of Some t \<Rightarrow> t | None \<Rightarrow> 0)
             (sha256Hex token) s)
      | _ \<Rightarrow> (Inl (validation VALIDATION_FAILED ''Invitation mail payload did not match its schema.''), s))"

definition SendWelcomeEmail_handle :: "zod \<Rightarrow> 's sender \<Rightarrow> string \<Rightarrow> js \<Rightarrow> ('s, unit) action" where
  "SendWelcomeEmail_handle z sender frontendBaseUrl data s =
     (case parseIntegrationEvent z USER_EMAIL_VERIFIED data of
        None \<Rightarrow>
          (Inl (validation VALIDATION_FAILED ''users.email_verified payload did not match the published contract.''), s)
      | Some e \<Rightarrow>
          SendWelcomeEmail_execute sender frontendBaseUrl
            (case ie_payload e of JsObj kvs \<Rightarrow> str_of (field kvs ''email'') | _ \<Rightarrow> []) (ie_eventId e) s)"

section \<open>Contracts\<close>

interpretation ledger_prune: batch_delete "deleteSentBefore cutoff" "count_where (\<lambda>r. sn_sentAt r < cutoff)"
    "filter (\<lambda>r. \<not> sn_sentAt r < cutoff)" "unique_on sn_idempotencyKey" for cutoff
  by unfold_locales (simp_all add: deleteSentBefore_def delete_oldest_contract)

definition ledger_keys :: "ledger \<Rightarrow> string set" where
  "ledger_keys rows = sn_idempotencyKey ` set rows"

lemma claim_spec:
  "claim_notification now key ch rows = (claimed, rows') \<Longrightarrow>
     claimed = (key \<notin> ledger_keys rows) \<and> ledger_keys rows' = insert key (ledger_keys rows)
     \<and> (\<not> claimed \<longrightarrow> rows' = rows)"
  by (auto simp: claim_notification_def insert_skip_def ledger_keys_def split: if_splits)

lemma release_spec: "ledger_keys (release_notification key rows) = ledger_keys rows - {key}"
  by (auto simp: release_notification_def ledger_keys_def set_delete_where)

section \<open>Sending with a key\<close>

lemma MailerNotificationSender_forwards [simp]: "MailerNotificationSender_send mailer n m = mailer n m"
  by (cases n) (simp add: MailerNotificationSender_send_def)

lemma claim_release:
  assumes "key \<notin> ledger_keys rows" "claim_notification now key ch rows = (c, rows')"
  shows "c" "release_notification key rows' = rows"
  using assms
  by (auto simp: claim_notification_def insert_skip_def ledger_keys_def release_notification_def delete_where_def filter_id_conv
      split: if_splits)

lemma idempotent_skip:
  assumes "on_idempotencyKey n = Some key" "key \<in> ledger_keys rows"
  shows "IdempotentNotificationSender_send mailer rf now n (rows, m) = (Inr (), (rows, m))"
proof -
  obtain c rows' where "claim_notification now key ''email'' rows = (c, rows')" by fastforce
  with claim_spec [OF this] assms show ?thesis by (simp add: IdempotentNotificationSender_send_def)
qed

lemma idempotent_sent:
  assumes "on_idempotencyKey n = Some key" "key \<notin> ledger_keys rows" "mailer n m = (Inr u, m')"
  obtains rows' where "IdempotentNotificationSender_send mailer rf now n (rows, m) = (Inr (), (rows', m'))" "key \<in> ledger_keys rows'"
proof -
  obtain c rows' where claim: "claim_notification now key ''email'' rows = (c, rows')" by fastforce
  with claim_spec [OF claim] assms show ?thesis by (intro that [of rows']) (simp_all add: IdempotentNotificationSender_send_def)
qed

lemma idempotent_refused:
  assumes "on_idempotencyKey n = Some key" "key \<notin> ledger_keys rows" "mailer n m = (Inl e, m')"
  obtains rows' where "IdempotentNotificationSender_send mailer rf now n (rows, m) = (Inl e, (rows', m'))"
    "if rf then key \<in> ledger_keys rows' else rows' = rows"
proof -
  obtain c rows' where claim: "claim_notification now key ''email'' rows = (c, rows')" by fastforce
  with claim_spec [OF claim] claim_release [OF assms(2) claim] assms
  show ?thesis by (intro that [of "if rf then rows' else rows"]) (simp_all add: IdempotentNotificationSender_send_def)
qed

section \<open>Workers at once\<close>

text \<open>
  The statements of any number of workers, in any order. \<open>sending\<close> holds the notifications whose
  worker has the claim and is talking to the transport, \<open>delivered\<close> the ones the transport took, and
  \<open>dropped\<close> the ones whose worker died or could not release its claim.
\<close>

record mail_state =
  ms_ledger :: ledger
  ms_sending :: "outgoing_notification list"
  ms_delivered :: "outgoing_notification list"
  ms_dropped :: "outgoing_notification list"

inductive mail_step :: "mail_state \<Rightarrow> mail_state \<Rightarrow> bool" where
  claimed: "on_idempotencyKey (n :: outgoing_notification) = Some key \<Longrightarrow> claim_notification now key ''email'' (ms_ledger s) = (True, rows) \<Longrightarrow>
    mail_step s (s\<lparr>ms_ledger := rows, ms_sending := n # ms_sending s\<rparr>)"
| skipped: "on_idempotencyKey (n :: outgoing_notification) = Some key \<Longrightarrow> claim_notification now key ''email'' (ms_ledger s) = (False, rows) \<Longrightarrow>
    mail_step s (s\<lparr>ms_ledger := rows\<rparr>)"
| taken: "n \<in> set (ms_sending s) \<Longrightarrow>
    mail_step s (s\<lparr>ms_sending := remove1 n (ms_sending s), ms_delivered := n # ms_delivered s\<rparr>)"
| refused: "n \<in> set (ms_sending s) \<Longrightarrow> on_idempotencyKey n = Some key \<Longrightarrow>
    mail_step s (s\<lparr>ms_sending := remove1 n (ms_sending s), ms_ledger := release_notification key (ms_ledger s)\<rparr>)"
| stuck: "n \<in> set (ms_sending s) \<Longrightarrow>
    mail_step s (s\<lparr>ms_sending := remove1 n (ms_sending s), ms_dropped := n # ms_dropped s\<rparr>)"

definition with_key :: "string \<Rightarrow> outgoing_notification list \<Rightarrow> nat" where
  "with_key key ns = count_where (\<lambda>n. on_idempotencyKey n = Some key) ns"

definition mail_inv :: "mail_state \<Rightarrow> bool" where
  "mail_inv s \<longleftrightarrow> (\<forall>n \<in> set (ms_sending s). on_idempotencyKey n \<noteq> None) \<and>
     (\<forall>key. with_key key (ms_sending s) + with_key key (ms_delivered s) + with_key key (ms_dropped s)
        = (if key \<in> ledger_keys (ms_ledger s) then 1 else 0))"

lemma with_key_Cons: "with_key key (n # ns) = (if on_idempotencyKey n = Some key then Suc (with_key key ns) else with_key key ns)"
  by (simp add: with_key_def count_where_def)

lemma with_key_remove1:
  "n \<in> set ns \<Longrightarrow> with_key key ns = (if on_idempotencyKey n = Some key then Suc (with_key key (remove1 n ns)) else with_key key (remove1 n ns))"
  by (induction ns) (auto simp: with_key_Cons)

lemma mail_invI:
  assumes "\<And>n. n \<in> set (ms_sending s) \<Longrightarrow> on_idempotencyKey n \<noteq> None"
    and "\<And>key. with_key key (ms_sending s) + with_key key (ms_delivered s) + with_key key (ms_dropped s)
        = (if key \<in> ledger_keys (ms_ledger s) then 1 else 0)"
  shows "mail_inv s"
  using assms by (simp add: mail_inv_def)

lemma mail_tally: "mail_inv s \<Longrightarrow> with_key k (ms_sending s) + with_key k (ms_delivered s) + with_key k (ms_dropped s)
    = (if k \<in> ledger_keys (ms_ledger s) then 1 else 0)"
  by (simp add: mail_inv_def)

lemma mail_inv_step: "mail_step s s' \<Longrightarrow> mail_inv s \<Longrightarrow> mail_inv s'"
proof (induction rule: mail_step.induct)
  case (claimed n key now s rows)
  note c = claim_spec [OF claimed(2)]
  show ?case
  proof (rule mail_invI)
    show "on_idempotencyKey x \<noteq> None" if "x \<in> set (ms_sending (s\<lparr>ms_ledger := rows, ms_sending := n # ms_sending s\<rparr>))" for x
      using that claimed(1,3) by (auto simp: mail_inv_def)
  next
    fix k
    show "with_key k (ms_sending (s\<lparr>ms_ledger := rows, ms_sending := n # ms_sending s\<rparr>))
        + with_key k (ms_delivered (s\<lparr>ms_ledger := rows, ms_sending := n # ms_sending s\<rparr>))
        + with_key k (ms_dropped (s\<lparr>ms_ledger := rows, ms_sending := n # ms_sending s\<rparr>))
        = (if k \<in> ledger_keys (ms_ledger (s\<lparr>ms_ledger := rows, ms_sending := n # ms_sending s\<rparr>)) then 1 else 0)"
      using mail_tally [OF claimed(3), of k] c claimed(1) by (auto simp: with_key_Cons)
  qed
next
  case (skipped n key now s rows)
  then show ?case using claim_spec [OF skipped(2)] by simp
next
  case (taken n s)
  show ?case
  proof (rule mail_invI)
    fix k
    show "with_key k (ms_sending (s\<lparr>ms_sending := remove1 n (ms_sending s), ms_delivered := n # ms_delivered s\<rparr>))
        + with_key k (ms_delivered (s\<lparr>ms_sending := remove1 n (ms_sending s), ms_delivered := n # ms_delivered s\<rparr>))
        + with_key k (ms_dropped (s\<lparr>ms_sending := remove1 n (ms_sending s), ms_delivered := n # ms_delivered s\<rparr>))
        = (if k \<in> ledger_keys (ms_ledger (s\<lparr>ms_sending := remove1 n (ms_sending s), ms_delivered := n # ms_delivered s\<rparr>)) then 1 else 0)"
      using mail_tally [OF taken(2), of k] with_key_remove1 [OF taken(1), of k] by (auto simp: with_key_Cons split: if_splits)
  qed (use taken(2) set_remove1_subset [of n "ms_sending s"] in \<open>auto simp: mail_inv_def\<close>)
next
  case (refused n s key)
  have keys: "\<forall>m \<in> set (remove1 n (ms_sending s)). on_idempotencyKey m \<noteq> None"
    using refused(3) set_remove1_subset [of n "ms_sending s"] by (auto simp: mail_inv_def)
  have "with_key k (remove1 n (ms_sending s)) + with_key k (ms_delivered s) + with_key k (ms_dropped s)
      = (if k \<in> ledger_keys (ms_ledger s) - {key} then 1 else 0)" for k
    using mail_tally [OF refused(3), of k] refused(2) with_key_remove1 [OF refused(1), of k] by (auto split: if_splits)
  then show ?case using keys by (simp add: mail_inv_def release_spec)
next
  case (stuck n s)
  show ?case
  proof (rule mail_invI)
    fix k
    show "with_key k (ms_sending (s\<lparr>ms_sending := remove1 n (ms_sending s), ms_dropped := n # ms_dropped s\<rparr>))
        + with_key k (ms_delivered (s\<lparr>ms_sending := remove1 n (ms_sending s), ms_dropped := n # ms_dropped s\<rparr>))
        + with_key k (ms_dropped (s\<lparr>ms_sending := remove1 n (ms_sending s), ms_dropped := n # ms_dropped s\<rparr>))
        = (if k \<in> ledger_keys (ms_ledger (s\<lparr>ms_sending := remove1 n (ms_sending s), ms_dropped := n # ms_dropped s\<rparr>)) then 1 else 0)"
      using mail_tally [OF stuck(2), of k] with_key_remove1 [OF stuck(1), of k] by (auto simp: with_key_Cons split: if_splits)
  qed (use stuck(2) set_remove1_subset [of n "ms_sending s"] in \<open>auto simp: mail_inv_def\<close>)
qed

lemma mail_inv_run: "mail_step\<^sup>*\<^sup>* s s' \<Longrightarrow> mail_inv s \<Longrightarrow> mail_inv s'"
  by (induction rule: rtranclp_induct) (auto intro: mail_inv_step)

section \<open>Properties\<close>


definition sample_mail :: outgoing_notification where
  "sample_mail = notification_of ''ann@x.io'' (welcomeMessage ''ann@x.io'' ''https://x.io'') ''k''"


text \<open>
  Sending with a key, on every branch. A key that is already recorded is skipped and counts as a
  success, without touching the transport. Otherwise the transport is called once: if it takes the
  message the key is recorded and every later send with the key is skipped; if it refuses, its error
  is what the caller gets, and unless the release fails the ledger has exactly the rows it had, so
  that the retry calls the transport again.\<close>

theorem notification_send_outcomes:
  assumes key: "on_idempotencyKey n = Some key"
    and run: "IdempotentNotificationSender_send mailer releaseFails now n (rows, m) = (out, (rows', m'))"
  shows "if key \<in> ledger_keys rows then out = Inr () \<and> rows' = rows \<and> m' = m
    else mailer n m = (out, m')
      \<and> (case out of
           Inr _ \<Rightarrow> key \<in> ledger_keys rows'
              \<and> (\<forall>t rf n'. on_idempotencyKey n' = Some key \<longrightarrow> IdempotentNotificationSender_send mailer rf t n' (rows', m') = (Inr (), (rows', m')))
         | Inl e \<Rightarrow> if releaseFails then key \<in> ledger_keys rows' else rows' = rows)"
proof (cases "key \<in> ledger_keys rows")
  case True
  then show ?thesis using run by (auto simp: idempotent_skip [OF key True])
next
  case False
  obtain r m1 where mail: "mailer n m = (r, m1)" by fastforce
  show ?thesis
  proof (cases r)
    case (Inl e)
    obtain rows2 where "IdempotentNotificationSender_send mailer releaseFails now n (rows, m) = (Inl e, (rows2, m1))"
      "if releaseFails then key \<in> ledger_keys rows2 else rows2 = rows"
      using idempotent_refused [where mailer = mailer, OF key False mail [unfolded Inl]] .
    then show ?thesis using run False mail Inl by auto
  next
    case (Inr u)
    obtain rows2 where "IdempotentNotificationSender_send mailer releaseFails now n (rows, m) = (Inr (), (rows2, m1))"
      "key \<in> ledger_keys rows2" using idempotent_sent [where mailer = mailer, OF key False mail [unfolded Inr]] .
    then show ?thesis using run False mail Inr by (auto simp: idempotent_skip)
  qed
qed

theorem notification_send_outcomes_witness:
  "IdempotentNotificationSender_send (\<lambda>_ k. (Inl (PlainError ''421''), k + 1)) False 7 sample_mail ([], 0::nat)
     = (Inl (PlainError ''421''), ([], 1))"
proof -
  let ?m = "(\<lambda>_ k. (Inl (PlainError ''421''), k + 1)) :: nat mailer"
  obtain out rows' m' where run: "IdempotentNotificationSender_send ?m False 7 sample_mail ([], 0) = (out, (rows', m'))"
    by (metis prod_cases3)
  have key: "on_idempotencyKey sample_mail = Some ''k''" by (simp add: sample_mail_def notification_of_def)
  have none: "''k'' \<notin> ledger_keys []" by (simp add: ledger_keys_def)
  from notification_send_outcomes [OF key run] none have "(Inl (PlainError ''421''), 1) = (out, m')" and "case out of Inl e \<Rightarrow> rows' = [] | Inr _ \<Rightarrow> True"
    by (auto split: sum.splits)
  then show ?thesis using run by auto
qed

end
