(* ===== verification/Metrics.thy ===== *)
theory Metrics
  imports Outbox Http_Errors
begin

text \<open>
  Metrics and health (\<open>src/src/platform/observability\<close>, \<open>platform/queue/queue-metrics.source.ts\<close>,
  \<open>bootstrap/http/health\<close>, \<open>shared/util/with-timeout.ts\<close>): the collector of gauges that are read from
  shared state, its sources, the allow-list of addresses, the health indicators and the two endpoints.

  A promise is given by when it settles, in milliseconds from the call, and with what; one that never
  settles is \<open>None\<close>. The IP library and the health-check library are parameters.
\<close>

section \<open>Timeouts\<close>

type_synonym 'a promise = "(nat \<times> (failure + 'a)) option"

definition timeout_error :: "string \<Rightarrow> nat \<Rightarrow> failure" where
  "timeout_error label timeoutMs = PlainError (label @ '' did not settle within '' @ show_nat timeoutMs @ ''ms'')"

definition withTimeout :: "'a promise \<Rightarrow> nat \<Rightarrow> string \<Rightarrow> failure + 'a" where
  "withTimeout operation timeoutMs label =
     (case operation of
        Some (t, r) \<Rightarrow> if t < timeoutMs then r else Inl (timeout_error label timeoutMs)
      | None \<Rightarrow> Inl (timeout_error label timeoutMs))"

text \<open>The request timeout: an answer that comes too late is a 408, other errors pass.\<close>

definition RequestTimeout_intercept :: "nat \<Rightarrow> 'a promise \<Rightarrow> failure + 'a" where
  "RequestTimeout_intercept timeoutMs handled =
     (case handled of
        Some (t, r) \<Rightarrow> if t < timeoutMs then r else Inl (HttpFailure 408 ''The request took too long to complete.'')
      | None \<Rightarrow> Inl (HttpFailure 408 ''The request took too long to complete.''))"

section \<open>Readings and gauges\<close>

datatype metric =
    QueueDepth string
  | QueueDeadletterDepth string
  | QueueOldestJobAge string
  | OutboxUndrained
  | OutboxQuarantined

text \<open>A reading is a metric and a number; \<open>None\<close> is a number that is not finite.\<close>

type_synonym reading = "metric \<times> rat option"

type_synonym gauges = "metric \<rightharpoonup> rat"

definition applyReading :: "metric \<Rightarrow> rat \<Rightarrow> gauges \<Rightarrow> gauges" where
  "applyReading m v g = g(m \<mapsto> v)"

definition resetSharedStateGauges :: "gauges \<Rightarrow> gauges" where
  "resetSharedStateGauges g = Map.empty"

fun apply_readings :: "reading list \<Rightarrow> gauges \<Rightarrow> gauges" where
  "apply_readings [] g = g"
| "apply_readings ((m, None) # rs) g = apply_readings rs g"
| "apply_readings ((m, Some v) # rs) g = apply_readings rs (applyReading m v g)"

section \<open>The collector\<close>

record metrics_source =
  ms_name :: string
  ms_collect :: "reading list promise" \<comment> \<open>what the source answers when it is asked\<close>

record collector =
  mc_sources :: "string list"
  mc_cacheTtlMs :: int
  mc_timeoutMs :: nat
  mc_freshUntilMs :: int
  mc_inFlight :: "string list option" \<comment> \<open>the sources a running collection has asked\<close>
  mc_gauges :: gauges

definition new_collector :: "nat \<Rightarrow> nat option \<Rightarrow> collector" where
  "new_collector cacheTtlSeconds sharedStateTimeoutMs =
     \<lparr>mc_sources = [], mc_cacheTtlMs = int cacheTtlSeconds * 1000,
      mc_timeoutMs = (case sharedStateTimeoutMs of Some t \<Rightarrow> t | None \<Rightarrow> 1000),
      mc_freshUntilMs = 0, mc_inFlight = None, mc_gauges = Map.empty\<rparr>"

definition register_source :: "string \<Rightarrow> collector \<Rightarrow> collector" where
  "register_source s c = c\<lparr>mc_sources := mc_sources c @ [s], mc_freshUntilMs := 0\<rparr>"

datatype refresh_outcome = Fresh | Joined | Started

definition refresh :: "date \<Rightarrow> collector \<Rightarrow> refresh_outcome \<times> collector" where
  "refresh now c =
     (if now < mc_freshUntilMs c then (Fresh, c)
      else (case mc_inFlight c of
              Some _ \<Rightarrow> (Joined, c)
            | None \<Rightarrow> (Started, c\<lparr>mc_inFlight := Some (mc_sources c)\<rparr>)))"

definition collectOne :: "nat \<Rightarrow> metrics_source \<Rightarrow> reading list" where
  "collectOne timeoutMs source =
     (case withTimeout (ms_collect source) timeoutMs (ms_name source) of Inr rs \<Rightarrow> rs | Inl _ \<Rightarrow> [])"

text \<open>
  The end of \<open>collectAndApply\<close>: all sources that were asked have settled or timed out; \<open>answers\<close> gives what
  each answered.
\<close>

definition collectAndApply :: "date \<Rightarrow> (string \<Rightarrow> reading list promise) \<Rightarrow> collector \<Rightarrow> collector" where
  "collectAndApply now answers c =
     (case mc_inFlight c of
        None \<Rightarrow> c
      | Some asked \<Rightarrow>
          (let collected = map (\<lambda>s. collectOne (mc_timeoutMs c) \<lparr>ms_name = s, ms_collect = answers s\<rparr>) asked
           in c\<lparr>mc_gauges := apply_readings (concat collected) (resetSharedStateGauges (mc_gauges c)),
                mc_freshUntilMs := now + mc_cacheTtlMs c, mc_inFlight := None\<rparr>))"

section \<open>The queue source\<close>

record job_counts =
  jc_wait :: "nat option"
  jc_delayed :: "nat option"
  jc_failed :: "nat option"

definition zero_if_absent :: "nat option \<Rightarrow> nat" where
  "zero_if_absent n = (case n of Some k \<Rightarrow> k | None \<Rightarrow> 0)"

text \<open>\<open>oldest\<close> is the timestamp of the oldest waiting job, when there is one that has it.\<close>

definition readQueue :: "date \<Rightarrow> string \<Rightarrow> job_counts \<Rightarrow> date option \<Rightarrow> reading list" where
  "readQueue now name counts oldest =
     [(QueueDepth name, Some (of_nat (zero_if_absent (jc_wait counts) + zero_if_absent (jc_delayed counts)))),
      (QueueOldestJobAge name, Some (case oldest of None \<Rightarrow> 0 | Some t \<Rightarrow> max 0 (of_int (now - t) / 1000))),
      (QueueDeadletterDepth name, Some (of_nat (zero_if_absent (jc_failed counts))))]"

fun collect_queues :: "date \<Rightarrow> (string \<Rightarrow> failure + job_counts \<times> date option) \<Rightarrow> queue_definition list \<Rightarrow> failure + reading list" where
  "collect_queues now broker [] = Inr []"
| "collect_queues now broker (d # ds) =
     (case broker (QUEUES (qd_name d)) of
        Inl e \<Rightarrow> Inl e
      | Inr (counts, oldest) \<Rightarrow>
          (case collect_queues now broker ds of
             Inl e \<Rightarrow> Inl e
           | Inr rs \<Rightarrow> Inr (readQueue now (QUEUES (qd_name d)) counts oldest @ rs)))"

definition QueueMetrics_collectSharedState ::
  "date \<Rightarrow> (string \<Rightarrow> failure + job_counts \<times> date option) \<Rightarrow> failure + reading list"
where
  "QueueMetrics_collectSharedState now broker = collect_queues now broker QUEUE_DEFINITIONS"

section \<open>The allow-list\<close>

record 'ip ip_library =
  ip_isValid :: "string \<Rightarrow> bool"
  ip_parse :: "string \<Rightarrow> 'ip"
  ip_kind :: "'ip \<Rightarrow> string"
  ip_isIPv4Mapped :: "'ip \<Rightarrow> bool"
  ip_toIPv4 :: "'ip \<Rightarrow> 'ip"
  ip_match :: "'ip \<Rightarrow> 'ip \<Rightarrow> nat \<Rightarrow> bool"
  ip_parseCIDR :: "string \<Rightarrow> ('ip \<times> nat) option"

fun parseCidrAllowList :: "'ip ip_library \<Rightarrow> string list \<Rightarrow> failure + ('ip \<times> nat) list" where
  "parseCidrAllowList lib [] = Inr []"
| "parseCidrAllowList lib (entry # entries) =
     (case ip_parseCIDR lib (trim entry) of
        None \<Rightarrow> Inl (PlainError (''Metrics allow-list entry is not a valid CIDR: '' @ [CHR 0x22] @ entry @ [CHR 0x22]))
      | Some net \<Rightarrow>
          (case parseCidrAllowList lib entries of Inl e \<Rightarrow> Inl e | Inr nets \<Rightarrow> Inr (net # nets)))"

definition parseRemoteAddress :: "'ip ip_library \<Rightarrow> string option \<Rightarrow> 'ip option" where
  "parseRemoteAddress lib value =
     (case value of
        None \<Rightarrow> None
      | Some v \<Rightarrow>
          if v = [] then None
          else
            (let address = hd (split_on (\<lambda>c. c = CHR ''%'') v) in
             if \<not> ip_isValid lib address then None
             else
               (let parsed = ip_parse lib address
                in Some (if ip_kind lib parsed = ''ipv6'' \<and> ip_isIPv4Mapped lib parsed then ip_toIPv4 lib parsed else parsed))))"

definition matches :: "'ip ip_library \<Rightarrow> 'ip \<Rightarrow> 'ip \<times> nat \<Rightarrow> bool" where
  "matches lib address net \<longleftrightarrow> ip_kind lib address = ip_kind lib (fst net) \<and> ip_match lib address (fst net) (snd net)"

definition isAddressAllowed :: "'ip ip_library \<Rightarrow> string option \<Rightarrow> ('ip \<times> nat) list \<Rightarrow> bool" where
  "isAddressAllowed lib remoteAddress allowList =
     (if allowList = [] then False
      else (case parseRemoteAddress lib remoteAddress of
              None \<Rightarrow> False
            | Some address \<Rightarrow> list_ex (matches lib address) allowList))"

definition MetricsIpGuard_canActivate :: "'ip ip_library \<Rightarrow> ('ip \<times> nat) list \<Rightarrow> string option \<Rightarrow> bool" where
  "MetricsIpGuard_canActivate lib allowList remoteAddress = isAddressAllowed lib remoteAddress allowList"

text \<open>
  A scrape: the guard, then the refresh. \<open>answers\<close> is what the sources answer to the collection this scrape
  starts or joins, which ends at \<open>finish\<close>.
\<close>

definition MetricsController_scrape ::
  "'ip ip_library \<Rightarrow> ('ip \<times> nat) list \<Rightarrow> string option \<Rightarrow> date \<Rightarrow> date \<Rightarrow> (string \<Rightarrow> reading list promise)
     \<Rightarrow> (collector, gauges) action"
where
  "MetricsController_scrape lib allowList remoteAddress now finish answers c =
     (if \<not> MetricsIpGuard_canActivate lib allowList remoteAddress then (Inl (HttpFailure 403 ''Forbidden resource''), c)
      else
        (let (outcome, c1) = refresh now c;
             c2 = (if outcome = Fresh then c1 else collectAndApply finish answers c1)
         in (Inr (mc_gauges c2), c2)))"

section \<open>Health\<close>

definition PROBE_TIMEOUT_MS :: nat where "PROBE_TIMEOUT_MS = 2000"

datatype indicator = IndicatorUp | IndicatorDown string

datatype readiness_check = CheckPostgres | CheckRedis | CheckQueue

primrec check_name :: "readiness_check \<Rightarrow> string" where
  "check_name CheckPostgres = ''postgres''"
| "check_name CheckRedis = ''redis''"
| "check_name CheckQueue = ''queue''"

definition API_READINESS :: "readiness_check list" where "API_READINESS = [CheckPostgres, CheckRedis]"

definition WORKER_READINESS :: "readiness_check list" where "WORKER_READINESS = [CheckPostgres, CheckQueue]"

definition SCHEDULER_READINESS :: "readiness_check list" where "SCHEDULER_READINESS = [CheckPostgres, CheckQueue]"

text \<open>
  The dependencies as a probe finds them; a service that the role does not have is \<open>None\<close>. \<open>errorName\<close> is the
  name of an error object.
\<close>

record probes =
  pr_select :: "unit promise"
  pr_redisPing :: "bool promise option"
  pr_queuePing :: "bool promise option"

definition HealthIndicators_postgres :: "(failure \<Rightarrow> string) \<Rightarrow> probes \<Rightarrow> indicator" where
  "HealthIndicators_postgres errorName p =
     (case withTimeout (pr_select p) PROBE_TIMEOUT_MS ''postgres'' of
        Inr _ \<Rightarrow> IndicatorUp
      | Inl e \<Rightarrow> IndicatorDown (errorName e))"

definition HealthIndicators_redisReachable :: "(failure \<Rightarrow> string) \<Rightarrow> probes \<Rightarrow> indicator" where
  "HealthIndicators_redisReachable errorName p =
     (case pr_redisPing p of
        None \<Rightarrow> IndicatorDown ''redis is not configured for this role''
      | Some ping \<Rightarrow>
          (case withTimeout ping PROBE_TIMEOUT_MS ''redis'' of
             Inr pong \<Rightarrow> if pong then IndicatorUp else IndicatorDown ''unexpected ping response''
           | Inl e \<Rightarrow> IndicatorDown (errorName e)))"

definition HealthIndicators_queueStarted :: "(failure \<Rightarrow> string) \<Rightarrow> probes \<Rightarrow> indicator" where
  "HealthIndicators_queueStarted errorName p =
     (case pr_queuePing p of
        None \<Rightarrow> IndicatorDown ''queue is not configured for this role''
      | Some ping \<Rightarrow>
          (case withTimeout ping PROBE_TIMEOUT_MS ''queue'' of
             Inr reachable \<Rightarrow> if reachable then IndicatorUp else IndicatorDown ''BullMQ Redis is unavailable''
           | Inl e \<Rightarrow> IndicatorDown (errorName e)))"

primrec run_check :: "(failure \<Rightarrow> string) \<Rightarrow> probes \<Rightarrow> readiness_check \<Rightarrow> indicator" where
  "run_check errorName p CheckPostgres = HealthIndicators_postgres errorName p"
| "run_check errorName p CheckRedis = HealthIndicators_redisReachable errorName p"
| "run_check errorName p CheckQueue = HealthIndicators_queueStarted errorName p"

definition HealthController_live :: string where "HealthController_live = ''ok''"

definition HealthController_ready ::
  "((string \<times> indicator) list \<Rightarrow> thrown + unit) \<Rightarrow> (failure \<Rightarrow> string) \<Rightarrow> readiness_check list \<Rightarrow> probes \<Rightarrow> thrown + unit"
where
  "HealthController_ready check errorName checks p = check (map (\<lambda>c. (check_name c, run_check errorName p c)) checks)"

definition HealthController_dependencies ::
  "'ip ip_library \<Rightarrow> ('ip \<times> nat) list \<Rightarrow> string option \<Rightarrow> ((string \<times> indicator) list \<Rightarrow> thrown + unit) \<Rightarrow> (failure \<Rightarrow> string)
     \<Rightarrow> probes \<Rightarrow> thrown + unit"
where
  "HealthController_dependencies lib allowList remoteAddress check errorName p =
     (if \<not> MetricsIpGuard_canActivate lib allowList remoteAddress
      then Inl (thrown_of (HttpFailure 403 ''Forbidden resource''))
      else HealthController_ready check errorName [CheckPostgres, CheckRedis, CheckQueue] p)"

section \<open>The HTTP metrics interceptor\<close>

record http_metrics =
  hm_inFlight :: int
  hm_observed :: "(string \<times> string \<times> string \<times> rat) list" \<comment> \<open>method, route, status, seconds\<close>

definition http_started :: "http_metrics \<Rightarrow> http_metrics" where
  "http_started m = m\<lparr>hm_inFlight := hm_inFlight m + 1\<rparr>"

definition http_finalized :: "string \<Rightarrow> string option \<Rightarrow> nat \<Rightarrow> nat \<Rightarrow> http_metrics \<Rightarrow> http_metrics" where
  "http_finalized method route statusCode elapsedNs m =
     m\<lparr>hm_inFlight := hm_inFlight m - 1,
       hm_observed := hm_observed m @
         [(method, case route of Some r \<Rightarrow> r | None \<Rightarrow> ''unknown'', show_nat statusCode, of_nat elapsedNs / 1000000 / 1000)]\<rparr>"

section \<open>What a collection leaves in the gauges\<close>

definition finite_readings :: "reading list \<Rightarrow> (metric \<times> rat) list" where
  "finite_readings rs = concat (map (\<lambda>(m, v). case v of Some x \<Rightarrow> [(m, x)] | None \<Rightarrow> []) rs)"

definition healthy :: "nat \<Rightarrow> reading list promise \<Rightarrow> reading list" where
  "healthy timeoutMs answer = (case answer of Some (t, Inr rs) \<Rightarrow> if t < timeoutMs then rs else [] | _ \<Rightarrow> [])"

lemma apply_readings_lookup:
  "apply_readings rs g m = (case map_of (rev (finite_readings rs)) m of Some v \<Rightarrow> Some v | None \<Rightarrow> g m)"
  by (induction rs g rule: apply_readings.induct)
    (auto simp: finite_readings_def applyReading_def map_add_def fun_upd_def split: option.splits)

lemma collectOne_healthy: "collectOne t \<lparr>ms_name = s, ms_collect = a\<rparr> = healthy t a"
  by (auto simp: collectOne_def healthy_def withTimeout_def split: option.splits sum.splits)

text \<open>What can happen to the collector while a collection runs: scrapes and registrations.\<close>

inductive meanwhile :: "collector \<Rightarrow> collector \<Rightarrow> bool" where
  stay: "meanwhile c c"
| scrape: "meanwhile c d \<Longrightarrow> meanwhile c (snd (refresh now d))"
| registration: "meanwhile c d \<Longrightarrow> meanwhile c (register_source s d)"

lemma meanwhile_keeps:
  assumes "meanwhile c d" "mc_inFlight c = Some asked"
  shows "mc_inFlight d = Some asked \<and> mc_cacheTtlMs d = mc_cacheTtlMs c \<and> mc_timeoutMs d = mc_timeoutMs c
    \<and> (\<exists>new. mc_sources d = mc_sources c @ new)"
  using assms
  by (induction rule: meanwhile.induct) (auto simp: refresh_def register_source_def)

text \<open>
  C17: a collection of shared-state gauges is shared, isolated from failures and cached. While one runs, no
  scrape starts another, whatever is scraped or registered meanwhile. When it ends, the gauges are exactly
  the last finite readings of the sources that were registered when it started and that answered in time:
  a source that fails or is late removes only its own gauges, and nothing of an earlier collection is
  left. Until the cache expires every scrape is answered from these gauges, and the first one after that
  starts the next collection.\<close>

theorem shared_state_collection:
  assumes "refresh now c = (Started, c1)" "meanwhile c1 c2" and "c3 = collectAndApply finish answers c2"
  shows "(\<forall>t. fst (refresh t c2) \<noteq> Started)
    \<and> (\<forall>m. mc_gauges c3 m
          = map_of (rev (finite_readings (concat (map (\<lambda>s. healthy (mc_timeoutMs c) (answers s)) (mc_sources c))))) m)
    \<and> (\<forall>t. t < finish + mc_cacheTtlMs c \<longrightarrow> refresh t c3 = (Fresh, c3))
    \<and> (\<forall>t. finish + mc_cacheTtlMs c \<le> t \<longrightarrow> fst (refresh t c3) = Started)"
proof -
  have c1: "mc_inFlight c1 = Some (mc_sources c)" "mc_cacheTtlMs c1 = mc_cacheTtlMs c" "mc_timeoutMs c1 = mc_timeoutMs c"
    using assms(1) by (auto simp: refresh_def split: if_splits option.splits)
  note c2 = meanwhile_keeps [OF assms(2) c1(1)]
  have "mc_gauges c3 m = map_of (rev (finite_readings (concat (map (\<lambda>s. healthy (mc_timeoutMs c) (answers s)) (mc_sources c))))) m" for m
    using c1 c2 by (simp add: assms(3) collectAndApply_def collectOne_healthy apply_readings_lookup resetSharedStateGauges_def
        split: option.splits)
  then show ?thesis using c1 c2 by (auto simp: assms(3) collectAndApply_def refresh_def Let_def split: option.splits)
qed

theorem shared_state_collection_witness:
  "let c = register_source ''b'' (register_source ''a'' (new_collector 10 None));
       answers = (\<lambda>s. if s = ''a'' then Some (5, Inr [(OutboxUndrained, Some 3)]) else None);
       c3 = collectAndApply 20 answers (snd (refresh 1 c))
   in mc_gauges c3 OutboxUndrained = Some 3 \<and> refresh 30 c3 = (Fresh, c3)"
proof -
  define c where "c = register_source ''b'' (register_source ''a'' (new_collector 10 None))"
  define answers where "answers = (\<lambda>s. if s = ''a'' then Some (5 :: nat, Inr [(OutboxUndrained, Some (3 :: rat))] :: failure + reading list) else None)"
  have "refresh 1 c = (Started, snd (refresh 1 c))"
    by (simp add: c_def refresh_def register_source_def new_collector_def)
  from shared_state_collection [OF this meanwhile.stay refl, of 20 answers]
  show ?thesis
    by (simp add: c_def [symmetric] answers_def [symmetric] Let_def)
      (simp add: c_def answers_def register_source_def new_collector_def healthy_def finite_readings_def)
qed

section \<open>Readiness as the client sees it\<close>

text \<open>
  What the health library documents: when every indicator is up it returns, otherwise it throws a service
  unavailable exception whose body lists each indicator under \<open>details\<close>.
\<close>

definition indicator_js :: "string \<times> indicator \<Rightarrow> string \<times> js" where
  "indicator_js r =
     (fst r, case snd r of
               IndicatorUp \<Rightarrow> JsObj [(''status'', JsStr ''up'')]
             | IndicatorDown reason \<Rightarrow> JsObj [(''status'', JsStr ''down''), (''reason'', JsStr reason)])"

definition health_contract :: "((string \<times> indicator) list \<Rightarrow> thrown + unit) \<Rightarrow> bool" where
  "health_contract check \<longleftrightarrow>
     (\<forall>rs. (\<forall>r \<in> set rs. snd r = IndicatorUp) \<longrightarrow> check rs = Inr ())
     \<and> (\<forall>rs. (\<exists>r \<in> set rs. snd r \<noteq> IndicatorUp) \<longrightarrow>
          (\<exists>up down message. check rs = Inl (HttpThrown 503
             (JsObj [(''status'', JsStr ''error''), (''info'', up), (''error'', down), (''details'', JsObj (map indicator_js rs))]) message)))"

text \<open>Whether a dependency answers within two seconds.\<close>

definition in_time :: "('a \<Rightarrow> bool) \<Rightarrow> 'a promise \<Rightarrow> bool" where
  "in_time ok p = (case p of Some (t, Inr v) \<Rightarrow> t < 2000 \<and> ok v | _ \<Rightarrow> False)"

primrec reachable :: "probes \<Rightarrow> readiness_check \<Rightarrow> bool" where
  "reachable p CheckPostgres = in_time (\<lambda>_. True) (pr_select p)"
| "reachable p CheckRedis = (case pr_redisPing p of Some ping \<Rightarrow> in_time id ping | None \<Rightarrow> False)"
| "reachable p CheckQueue = (case pr_queuePing p of Some ping \<Rightarrow> in_time id ping | None \<Rightarrow> False)"

lemma run_check_up: "run_check errorName p c = IndicatorUp \<longleftrightarrow> reachable p c"
  by (cases c)
    (auto simp: HealthIndicators_postgres_def HealthIndicators_redisReachable_def HealthIndicators_queueStarted_def withTimeout_def
      in_time_def PROBE_TIMEOUT_MS_def split: option.splits sum.splits)

lemma readState_indicator: "readState (snd (indicator_js (n, i))) = (if i = IndicatorUp then Up else Down)"
  by (cases i) (simp_all add: readState_def string_prop_def property_of_def indicator_js_def)

lemma details_read:
  assumes "cs \<noteq> []" "length cs \<le> 20"
  shows "readDependencyChecks (JsObj [(''status'', x), (''info'', up), (''error'', down), (''details'', JsObj (map indicator_js
       (map (\<lambda>c. (check_name c, run_check errorName p c)) cs)))])
     = Some (map (\<lambda>c. \<lparr>dc_name = check_name c, dc_status = (if reachable p c then Up else Down)\<rparr>) cs)"
proof -
  have "(\<lambda>(k, v). \<lparr>dc_name = k, dc_status = readState v\<rparr>) (indicator_js (check_name c, run_check errorName p c))
      = \<lparr>dc_name = check_name c, dc_status = (if reachable p c then Up else Down)\<rparr>" for c
    using readState_indicator [of "check_name c" "run_check errorName p c"]
    by (simp add: split_beta run_check_up) (simp add: indicator_js_def)
  then show ?thesis
    using assms by (simp add: readDependencyChecks_def property_of_def unless_empty_def MAX_CHECKS_def comp_def)
qed

text \<open>
  Readiness is the truth about the dependencies, and tells no more. The endpoint succeeds exactly when
  every dependency the role checks answers within two seconds. Otherwise the client gets a 503 problem
  that asks it to retry after 5 seconds and names each checked dependency as up or down; why a dependency
  is down does not appear, since the answer depends only on which ones answered.\<close>

theorem readiness_reported:
  assumes "health_contract check" "cs \<noteq> []" "length cs \<le> 20"
  shows "((\<forall>c \<in> set cs. reachable p c) \<longrightarrow> HealthController_ready check errorName cs p = Inr ())
    \<and> ((\<exists>c \<in> set cs. \<not> reachable p c) \<longrightarrow>
         (\<exists>e. HealthController_ready check errorName cs p = Inl e
            \<and> catch_exception phrases vi newId now r None e
              = \<lparr>reply_status = 503, reply_contentType = ''application/problem+json'', reply_retryAfter = Some ''5'',
                 reply_body = Problem (buildProblemDetails phrases now 503 ''service_unavailable''
                   ''The service is temporarily unable to handle the request.'' (instancePath (rq_url r))
                   (ids_requestId (fst (ensureRequestIds newId False r))) None
                   (Some (map (\<lambda>c. \<lparr>dc_name = check_name c, dc_status = (if reachable p c then Up else Down)\<rparr>) cs))),
                 reply_logged = True\<rparr>))"
proof (intro conjI impI)
  assume "\<forall>c \<in> set cs. reachable p c"
  then show "HealthController_ready check errorName cs p = Inr ()"
    using assms(1) by (simp add: HealthController_ready_def health_contract_def run_check_up)
next
  let ?rs = "map (\<lambda>c. (check_name c, run_check errorName p c)) cs"
  assume "\<exists>c \<in> set cs. \<not> reachable p c"
  then have "\<exists>r \<in> set ?rs. snd r \<noteq> IndicatorUp" by (simp add: run_check_up)
  then obtain up down message where down: "check ?rs = Inl (HttpThrown 503
      (JsObj [(''status'', JsStr ''error''), (''info'', up), (''error'', down), (''details'', JsObj (map indicator_js ?rs))]) message)"
    using assms(1) unfolding health_contract_def by meson
  show "\<exists>e. HealthController_ready check errorName cs p = Inl e
            \<and> catch_exception phrases vi newId now r None e
              = \<lparr>reply_status = 503, reply_contentType = ''application/problem+json'', reply_retryAfter = Some ''5'',
                 reply_body = Problem (buildProblemDetails phrases now 503 ''service_unavailable''
                   ''The service is temporarily unable to handle the request.'' (instancePath (rq_url r))
                   (ids_requestId (fst (ensureRequestIds newId False r))) None
                   (Some (map (\<lambda>c. \<lparr>dc_name = check_name c, dc_status = (if reachable p c then Up else Down)\<rparr>) cs))),
                 reply_logged = True\<rparr>"
    using down details_read [OF assms(2,3), of "JsStr ''error''" up down errorName p]
    by (simp add: HealthController_ready_def catch_exception_def toProblem_def asProblemDetails_def fromHttpException_def
        genericServerError_def problem_status_def retryAfterSecondsFor_def show_seconds Let_def buildProblemDetails_def)
qed

definition sample_health :: "(string \<times> indicator) list \<Rightarrow> thrown + unit" where
  "sample_health rs =
     (if list_all (\<lambda>r. snd r = IndicatorUp) rs then Inr ()
      else Inl (HttpThrown 503 (JsObj [(''status'', JsStr ''error''), (''info'', JsNull), (''error'', JsNull),
                 (''details'', JsObj (map indicator_js rs))]) ''Service Unavailable Exception''))"

theorem readiness_reported_witness:
  "\<exists>e. HealthController_ready sample_health (\<lambda>_. ''Error'') API_READINESS
        \<lparr>pr_select = Some (3, Inr ()), pr_redisPing = Some None, pr_queuePing = None\<rparr> = Inl e
     \<and> reply_status (catch_exception (\<lambda>_. None) (\<lambda>_. None) ''i'' 0
          \<lparr>rq_headers = (\<lambda>_. NoHeader), rq_url = ''/'', rq_ip = [], rq_ids = None, rq_authSession = None, rq_tenantContext = None\<rparr>
          None e) = 503"
proof -
  let ?p = "\<lparr>pr_select = Some (3, Inr ()), pr_redisPing = Some None, pr_queuePing = None\<rparr>"
  let ?r = "\<lparr>rq_headers = (\<lambda>_. NoHeader), rq_url = ''/'', rq_ip = [], rq_ids = None, rq_authSession = None, rq_tenantContext = None\<rparr>"
  have contract: "health_contract sample_health" by (auto simp: health_contract_def sample_health_def list_all_iff)
  have down: "\<exists>c \<in> set API_READINESS. \<not> reachable ?p c" by (simp add: API_READINESS_def in_time_def)
  have checks: "API_READINESS \<noteq> []" "length API_READINESS \<le> 20" by (simp_all add: API_READINESS_def)
  note reported = readiness_reported [OF contract checks, where p = ?p and errorName = "\<lambda>_. ''Error''" and phrases = "\<lambda>_. None"
      and vi = "\<lambda>_. None" and newId = "''i''" and now = 0 and r = ?r, THEN conjunct2, THEN mp, OF down]
  then obtain e where "HealthController_ready sample_health (\<lambda>_. ''Error'') API_READINESS ?p = Inl e"
    "reply_status (catch_exception (\<lambda>_. None) (\<lambda>_. None) ''i'' 0 ?r None e) = 503"
    by (elim exE conjE) simp
  then show ?thesis by blast
qed

end
