(* ===== verification/Auth_Gateway.thy ===== *)
theory Auth_Gateway
  imports Notifications Metrics
begin

text \<open>
  The authentication surface: the routes that hand requests to Better Auth
  (\<open>src/src/bootstrap/fastify/auth-routes.ts\<close>) with the limiter per account
  (\<open>auth-account-rate-limit.ts\<close>), the mail callbacks of \<open>platform/auth/better-auth.factory.ts\<close> and
  \<open>auth.service.ts\<close>, the SMTP adapter, and the retention of sessions and verifications
  (\<open>auth-retention.service.ts\<close>).

  Better Auth's request handler, the rate limiter of the account bucket, SHA-256, \<open>JSON.parse\<close> and the
  mail transport are parameters.
\<close>

section \<open>Requests\<close>

datatype raw_body = NoBody | BodyBuffer string | BodyString string | BodyValue js

record auth_http_request = http_request +
  hr_method :: string
  hr_routeUrl :: "string option"
  hr_headerList :: "(string \<times> header_value) list"
  hr_body :: raw_body

section \<open>The limiter per account\<close>

definition KEY_PREFIX :: string where "KEY_PREFIX = ''auth:account''"

record limiter_options =
  lo_keyPrefix :: string
  lo_points :: nat
  lo_durationSeconds :: nat

definition limiter_config :: "nat \<Rightarrow> nat \<Rightarrow> limiter_options" where
  "limiter_config max_attempts timeWindowMs =
     \<lparr>lo_keyPrefix = KEY_PREFIX, lo_points = max_attempts, lo_durationSeconds = (timeWindowMs + 999) div 1000\<rparr>"

text \<open>The limiter rejects with the time until the next attempt, or fails.\<close>

datatype limiter_rejection = RateLimiterRes nat | LimiterFailure

type_synonym 'l limiter = "string \<Rightarrow> 'l \<Rightarrow> (limiter_rejection + unit) \<times> 'l"

definition isRateLimiterRes :: "limiter_rejection \<Rightarrow> bool" where
  "isRateLimiterRes r = (case r of RateLimiterRes _ \<Rightarrow> True | LimiterFailure \<Rightarrow> False)"

text \<open>\<open>typeof value === 'object' && value !== null\<close>: objects and arrays.\<close>

definition as_object :: "js \<Rightarrow> js option" where
  "as_object v = (case v of JsObj _ \<Rightarrow> Some v | JsArr _ \<Rightarrow> Some v | _ \<Rightarrow> None)"

definition parseJson :: "(string \<Rightarrow> js option) \<Rightarrow> string \<Rightarrow> js option" where
  "parseJson json source = (case json source of Some v \<Rightarrow> as_object v | None \<Rightarrow> None)"

definition parseBody :: "(string \<Rightarrow> js option) \<Rightarrow> raw_body \<Rightarrow> js option" where
  "parseBody json body =
     (case body of
        BodyBuffer s \<Rightarrow> parseJson json s
      | BodyString s \<Rightarrow> parseJson json s
      | BodyValue v \<Rightarrow> as_object v
      | NoBody \<Rightarrow> None)"

definition readEmail :: "(string \<Rightarrow> js option) \<Rightarrow> raw_body \<Rightarrow> string option" where
  "readEmail json body =
     (case parseBody json body of
        None \<Rightarrow> None
      | Some parsed \<Rightarrow>
          (case property_of parsed ''email'' of
             Some (JsStr email) \<Rightarrow> if 0 < length email then Some email else None
           | _ \<Rightarrow> None))"

definition hashEmail :: "(string \<Rightarrow> string) \<Rightarrow> string \<Rightarrow> string" where
  "hashEmail sha email = sha (toLowerCase (trim email))"

record fastify_reply =
  fr_status :: nat
  fr_headers :: "(string \<times> string) list"
  fr_problem :: "problem_details option"
  fr_body :: "nat list option"

definition replyTooManyRequests ::
  "(nat \<rightharpoonup> string) \<Rightarrow> string \<Rightarrow> date \<Rightarrow> auth_http_request \<Rightarrow> nat \<Rightarrow> fastify_reply"
where
  "replyTooManyRequests phrases newId now r msBeforeNext =
     (let retryAfterSeconds = max 1 ((msBeforeNext + 999) div 1000)
      in \<lparr>fr_status = 429,
          fr_headers = [(''content-type'', ''application/problem+json''), (''retry-after'', show_nat retryAfterSeconds)],
          fr_problem = Some (buildProblemDetails phrases now 429 (wire_code RATE_LIMITED)
            (''Too many attempts for this account. Retry in '' @ show_nat retryAfterSeconds @ '' seconds.'')
            (instancePath (rq_url r)) (ids_requestId (fst (ensureRequestIds newId False (http_request.truncate r)))) None None),
          fr_body = None\<rparr>)"

text \<open>The hook: \<open>None\<close> lets the request through to the handler.\<close>

definition account_rate_limit ::
  "(string \<Rightarrow> string) \<Rightarrow> (string \<Rightarrow> js option) \<Rightarrow> (nat \<rightharpoonup> string) \<Rightarrow> 'l limiter \<Rightarrow> string list \<Rightarrow> string \<Rightarrow> date
     \<Rightarrow> auth_http_request \<Rightarrow> 'l \<Rightarrow> fastify_reply option \<times> 'l"
where
  "account_rate_limit sha json phrases consume credentialPaths newId now r l =
     (if (case hr_routeUrl r of Some u \<Rightarrow> u | None \<Rightarrow> []) \<notin> set credentialPaths then (None, l)
      else
        (case readEmail json (hr_body r) of
           None \<Rightarrow> (None, l)
         | Some email \<Rightarrow>
             (case consume (hashEmail sha email) l of
                (Inr _, l') \<Rightarrow> (None, l')
              | (Inl LimiterFailure, l') \<Rightarrow> (None, l')
              | (Inl (RateLimiterRes ms), l') \<Rightarrow> (Some (replyTooManyRequests phrases newId now r ms), l'))))"

section \<open>The routes\<close>

definition CREDENTIAL_PATHS :: "string list" where
  "CREDENTIAL_PATHS =
     [''/sign-in/email'', ''/sign-up/email'', ''/request-password-reset'', ''/reset-password'', ''/change-password'',
      ''/verify-password'', ''/change-email'', ''/send-verification-email'', ''/delete-user'']"

definition METHODS_WITHOUT_BODY :: "string list" where "METHODS_WITHOUT_BODY = [''GET'', ''HEAD'']"

datatype web_body = WebBytes string | WebString string | WebJson js

record web_request =
  wr_url :: string
  wr_method :: string
  wr_headers :: "(string \<times> string) list"
  wr_body :: "web_body option"

definition toBody :: "auth_http_request \<Rightarrow> web_body option" where
  "toBody r =
     (if hr_method r \<in> set METHODS_WITHOUT_BODY then None
      else (case hr_body r of
              NoBody \<Rightarrow> None
            | BodyBuffer s \<Rightarrow> Some (WebBytes s)
            | BodyString s \<Rightarrow> Some (WebString s)
            | BodyValue v \<Rightarrow> if v = JsNull then None else Some (WebJson v)))"

definition web_headers :: "(string \<times> header_value) list \<Rightarrow> (string \<times> string) list" where
  "web_headers hs =
     concat (map (\<lambda>(name, v). case v of
                                NoHeader \<Rightarrow> []
                              | Header s \<Rightarrow> [(name, s)]
                              | Headers ss \<Rightarrow> map (Pair name) ss) hs)"

definition toWebRequest :: "(string \<Rightarrow> string \<Rightarrow> string) \<Rightarrow> string \<Rightarrow> auth_http_request \<Rightarrow> web_request" where
  "toWebRequest new_URL baseUrl r =
     \<lparr>wr_url = new_URL (rq_url r) baseUrl, wr_method = hr_method r, wr_headers = web_headers (hr_headerList r), wr_body = toBody r\<rparr>"

record web_response =
  ws_status :: nat
  ws_headers :: "(string \<times> string) list" \<comment> \<open>with each cookie as its own entry\<close>
  ws_body :: "nat list"

definition getSetCookie :: "web_response \<Rightarrow> string list" where
  "getSetCookie resp = map snd (filter (\<lambda>(k, _). k = ''set-cookie'') (ws_headers resp))"

definition auth_handler ::
  "(web_request \<Rightarrow> web_response promise) \<Rightarrow> (string \<Rightarrow> string \<Rightarrow> string) \<Rightarrow> string \<Rightarrow> nat \<Rightarrow> auth_http_request \<Rightarrow> failure + fastify_reply"
where
  "auth_handler handleWebRequest new_URL baseUrl timeoutMs r =
     (case withTimeout (handleWebRequest (toWebRequest new_URL baseUrl r)) timeoutMs ''auth'' of
        Inl e \<Rightarrow> Inl e
      | Inr resp \<Rightarrow>
          Inr \<lparr>fr_status = ws_status resp,
               fr_headers = map (Pair ''set-cookie'') (getSetCookie resp)
                 @ filter (\<lambda>(k, _). toLowerCase k \<noteq> ''set-cookie'') (ws_headers resp),
               fr_problem = None,
               fr_body = (if ws_body resp = [] then None else Some (ws_body resp))\<rparr>)"

definition auth_route ::
  "(string \<Rightarrow> string) \<Rightarrow> (string \<Rightarrow> js option) \<Rightarrow> (nat \<rightharpoonup> string) \<Rightarrow> 'l limiter \<Rightarrow> (web_request \<Rightarrow> web_response promise)
     \<Rightarrow> (string \<Rightarrow> string \<Rightarrow> string) \<Rightarrow> string \<Rightarrow> string \<Rightarrow> nat \<Rightarrow> string \<Rightarrow> date \<Rightarrow> auth_http_request \<Rightarrow> ('l, fastify_reply) action"
where
  "auth_route sha json phrases consume handleWebRequest new_URL basePath baseUrl timeoutMs newId now r l =
     (case account_rate_limit sha json phrases consume (map (\<lambda>p. basePath @ p) CREDENTIAL_PATHS) newId now r l of
        (Some reply, l') \<Rightarrow> (Inr reply, l')
      | (None, l') \<Rightarrow> (auth_handler handleWebRequest new_URL baseUrl timeoutMs r, l'))"

section \<open>Mail\<close>

definition AUTH_MAIL_DEDUP_SECONDS :: nat where "AUTH_MAIL_DEDUP_SECONDS = 300"

record auth_mail_payload =
  am_kind :: auth_mail_kind
  am_to :: string
  am_url :: string
  am_tokenDigest :: string

definition auth_mail_js :: "auth_mail_payload \<Rightarrow> js" where
  "auth_mail_js p =
     JsObj [(''kind'', JsStr (kind_name (am_kind p))), (''to'', JsStr (am_to p)), (''url'', JsStr (am_url p)),
            (''tokenDigest'', JsStr (am_tokenDigest p))]"

definition AuthService_sendMail :: "'b broker_add \<Rightarrow> auth_mail_payload \<Rightarrow> ('b, unit) action" where
  "AuthService_sendMail add payload b =
     (case send add (QUEUES MAIL_SEND_AUTH_EMAIL) (auth_mail_js payload)
             \<lparr>startAfterSeconds = None, singletonKey = Some (kind_name (am_kind payload) @ '':'' @ am_tokenDigest payload),
              singletonSeconds = Some AUTH_MAIL_DEDUP_SECONDS\<rparr> b of
        (Inl e, b') \<Rightarrow> (Inl e, b')
      | (Inr _, b') \<Rightarrow> (Inr (), b'))"

text \<open>The three callbacks differ in the kind only.\<close>

definition auth_callback ::
  "(string \<Rightarrow> string) \<Rightarrow> (string \<Rightarrow> string \<Rightarrow> string \<Rightarrow> string) \<Rightarrow> 'b broker_add \<Rightarrow> string \<Rightarrow> auth_mail_kind \<Rightarrow> string \<Rightarrow> string
     \<Rightarrow> ('b, unit) action"
where
  "auth_callback sha token_url add frontendBaseUrl kind email token =
     AuthService_sendMail add
       \<lparr>am_kind = kind, am_to = email, am_url = buildFrontendTokenUrl token_url frontendBaseUrl kind token,
        am_tokenDigest = digestAuthToken sha token\<rparr>"

definition sendResetPassword where
  "sendResetPassword sha token_url add frontendBaseUrl = auth_callback sha token_url add frontendBaseUrl ResetPassword"

definition sendVerificationEmail where
  "sendVerificationEmail sha token_url add frontendBaseUrl = auth_callback sha token_url add frontendBaseUrl VerifyEmail"

definition sendDeleteAccountVerification where
  "sendDeleteAccountVerification sha token_url add frontendBaseUrl = auth_callback sha token_url add frontendBaseUrl DeleteAccount"

record mailer_options =
  mo_host :: string
  mo_port :: nat
  mo_user :: "string option"
  mo_password :: "string option"
  mo_from :: string
  mo_requireTls :: "bool option"
  mo_connectionTimeoutMs :: "nat option"
  mo_greetingTimeoutMs :: "nat option"
  mo_socketTimeoutMs :: "nat option"

definition buildCredentials :: "mailer_options \<Rightarrow> (string \<times> string) option" where
  "buildCredentials options =
     (case (mo_user options, mo_password options) of
        (Some user, Some password) \<Rightarrow> if user = [] \<or> password = [] then None else Some (user, password)
      | _ \<Rightarrow> None)"

record smtp_config =
  sc_host :: string
  sc_port :: nat
  sc_secure :: bool
  sc_requireTLS :: bool
  sc_auth :: "(string \<times> string) option"
  sc_connectionTimeout :: nat
  sc_greetingTimeout :: nat
  sc_socketTimeout :: nat

definition smtp_transport :: "mailer_options \<Rightarrow> smtp_config" where
  "smtp_transport options =
     \<lparr>sc_host = mo_host options, sc_port = mo_port options, sc_secure = (mo_port options = 465),
      sc_requireTLS = (case mo_requireTls options of Some b \<Rightarrow> b | None \<Rightarrow> False), sc_auth = buildCredentials options,
      sc_connectionTimeout = (case mo_connectionTimeoutMs options of Some t \<Rightarrow> t | None \<Rightarrow> 10000),
      sc_greetingTimeout = (case mo_greetingTimeoutMs options of Some t \<Rightarrow> t | None \<Rightarrow> 10000),
      sc_socketTimeout = (case mo_socketTimeoutMs options of Some t \<Rightarrow> t | None \<Rightarrow> 30000)\<rparr>"

record mail_message =
  mm_from :: string
  mm_to :: string
  mm_subject :: string
  mm_text :: string
  mm_html :: "string option"
  mm_headers :: "(string \<times> string) list option"

definition toMailOptions :: "mailer_options \<Rightarrow> outgoing_notification \<Rightarrow> mail_message" where
  "toMailOptions options n =
     \<lparr>mm_from = mo_from options, mm_to = on_to n, mm_subject = on_subject n, mm_text = on_text n, mm_html = on_html n,
      mm_headers = map_option (\<lambda>k. [(''X-Idempotency-Key'', k)]) (on_idempotencyKey n)\<rparr>"

text \<open>\<open>sendMail\<close> of the transport answers with the recipients it rejected.\<close>

definition SmtpMailer_send ::
  "(mail_message \<Rightarrow> 'm \<Rightarrow> (failure + string list) \<times> 'm) \<Rightarrow> mailer_options \<Rightarrow> outgoing_notification \<Rightarrow> ('m, unit) action"
where
  "SmtpMailer_send sendMail options n m =
     (case sendMail (toMailOptions options n) m of
        (Inl e, m') \<Rightarrow> (Inl e, m')
      | (Inr rejected, m') \<Rightarrow>
          (if rejected \<noteq> [] then Inl (PlainError (''SMTP rejected '' @ show_nat (length rejected) @ '' recipient(s).'')) else Inr (), m'))"

section \<open>Retention of sessions and verifications\<close>

definition MAX_PRUNE_PASSES :: nat where "MAX_PRUNE_PASSES = 20"

definition HOUR_MS :: int where "HOUR_MS = 3600000"

record auth_retention_options =
  ro_expiredSessionGraceHours :: nat
  ro_batchSize :: nat

abbreviation expired_before :: "date \<Rightarrow> auth_row \<Rightarrow> bool" where
  "expired_before cutoff r \<equiv> ar_expiresAt r < cutoff"

definition delete_expired :: "date \<Rightarrow> nat \<Rightarrow> auth_row list \<Rightarrow> auth_row list \<times> nat" where
  "delete_expired cutoff n rows = delete_oldest ar_id (expired_before cutoff) ar_expiresAt n rows"

definition pruneExpired :: "auth_retention_options \<Rightarrow> date \<Rightarrow> db \<Rightarrow> (nat \<times> nat) \<times> db" where
  "pruneExpired options now d =
     (let sessionCutoff = now - int (ro_expiredSessionGraceHours options) * HOUR_MS;
          (ss, n) = delete_expired sessionCutoff (ro_batchSize options) (sessions d);
          (vs, k) = delete_expired now (ro_batchSize options) (verifications d)
      in ((n, k), d\<lparr>sessions := ss, verifications := vs\<rparr>))"

fun prune_auth_passes :: "nat \<Rightarrow> auth_retention_options \<Rightarrow> date \<Rightarrow> db \<Rightarrow> (nat \<times> nat) \<times> db" where
  "prune_auth_passes 0 options now d = ((0, 0), d)"
| "prune_auth_passes (Suc passes) options now d =
     (let ((n, k), d1) = pruneExpired options now d in
      if n < ro_batchSize options \<and> k < ro_batchSize options then ((n, k), d1)
      else (let ((n', k'), d2) = prune_auth_passes passes options now d1 in ((n + n', k + k'), d2)))"

definition auth_pruneUntilIdle :: "auth_retention_options \<Rightarrow> date \<Rightarrow> db \<Rightarrow> (nat \<times> nat) \<times> db" where
  "auth_pruneUntilIdle options now d = prune_auth_passes MAX_PRUNE_PASSES options now d"

definition PruneExpiredAuth_handle :: "auth_retention_options \<Rightarrow> date \<Rightarrow> db \<Rightarrow> db" where
  "PruneExpiredAuth_handle options now d = snd (auth_pruneUntilIdle options now d)"

section \<open>The retention run\<close>

text \<open>A deletion that takes \<open>n\<close> rows with \<open>p\<close> and no other row; two of them in a row are one.\<close>

definition swept :: "('r \<Rightarrow> bool) \<Rightarrow> 'r list \<Rightarrow> 'r list \<Rightarrow> nat \<Rightarrow> bool" where
  "swept p rows rows' n \<longleftrightarrow>
     filter (\<lambda>r. \<not> p r) rows' = filter (\<lambda>r. \<not> p r) rows \<and> n + count_where p rows' = count_where p rows"

lemma swept_none [simp]: "swept p rows rows 0"
  by (simp add: swept_def)

lemma swept_trans: "swept p a b n \<Longrightarrow> swept p b c m \<Longrightarrow> swept p a c (n + m)"
  by (simp add: swept_def)

lemma swept_all:
  assumes "swept p rows rows' n" "count_where p rows \<le> n"
  shows "rows' = filter (\<lambda>r. \<not> p r) rows"
proof -
  have "count_where p rows' = 0" using assms by (simp add: swept_def)
  then have "filter (\<lambda>r. \<not> p r) rows' = rows'" by (simp add: count_where_zero)
  then show ?thesis using assms(1) by (simp add: swept_def)
qed

abbreviation session_grace :: "auth_retention_options \<Rightarrow> date \<Rightarrow> date" where
  "session_grace options now \<equiv> now - int (ro_expiredSessionGraceHours options) * HOUR_MS"

lemma delete_expired_swept:
  assumes "unique_on ar_id rows" and "delete_expired cutoff n rows = (rows', k)"
  shows "swept (expired_before cutoff) rows rows' k \<and> k = min n (count_where (expired_before cutoff) rows)
    \<and> unique_on ar_id rows'"
  using delete_oldest_contract [OF assms(1), of "expired_before cutoff" ar_expiresAt n] assms(2)
  by (simp add: delete_expired_def swept_def)

lemma pruneExpired_swept:
  assumes "unique_on ar_id (sessions d)" "unique_on ar_id (verifications d)" "pruneExpired options now d = ((n, k), d1)"
  shows "swept (expired_before (session_grace options now)) (sessions d) (sessions d1) n"
    and "swept (expired_before now) (verifications d) (verifications d1) k"
    and "n = min (ro_batchSize options) (count_where (expired_before (session_grace options now)) (sessions d))"
    and "k = min (ro_batchSize options) (count_where (expired_before now) (verifications d))"
    and "unique_on ar_id (sessions d1)" "unique_on ar_id (verifications d1)"
  using assms(3) delete_expired_swept [OF assms(1)] delete_expired_swept [OF assms(2)]
  by (auto simp: pruneExpired_def Let_def split: prod.splits)

text \<open>A run takes every expired row of a table, or as many batches as it has passes.\<close>

lemma prune_auth_passes_swept:
  assumes "unique_on ar_id (sessions d)" "unique_on ar_id (verifications d)"
    and "prune_auth_passes passes options now d = ((n, k), d')"
  shows "swept (expired_before (session_grace options now)) (sessions d) (sessions d') n
    \<and> swept (expired_before now) (verifications d) (verifications d') k
    \<and> min (passes * ro_batchSize options) (count_where (expired_before (session_grace options now)) (sessions d)) \<le> n
    \<and> min (passes * ro_batchSize options) (count_where (expired_before now) (verifications d)) \<le> k"
  using assms
proof (induction passes arbitrary: d n k)
  case (Suc passes)
  obtain m j d1 where one: "pruneExpired options now d = ((m, j), d1)" by (metis prod.exhaust)
  note pass = pruneExpired_swept [OF Suc.prems(1,2) one]
  show ?case
  proof (cases "m < ro_batchSize options \<and> j < ro_batchSize options")
    case True
    then show ?thesis using Suc.prems(3) one pass(1-4) by (auto simp: min_def split: if_splits)
  next
    case False
    then obtain n' k' where rest: "prune_auth_passes passes options now d1 = ((n', k'), d')" "n = m + n'" "k = j + k'"
      using Suc.prems(3) one by (auto split: prod.splits)
    note ih = Suc.IH [OF pass(5,6) rest(1)]
    have "min (Suc passes * ro_batchSize options) (count_where p rows) \<le> a + b"
      if "swept p rows rows' a" "a = min (ro_batchSize options) (count_where p rows)"
        "min (passes * ro_batchSize options) (count_where p rows') \<le> b" for p and rows rows' :: "auth_row list" and a b
      using that by (auto simp: swept_def min_def split: if_splits)
    then show ?thesis using ih pass(1-4) unfolding rest(2,3) by (blast intro: swept_trans)
  qed
qed simp

text \<open>
  The nightly run keeps every session inside its grace period and every verification that has not expired,
  and with at most twenty batches of expired rows in each table removes them all.
\<close>

lemma auth_retention_run:
  assumes "unique_on ar_id (sessions d)" "unique_on ar_id (verifications d)"
    and "auth_pruneUntilIdle options now d = ((n, k), d')"
    and "count_where (expired_before (now - int (ro_expiredSessionGraceHours options) * HOUR_MS)) (sessions d) \<le> 20 * ro_batchSize options"
    and "count_where (expired_before now) (verifications d) \<le> 20 * ro_batchSize options"
  shows "sessions d' = filter (\<lambda>r. \<not> expired_before (now - int (ro_expiredSessionGraceHours options) * HOUR_MS) r) (sessions d)
    \<and> verifications d' = filter (\<lambda>r. \<not> expired_before now r) (verifications d)"
  using prune_auth_passes_swept [OF assms(1,2) assms(3) [unfolded auth_pruneUntilIdle_def]] assms(4,5)
  by (auto simp: MAX_PRUNE_PASSES_def intro!: swept_all)

section \<open>Attempts per account\<close>

text \<open>
  What the limiter documents for one window: an accepted attempt uses a point of its key, and no more than
  \<open>limit\<close> are accepted; points do not come back within the window.
\<close>

definition limiter_contract :: "'l limiter \<Rightarrow> ('l \<Rightarrow> string \<Rightarrow> nat) \<Rightarrow> nat \<Rightarrow> bool" where
  "limiter_contract consume used limit \<longleftrightarrow>
     (\<forall>key l l'. consume key l = (Inr (), l') \<longrightarrow> used l key < limit \<and> used l' = (used l)(key := Suc (used l key)))
     \<and> (\<forall>key l l' e. consume key l = (Inl e, l') \<longrightarrow> (\<forall>k. used l k \<le> used l' k))"

text \<open>The requests of a window in the order they arrive, and which of them get past the hook.\<close>

fun gate :: "(auth_http_request \<Rightarrow> 'l \<Rightarrow> fastify_reply option \<times> 'l) \<Rightarrow> auth_http_request list \<Rightarrow> 'l \<Rightarrow> auth_http_request list" where
  "gate hook [] l = []"
| "gate hook (r # rs) l =
     (case hook r l of
        (None, l') \<Rightarrow> r # gate hook rs l'
      | (Some _, l') \<Rightarrow> gate hook rs l')"

definition attempt :: "(string \<Rightarrow> js option) \<Rightarrow> string list \<Rightarrow> string \<Rightarrow> auth_http_request \<Rightarrow> bool" where
  "attempt json paths mailbox r \<longleftrightarrow>
     (case hr_routeUrl r of Some u \<Rightarrow> u \<in> set paths | None \<Rightarrow> [] \<in> set paths)
     \<and> (case readEmail json (hr_body r) of Some email \<Rightarrow> toLowerCase (trim email) = mailbox | None \<Rightarrow> False)"

lemma hook_attempt:
  assumes "attempt json paths mailbox r"
  shows "account_rate_limit sha json phrases consume paths newId now r l =
    (case consume (sha mailbox) l of
       (Inr _, l') \<Rightarrow> (None, l')
     | (Inl LimiterFailure, l') \<Rightarrow> (None, l')
     | (Inl (RateLimiterRes ms), l') \<Rightarrow> (Some (replyTooManyRequests phrases newId now r ms), l'))"
  using assms by (auto simp: attempt_def account_rate_limit_def hashEmail_def split: option.splits)

lemma hook_used_mono:
  assumes "limiter_contract consume used limit" "account_rate_limit sha json phrases consume paths newId now r l = (x, l')"
  shows "used l k \<le> used l' k"
proof -
  have step: "used l k \<le> used l'' k" if "consume key l = (res, l'')" for key res l''
    using assms(1) that unfolding limiter_contract_def by (cases res) (auto simp: fun_upd_def, metis le_SucI order_refl)
  show ?thesis
    using assms(2) step
    by (auto simp: account_rate_limit_def split: if_splits option.splits prod.splits sum.splits limiter_rejection.splits)
qed

lemma gate_subset: "set (gate hook rs l) \<subseteq> set rs"
proof (induction rs arbitrary: l)
  case (Cons r rs)
  obtain x l' where "hook r l = (x, l')" by fastforce
  with Cons [of l'] show ?case by (cases x) auto
qed simp

lemma gate_bound:
  assumes "limiter_contract consume used limit" "\<forall>key l l'. consume key l \<noteq> (Inl LimiterFailure, l')"
  shows "length (filter (attempt json paths mailbox)
      (gate (account_rate_limit sha json phrases consume paths newId now) rs l)) \<le> limit - used l (sha mailbox)"
proof (induction rs arbitrary: l)
  case (Cons r rs)
  let ?hook = "account_rate_limit sha json phrases consume paths newId now"
  obtain x l' where h: "?hook r l = (x, l')" by fastforce
  have mono: "used l (sha mailbox) \<le> used l' (sha mailbox)" by (rule hook_used_mono [OF assms(1) h])
  show ?case
  proof (cases "x = None \<and> attempt json paths mailbox r")
    case True
    then have "consume (sha mailbox) l = (Inr (), l')"
      using h hook_attempt [of json paths mailbox r sha phrases consume newId now l] assms(2)
      by (auto split: prod.splits sum.splits limiter_rejection.splits)
    then have "used l (sha mailbox) < limit" "used l' (sha mailbox) = Suc (used l (sha mailbox))"
      using assms(1) unfolding limiter_contract_def by (metis, metis fun_upd_same)
    then show ?thesis using Cons.IH [of l'] True h by simp
  next
    case False
    then show ?thesis using Cons.IH [of l'] h mono by (cases x) auto
  qed
qed simp


definition window_limiter :: "nat \<Rightarrow> (string \<Rightarrow> nat) limiter" where
  "window_limiter limit key used =
     (if used key < limit then (Inr (), used(key := Suc (used key))) else (Inl (RateLimiterRes 1000), used))"

lemma window_limiter_contract: "limiter_contract (window_limiter limit) (\<lambda>l. l) limit"
  by (auto simp: limiter_contract_def window_limiter_def split: if_splits)

definition sample_attempt :: auth_http_request where
  "sample_attempt =
     \<lparr>rq_headers = (\<lambda>_. NoHeader), rq_url = ''/api/auth/sign-in/email'', rq_ip = [], rq_ids = None, rq_authSession = None,
      rq_tenantContext = None, hr_method = ''POST'', hr_routeUrl = Some ''/api/auth/sign-in/email'', hr_headerList = [],
      hr_body = BodyValue (JsObj [(''email'', JsStr '' A@b.c'')])\<rparr>"

lemma sample_is_attempt: "attempt (\<lambda>_. None) (map (\<lambda>p. ''/api/auth'' @ p) CREDENTIAL_PATHS) ''a@b.c'' sample_attempt"
  by code_simp


end
