(* ===== verification/Queue_Service.thy ===== *)
theory Queue_Service
  imports Metrics "HOL-Library.Multiset"
begin

text \<open>
  The queue service as a whole (\<open>src/src/platform/queue\<close>): its registered queues and running workers, the
  administrative calls, the registration of handlers and schedules when a process starts, and the shutdown
  with its deadline. The broker is a record of operations on a state of its own; a close that takes time is
  a promise, given by when it settles.
\<close>

section \<open>Options and state\<close>

record queue_module_input =
  qi_redisUrl :: string
  qi_applicationName :: string
  qi_concurrency :: nat
  qi_startWorkers :: bool
  qi_registerSchedules :: "bool option"
  qi_shutdownTimeoutMs :: "nat option"

record queue_options =
  qo_redisUrl :: string
  qo_applicationName :: string
  qo_concurrency :: nat
  qo_startWorkers :: bool
  qo_registerSchedules :: bool
  qo_shutdownTimeoutMs :: nat

definition DEFAULT_SHUTDOWN_TIMEOUT_MS :: nat where "DEFAULT_SHUTDOWN_TIMEOUT_MS = 20000"

definition QueueModule_forRoot :: "queue_module_input \<Rightarrow> queue_options" where
  "QueueModule_forRoot i =
     \<lparr>qo_redisUrl = qi_redisUrl i, qo_applicationName = qi_applicationName i, qo_concurrency = qi_concurrency i,
      qo_startWorkers = qi_startWorkers i,
      qo_registerSchedules = (case qi_registerSchedules i of Some b \<Rightarrow> b | None \<Rightarrow> False),
      qo_shutdownTimeoutMs = (case qi_shutdownTimeoutMs i of Some t \<Rightarrow> t | None \<Rightarrow> DEFAULT_SHUTDOWN_TIMEOUT_MS)\<rparr>"

record 'h worker =
  wk_name :: queue_name
  wk_handler :: 'h
  wk_concurrency :: nat

record 'h queue_service =
  qs_options :: queue_options
  qs_queues :: "(queue_name \<times> job_options) list"
  qs_workers :: "'h worker list"

definition new_service :: "queue_options \<Rightarrow> 'h queue_service" where
  "new_service options =
     \<lparr>qs_options = options, qs_queues = map (\<lambda>d. (qd_name d, defaultJobOptions d)) QUEUE_DEFINITIONS, qs_workers = []\<rparr>"

definition not_registered :: "string \<Rightarrow> failure" where
  "not_registered q = PlainError (''Queue is not registered: '' @ q)"

definition getQueue :: "'h queue_service \<Rightarrow> queue_name \<Rightarrow> failure + queue_name" where
  "getQueue s q = (case map_of (qs_queues s) q of Some _ \<Rightarrow> Inr q | None \<Rightarrow> Inl (not_registered (QUEUES q)))"

definition service_queue :: "'h queue_service \<Rightarrow> string \<Rightarrow> failure + queue_name" where
  "service_queue s q = (case queueOf q of Some d \<Rightarrow> getQueue s (qd_name d) | None \<Rightarrow> Inl (not_registered q))"

definition work :: "queue_name \<Rightarrow> 'h \<Rightarrow> 'h queue_service \<Rightarrow> 'h queue_service" where
  "work q handler s =
     s\<lparr>qs_workers := qs_workers s @ [\<lparr>wk_name = q, wk_handler = handler, wk_concurrency = qo_concurrency (qs_options s)\<rparr>]\<rparr>"

section \<open>Administration\<close>

record 'b broker_admin =
  ba_waitUntilReady :: "queue_name \<Rightarrow> ('b, unit) action"
  ba_pause :: "queue_name \<Rightarrow> ('b, unit) action"
  ba_resume :: "queue_name \<Rightarrow> ('b, unit) action"
  ba_obliterate :: "queue_name \<Rightarrow> ('b, unit) action"
  ba_getJobCounts :: "queue_name \<Rightarrow> ('b, nat) action"
  ba_getJobs :: "queue_name \<Rightarrow> ('b, string list) action"
  ba_getJob :: "queue_name \<Rightarrow> string \<Rightarrow> ('b, string option) action"
  ba_removeJob :: "queue_name \<Rightarrow> string \<Rightarrow> ('b, unit) action"

definition on_queue ::
  "'h queue_service \<Rightarrow> (queue_name \<Rightarrow> ('b, 'a) action) \<Rightarrow> string \<Rightarrow> ('b, 'a) action"
where
  "on_queue s f q b = (case service_queue s q of Inl e \<Rightarrow> (Inl e, b) | Inr name \<Rightarrow> f name b)"

definition pause :: "'b broker_admin \<Rightarrow> 'h queue_service \<Rightarrow> string \<Rightarrow> ('b, unit) action" where
  "pause br s q = on_queue s (ba_pause br) q"

definition resume :: "'b broker_admin \<Rightarrow> 'h queue_service \<Rightarrow> string \<Rightarrow> ('b, unit) action" where
  "resume br s q = on_queue s (ba_resume br) q"

definition findJobs :: "'b broker_admin \<Rightarrow> 'h queue_service \<Rightarrow> string \<Rightarrow> ('b, string list) action" where
  "findJobs br s q = on_queue s (ba_getJobs br) q"

definition remove_job :: "'b broker_admin \<Rightarrow> 'h queue_service \<Rightarrow> string \<Rightarrow> string \<Rightarrow> ('b, unit) action" where
  "remove_job br s q jobId = on_queue s
     (\<lambda>name b. case ba_getJob br name jobId b of
        (Inl e, b') \<Rightarrow> (Inl e, b')
      | (Inr None, b') \<Rightarrow> (Inr (), b')
      | (Inr (Some job), b') \<Rightarrow> ba_removeJob br name job b') q"

text \<open>\<open>Promise.all\<close> over the queues: every call is made, and the first failure is the one reported.\<close>

fun on_all_queues :: "(queue_name \<Rightarrow> ('b, unit) action) \<Rightarrow> queue_name list \<Rightarrow> ('b, unit) action" where
  "on_all_queues f [] b = (Inr (), b)"
| "on_all_queues f (q # qs) b =
     (let (r, b') = f q b; (r', b'') = on_all_queues f qs b' in (case r of Inl e \<Rightarrow> Inl e | Inr _ \<Rightarrow> r', b''))"

definition deleteAllJobs :: "'b broker_admin \<Rightarrow> 'h queue_service \<Rightarrow> ('b, unit) action" where
  "deleteAllJobs br s = on_all_queues (ba_obliterate br) (map fst (qs_queues s))"

definition onModuleInit :: "'b broker_admin \<Rightarrow> 'h queue_service \<Rightarrow> ('b, unit) action" where
  "onModuleInit br s = on_all_queues (ba_waitUntilReady br) (map fst (qs_queues s))"

definition queue_ping :: "'b broker_admin \<Rightarrow> 'h queue_service \<Rightarrow> ('b, bool) action" where
  "queue_ping br s b =
     (case qs_queues s of
        [] \<Rightarrow> (Inr False, b)
      | (q, _) # _ \<Rightarrow>
          (case ba_getJobCounts br q b of
             (Inl e, b') \<Rightarrow> (Inl e, b')
           | (Inr _, b') \<Rightarrow> (Inr True, b')))"

definition offWork :: "('h worker \<Rightarrow> failure + unit) \<Rightarrow> queue_name \<Rightarrow> ('h queue_service, unit) action" where
  "offWork close q s =
     (let found = filter (\<lambda>w. wk_name w = q) (qs_workers s) in
      case find (\<lambda>r. isl r) (map close found) of
        Some (Inl e) \<Rightarrow> (Inl e, s)
      | _ \<Rightarrow> (Inr (), s\<lparr>qs_workers := fold remove1 found (qs_workers s)\<rparr>))"

section \<open>Start\<close>

definition register_handlers :: "(queue_name \<times> provider) list \<Rightarrow> provider queue_service \<Rightarrow> provider queue_service" where
  "register_handlers = fold (\<lambda>(q, p). work q p)"

definition QueueRegistrar_bootstrap :: "provider list \<Rightarrow> provider queue_service \<Rightarrow> failure + provider queue_service" where
  "QueueRegistrar_bootstrap providers s =
     (if \<not> qo_startWorkers (qs_options s) then Inr s
      else (case discoverHandlers providers [] [] of
              Inl e \<Rightarrow> Inl e
            | Inr handlers \<Rightarrow> Inr (register_handlers handlers s)))"

text \<open>
  The listeners of the modules the worker process imports, with the queue their decorator names. Providers
  without the decorator are not listed.
\<close>

definition listener :: "queue_name \<Rightarrow> string \<Rightarrow> provider" where
  "listener q name = \<lparr>pv_queue = Some (QUEUES q), pv_name = name, pv_has_handle = True\<rparr>"

definition users_listeners :: "provider list" where
  "users_listeners =
     [listener USERS_CREATE_PROFILE ''CreateProfileOnRegistrationListener'',
      listener USERS_DELETE_PROFILE ''DeleteProfileOnUserDeletedListener'']"

definition audit_listeners :: "provider list" where
  "audit_listeners =
     [listener AUDIT_RECORD_EVENT ''RecordIntegrationEventListener'', listener AUDIT_PRUNE ''PruneAuditLogListener'']"

definition billing_listeners :: "provider list" where
  "billing_listeners =
     [listener BILLING_APPLY_WEBHOOK ''ApplyBillingWebhookListener'',
      listener BILLING_WEBHOOK_PRUNE ''PruneBillingWebhookInboxListener'']"

definition upload_listeners :: "provider list" where
  "upload_listeners =
     [listener UPLOAD_PURGE_USER_FILES ''PurgeFilesOnUserDeletedListener'',
      listener UPLOAD_SWEEP_UNCONFIRMED ''SweepUnconfirmedUploadsListener'']"

definition notification_listeners :: "provider list" where
  "notification_listeners =
     [listener MAIL_SEND_WELCOME ''SendWelcomeEmailListener'', listener MAIL_SEND_AUTH_EMAIL ''SendAuthEmailListener'',
      listener ORGANIZATION_SEND_INVITATION ''SendInvitationEmailListener'',
      listener NOTIFICATIONS_PRUNE_LEDGER ''PruneNotificationLedgerListener'']"

definition auth_retention_listeners :: "provider list" where
  "auth_retention_listeners = [listener AUTH_PRUNE_EXPIRED ''PruneExpiredAuthListener'']"

definition worker_listeners :: "provider list" where
  "worker_listeners =
     users_listeners @ audit_listeners @ billing_listeners @ auth_retention_listeners @ upload_listeners @ notification_listeners"

text \<open>The schedulers of the broker, per queue.\<close>

type_synonym schedulers = "queue_name \<Rightarrow> scheduler list"

definition schedule_on :: "queue_name \<Rightarrow> repeat \<Rightarrow> schedulers \<Rightarrow> failure + schedulers" where
  "schedule_on q r ss =
     (case upsertSchedule (QUEUES q) r None (ss q) of
        Inl e \<Rightarrow> Inl e
      | Inr l \<Rightarrow> Inr (ss(q := l)))"

fun schedule_all :: "(queue_name \<times> repeat) list \<Rightarrow> schedulers \<Rightarrow> failure + schedulers" where
  "schedule_all [] ss = Inr ss"
| "schedule_all ((q, r) # rest) ss =
     (case schedule_on q r ss of
        Inl e \<Rightarrow> Inl e
      | Inr ss' \<Rightarrow> schedule_all rest ss')"

definition CronRegistrar_bootstrap :: "queue_options \<Rightarrow> schedulers \<Rightarrow> failure + schedulers" where
  "CronRegistrar_bootstrap options ss =
     (if \<not> qo_registerSchedules options then Inr ss
      else schedule_all (map (\<lambda>(q, cron). (q, Pattern cron)) CRON_SCHEDULES) ss)"

definition registerWorkers ::
  "nat \<Rightarrow> 'h \<Rightarrow> 'h \<Rightarrow> 'h queue_service \<times> schedulers \<Rightarrow> failure + 'h queue_service \<times> schedulers"
where
  "registerWorkers drainIntervalSeconds drain prune s =
     (let service = work OUTBOX_PRUNE prune (work OUTBOX_DRAIN drain (fst s)) in
      case schedule_all [(OUTBOX_DRAIN, Every (drainIntervalSeconds * 1000)), (OUTBOX_PRUNE, Pattern OUTBOX_PRUNE_CRON)] (snd s) of
        Inl e \<Rightarrow> Inl e
      | Inr ss \<Rightarrow> Inr (service, ss))"

section \<open>Shutdown\<close>

definition completesWithin :: "nat \<Rightarrow> unit promise \<Rightarrow> failure + bool" where
  "completesWithin timeoutMs operation =
     (case operation of
        Some (t, r) \<Rightarrow> if t < timeoutMs then (case r of Inr _ \<Rightarrow> Inr True | Inl e \<Rightarrow> Inl e) else Inr False
      | None \<Rightarrow> Inr False)"

datatype shutdown_call =
    CloseWorker queue_name | ForceCloseWorker queue_name | CloseQueue queue_name | DisconnectQueue queue_name | Warned string

text \<open>A step that is already the fallback: its failure is logged and goes no further.\<close>

definition quietly :: "failure + unit \<Rightarrow> string \<Rightarrow> shutdown_call list" where
  "quietly outcome step = (case outcome of Inr _ \<Rightarrow> [] | Inl e \<Rightarrow> [Warned (step @ '' failed'')])"

definition closeWorker ::
  "nat \<Rightarrow> unit promise \<Rightarrow> failure + unit \<Rightarrow> 'h worker \<Rightarrow> (failure + unit) \<times> shutdown_call list"
where
  "closeWorker timeoutMs close forced w =
     (case completesWithin timeoutMs close of
        Inl e \<Rightarrow> (Inl e, [CloseWorker (wk_name w)])
      | Inr True \<Rightarrow> (Inr (), [CloseWorker (wk_name w)])
      | Inr False \<Rightarrow>
          (Inr (), [CloseWorker (wk_name w), Warned ''forcing BullMQ worker shutdown'', ForceCloseWorker (wk_name w)]
             @ quietly forced ''forced worker close''))"

definition closeQueue ::
  "nat \<Rightarrow> unit promise \<Rightarrow> failure + unit \<Rightarrow> queue_name \<Rightarrow> (failure + unit) \<times> shutdown_call list"
where
  "closeQueue timeoutMs close disconnected q =
     (case completesWithin timeoutMs close of
        Inl e \<Rightarrow> (Inl e, [CloseQueue q])
      | Inr True \<Rightarrow> (Inr (), [CloseQueue q])
      | Inr False \<Rightarrow>
          (Inr (), [CloseQueue q, Warned ''disconnecting BullMQ queue after shutdown deadline'', DisconnectQueue q]
             @ quietly disconnected ''queue disconnect''))"

definition all_closed :: "((failure + unit) \<times> shutdown_call list) list \<Rightarrow> (failure + unit) \<times> shutdown_call list" where
  "all_closed rs =
     (case find isl (map fst rs) of Some (Inl e) \<Rightarrow> Inl e | _ \<Rightarrow> Inr (), concat (map snd rs))"

text \<open>A worker and a queue come with how their close settles and what the forced step answers.\<close>

definition onModuleDestroy ::
  "('h worker \<Rightarrow> unit promise \<times> (failure + unit)) \<Rightarrow> (queue_name \<Rightarrow> unit promise \<times> (failure + unit)) \<Rightarrow> 'h queue_service
     \<Rightarrow> (failure + unit) \<times> shutdown_call list"
where
  "onModuleDestroy closeW closeQ s =
     (let timeoutMs = qo_shutdownTimeoutMs (qs_options s) in
      case all_closed (map (\<lambda>w. closeWorker timeoutMs (fst (closeW w)) (snd (closeW w)) w) (qs_workers s)) of
        (Inl e, calls) \<Rightarrow> (Inl e, calls)
      | (Inr _, calls) \<Rightarrow>
          (let (r, calls') = all_closed (map (\<lambda>q. closeQueue timeoutMs (fst (closeQ q)) (snd (closeQ q)) q) (map fst (qs_queues s)))
           in (r, calls @ calls')))"

section \<open>Handlers\<close>

definition handler_of :: "provider \<Rightarrow> (queue_name \<times> provider) option" where
  "handler_of p = map_option (\<lambda>q. (q, p)) (readQueueMetadata p)"

lemma discoverHandlers_complete:
  assumes "\<forall>p \<in> set ps. readQueueMetadata p \<noteq> None \<longrightarrow> pv_has_handle p"
    and "distinct (map fst (acc @ List.map_filter handler_of ps))" and "fst ` set seen = fst ` set acc"
  shows "discoverHandlers ps seen acc = Inr (acc @ List.map_filter handler_of ps)"
  using assms
proof (induction ps seen acc rule: discoverHandlers.induct)
  case (2 p ps seen acc)
  show ?case
  proof (cases "readQueueMetadata p")
    case None
    then show ?thesis using 2 by (simp add: handler_of_def List.map_filter_simps)
  next
    case (Some q)
    then have "map_of seen q = None"
      using "2.prems"(2,3) by (auto simp: handler_of_def List.map_filter_simps map_of_eq_None_iff)
    moreover have "pv_has_handle p" using "2.prems"(1) Some by auto
    ultimately show ?thesis
      using "2.IH"(2) [OF Some] "2.prems" Some by (simp add: handler_of_def List.map_filter_simps)
  qed
qed (simp add: List.map_filter_simps)

lemma readQueueMetadata_listener: "readQueueMetadata (listener q name) = Some q"
  using queueOf_QUEUES [of q] by (auto simp: readQueueMetadata_def listener_def queueOf_def)

text \<open>Which handlers are found depends on the decorated providers only, and not on their order.\<close>

lemma decorated_handlers:
  assumes "mset (filter (\<lambda>p. readQueueMetadata p \<noteq> None) ps) = mset ls" "\<forall>l \<in> set ls. \<exists>q name. l = listener q name"
  shows "mset (map fst (List.map_filter handler_of ps)) = mset (map (\<lambda>l. the (readQueueMetadata l)) ls)"
    and "\<forall>p \<in> set ps. readQueueMetadata p \<noteq> None \<longrightarrow> pv_has_handle p"
proof -
  have "map fst (List.map_filter handler_of ps) = map (\<lambda>l. the (readQueueMetadata l)) (filter (\<lambda>p. readQueueMetadata p \<noteq> None) ps)"
    by (induction ps) (auto simp: handler_of_def List.map_filter_simps)
  then show "mset (map fst (List.map_filter handler_of ps)) = mset (map (\<lambda>l. the (readQueueMetadata l)) ls)"
    using assms(1) by (simp only: mset_map)
  have "p \<in> set ls" if "p \<in> set ps" "readQueueMetadata p \<noteq> None" for p
    using arg_cong [OF assms(1), of set_mset] that by auto
  then show "\<forall>p \<in> set ps. readQueueMetadata p \<noteq> None \<longrightarrow> pv_has_handle p"
    using assms(2) by (fastforce simp: listener_def)
qed

lemma register_handlers_workers:
  "qs_workers (register_handlers hs s) =
     qs_workers s @ map (\<lambda>(q, p). \<lparr>wk_name = q, wk_handler = p, wk_concurrency = qo_concurrency (qs_options s)\<rparr>) hs"
  "qs_options (register_handlers hs s) = qs_options s" "qs_queues (register_handlers hs s) = qs_queues s"
  by (induction hs arbitrary: s) (auto simp: register_handlers_def work_def)

lemma registered_names: "map wk_name (qs_workers (register_handlers hs s)) = map wk_name (qs_workers s) @ map fst hs"
  by (simp add: register_handlers_workers case_prod_beta comp_def)

section \<open>Schedules\<close>

definition declares :: "queue_name \<Rightarrow> scheduler \<Rightarrow> bool" where
  "declares q sch = (case fst sch of Some k \<Rightarrow> starts_with (schedule_key (QUEUES q) None) k | None \<Rightarrow> False)"

text \<open>Scheduling a queue leaves exactly one scheduler under its own prefix, and every other one as it was.\<close>

lemma schedule_on_effect:
  "schedule_on q r ss = Inr (ss(q := filter (\<lambda>sch. \<not> declares q sch) (ss q) @ [(Some (schedule_key (QUEUES q) None), r)]))"
proof -
  have own: "starts_with x x" for x :: string by (simp add: starts_with_def)
  obtain d where "queueOf (QUEUES q) = Some d" using queueOf_QUEUES by blast
  then show ?thesis
    by (auto simp: schedule_on_def upsertSchedule_def schedule_key_def upsert_scheduler_def removeStaleSchedulers_def
        declares_def own Let_def intro!: arg_cong [where f = "\<lambda>l. ss(q := l @ _)"] filter_cong split: option.splits)
qed

definition scheduled :: "(queue_name \<times> repeat) list \<Rightarrow> schedulers \<Rightarrow> schedulers" where
  "scheduled ps ss q =
     (case map_of ps q of
        None \<Rightarrow> ss q
      | Some r \<Rightarrow> filter (\<lambda>sch. \<not> declares q sch) (ss q) @ [(Some (schedule_key (QUEUES q) None), r)])"

lemma schedule_all_effect:
  assumes "distinct (map fst ps)"
  shows "schedule_all ps ss = Inr (scheduled ps ss)"
  using assms
proof (induction ps arbitrary: ss)
  case Nil
  then show ?case by (simp add: scheduled_def fun_eq_iff)
next
  case (Cons p ps)
  obtain q r where [simp]: "p = (q, r)" by fastforce
  have "map_of ps q = None" using Cons.prems by (simp add: map_of_eq_None_iff)
  then show ?case using Cons by (auto simp: schedule_on_effect scheduled_def fun_eq_iff split: option.splits)
qed

text \<open>Everything the scheduler process schedules: the maintenance queues and the two of the outbox.\<close>

definition SCHEDULES :: "nat \<Rightarrow> (queue_name \<times> repeat) list" where
  "SCHEDULES drainIntervalSeconds =
     map (\<lambda>(q, cron). (q, Pattern cron)) CRON_SCHEDULES
     @ [(OUTBOX_DRAIN, Every (drainIntervalSeconds * 1000)), (OUTBOX_PRUNE, Pattern OUTBOX_PRUNE_CRON)]"

lemma SCHEDULES_distinct: "distinct (map fst (SCHEDULES n))"
  by (simp add: SCHEDULES_def CRON_SCHEDULES_def)

lemma scheduled_append:
  "distinct (map fst (ps @ ps')) \<Longrightarrow> scheduled ps' (scheduled ps ss) = scheduled (ps @ ps') ss"
  by (auto simp: fun_eq_iff scheduled_def map_add_def map_of_eq_None_iff dest: map_of_SomeD split: option.splits) force+

lemma own_declared: "declares q (Some (schedule_key (QUEUES q) None), r)"
  by (simp add: declares_def starts_with_def)

lemma scheduled_idem: "scheduled ps (scheduled ps ss) = scheduled ps ss"
  by (auto simp: fun_eq_iff scheduled_def own_declared split: option.splits)

lemma registerWorkers_effect:
  "registerWorkers n drain prune (s, ss) = Inr (work OUTBOX_PRUNE prune (work OUTBOX_DRAIN drain s),
     scheduled [(OUTBOX_DRAIN, Every (n * 1000)), (OUTBOX_PRUNE, Pattern OUTBOX_PRUNE_CRON)] ss)"
proof -
  have d: "distinct (map fst [(OUTBOX_DRAIN, Every (n * 1000)), (OUTBOX_PRUNE, Pattern OUTBOX_PRUNE_CRON)])" by simp
  show ?thesis by (simp only: registerWorkers_def fst_conv snd_conv schedule_all_effect [OF d] Let_def sum.case)
qed

lemma scheduler_start:
  assumes "qo_registerSchedules options"
  shows "\<exists>ss1 s2. CronRegistrar_bootstrap options ss = Inr ss1
     \<and> registerWorkers n drain prune (s, ss1) = Inr (s2, scheduled (SCHEDULES n) ss)"
proof -
  let ?c = "map (\<lambda>(q, cron). (q, Pattern cron)) CRON_SCHEDULES"
  let ?o = "[(OUTBOX_DRAIN, Every (n * 1000)), (OUTBOX_PRUNE, Pattern OUTBOX_PRUNE_CRON)]"
  have d: "distinct (map fst ?c)" "distinct (map fst (?c @ ?o))" by (simp_all add: CRON_SCHEDULES_def)
  have "CronRegistrar_bootstrap options ss = Inr (scheduled ?c ss)"
    using assms by (simp only: CronRegistrar_bootstrap_def schedule_all_effect [OF d(1)]) simp
  moreover note registerWorkers_effect [of n drain prune s "scheduled ?c ss"]
  ultimately show ?thesis by (simp only: SCHEDULES_def scheduled_append [OF d(2)]) blast
qed

section \<open>Properties\<close>

text \<open>
  C13: the schedules of a deployment are the declared ones, whatever was there before. When the scheduler
  process starts, on any schedulers earlier versions left in the broker, each maintenance queue ends up
  with exactly one scheduler of its own, with the declared cron or interval; schedulers under foreign keys
  and of other queues are untouched; and starting again changes nothing. A process that is not told to
  register schedules touches none.\<close>

theorem schedules_registered:
  assumes "qo_registerSchedules options"
  shows "\<exists>ss1 s2 ss2. CronRegistrar_bootstrap options ss = Inr ss1 \<and> registerWorkers n drain prune (s, ss1) = Inr (s2, ss2)
     \<and> (\<forall>(q, r) \<in> set (SCHEDULES n). filter (declares q) (ss2 q) = [(Some (schedule_key (QUEUES q) None), r)]
          \<and> filter (\<lambda>sch. \<not> declares q sch) (ss2 q) = filter (\<lambda>sch. \<not> declares q sch) (ss q))
     \<and> (\<forall>q. q \<notin> fst ` set (SCHEDULES n) \<longrightarrow> ss2 q = ss q)
     \<and> (\<exists>ss3 s4. CronRegistrar_bootstrap options ss2 = Inr ss3 \<and> registerWorkers n drain prune (s, ss3) = Inr (s4, ss2))
     \<and> CronRegistrar_bootstrap (options\<lparr>qo_registerSchedules := False\<rparr>) ss = Inr ss"
proof -
  obtain ss1 s2 where run: "CronRegistrar_bootstrap options ss = Inr ss1"
    "registerWorkers n drain prune (s, ss1) = Inr (s2, scheduled (SCHEDULES n) ss)" using scheduler_start [OF assms, of ss n drain prune s] by blast
  have again: "\<exists>ss3 s4. CronRegistrar_bootstrap options (scheduled (SCHEDULES n) ss) = Inr ss3
      \<and> registerWorkers n drain prune (s, ss3) = Inr (s4, scheduled (SCHEDULES n) ss)"
    using scheduler_start [OF assms, of "scheduled (SCHEDULES n) ss" n drain prune s] by (simp add: scheduled_idem)
  have own: "filter (declares q) (scheduled (SCHEDULES n) ss q) = [(Some (schedule_key (QUEUES q) None), r)]
      \<and> filter (\<lambda>sch. \<not> declares q sch) (scheduled (SCHEDULES n) ss q) = filter (\<lambda>sch. \<not> declares q sch) (ss q)"
    if "(q, r) \<in> set (SCHEDULES n)" for q r
    using map_of_is_SomeI [OF SCHEDULES_distinct that] by (auto simp: scheduled_def own_declared filter_empty_conv)
  have other: "scheduled (SCHEDULES n) ss q = ss q" if "q \<notin> fst ` set (SCHEDULES n)" for q
    using that by (simp add: scheduled_def map_of_eq_None_iff [symmetric])
  have quiet: "CronRegistrar_bootstrap (options\<lparr>qo_registerSchedules := False\<rparr>) ss = Inr ss"
    by (simp add: CronRegistrar_bootstrap_def)
  show ?thesis
    by (intro exI [of _ ss1] exI [of _ s2] exI [of _ "scheduled (SCHEDULES n) ss"] conjI run again quiet) (use own other in blast)+
qed

definition sample_queue_options :: queue_options where
  "sample_queue_options = QueueModule_forRoot \<lparr>qi_redisUrl = ''redis://cache'', qi_applicationName = ''scheduler'', qi_concurrency = 1,
     qi_startWorkers = True, qi_registerSchedules = Some True, qi_shutdownTimeoutMs = None\<rparr>"

theorem schedules_registered_witness:
  "\<exists>ss1 s2 ss2. CronRegistrar_bootstrap sample_queue_options (\<lambda>q. [(Some (''schedule:'' @ QUEUES q @ '':0 * * * *''), Pattern ''0 * * * *'')]) = Inr ss1
     \<and> registerWorkers 10 () () (new_service sample_queue_options, ss1) = Inr (s2, ss2)
     \<and> filter (declares OUTBOX_DRAIN) (ss2 OUTBOX_DRAIN) = [(Some ''schedule:messaging.outbox-drain'', Every 10000)]"
proof -
  have "qo_registerSchedules sample_queue_options" by (simp add: sample_queue_options_def QueueModule_forRoot_def)
  from schedules_registered [OF this, of "\<lambda>q. [(Some (''schedule:'' @ QUEUES q @ '':0 * * * *''), Pattern ''0 * * * *'')]" 10 "()" "()"
      "new_service sample_queue_options"]
  show ?thesis by (fastforce simp: SCHEDULES_def schedule_key_def)
qed

lemma worker_queues:
  "map (\<lambda>l. the (readQueueMetadata l)) worker_listeners =
     [USERS_CREATE_PROFILE, USERS_DELETE_PROFILE, AUDIT_RECORD_EVENT, AUDIT_PRUNE, BILLING_APPLY_WEBHOOK, BILLING_WEBHOOK_PRUNE,
      AUTH_PRUNE_EXPIRED, UPLOAD_PURGE_USER_FILES, UPLOAD_SWEEP_UNCONFIRMED, MAIL_SEND_WELCOME, MAIL_SEND_AUTH_EMAIL,
      ORGANIZATION_SEND_INVITATION, NOTIFICATIONS_PRUNE_LEDGER]"
  by (simp add: worker_listeners_def users_listeners_def audit_listeners_def billing_listeners_def auth_retention_listeners_def
      upload_listeners_def notification_listeners_def readQueueMetadata_listener)

lemma QueueRegistrar_finds:
  assumes "qo_startWorkers (qs_options s)" "mset (filter (\<lambda>p. readQueueMetadata p \<noteq> None) ps) = mset ls"
    "\<forall>l \<in> set ls. \<exists>q name. l = listener q name" "distinct (map (\<lambda>l. the (readQueueMetadata l)) ls)"
  shows "\<exists>s'. QueueRegistrar_bootstrap ps s = Inr s'
     \<and> mset (map wk_name (qs_workers s')) = mset (map wk_name (qs_workers s)) + mset (map (\<lambda>l. the (readQueueMetadata l)) ls)"
proof -
  note found = decorated_handlers [OF assms(2,3)]
  have "distinct (map fst (List.map_filter handler_of ps))" using found(1) assms(4) by (metis mset_eq_imp_distinct_iff)
  then have "discoverHandlers ps [] [] = Inr (List.map_filter handler_of ps)"
    using discoverHandlers_complete [OF found(2), of "[]" "[]"] by simp
  then show ?thesis using assms(1) found(1) by (auto simp: QueueRegistrar_bootstrap_def registered_names simp del: mset_map)
qed

text \<open>
  In whatever order the container lists the providers of the worker process, the workers it starts together
  with the two of the outbox serve each declared queue once.
\<close>

lemma queues_served:
  assumes "qo_startWorkers w" "qo_startWorkers c"
    and "mset (filter (\<lambda>p. readQueueMetadata p \<noteq> None) ps) = mset worker_listeners"
    and "\<forall>p \<in> set ps'. readQueueMetadata p = None"
  shows "\<exists>worker scheduler scheduler' ss'.
     QueueRegistrar_bootstrap ps (new_service w) = Inr worker
     \<and> QueueRegistrar_bootstrap ps' (new_service c) = Inr scheduler
     \<and> registerWorkers n drain prune (scheduler, ss) = Inr (scheduler', ss')
     \<and> mset (map wk_name (qs_workers worker @ qs_workers scheduler')) = mset (map qd_name QUEUE_DEFINITIONS)
     \<and> (\<forall>q. count (mset (map wk_name (qs_workers worker @ qs_workers scheduler'))) q = 1)"
proof -
  have listeners: "\<forall>l \<in> set worker_listeners. \<exists>q name. l = listener q name"
    unfolding worker_listeners_def users_listeners_def audit_listeners_def billing_listeners_def auth_retention_listeners_def
      upload_listeners_def notification_listeners_def by auto
  obtain worker where worker: "QueueRegistrar_bootstrap ps (new_service w) = Inr worker"
    "mset (map wk_name (qs_workers worker)) = mset (map (\<lambda>l. the (readQueueMetadata l)) worker_listeners)"
    using QueueRegistrar_finds [of "new_service w" ps worker_listeners, OF _ assms(3) listeners] assms(1) worker_queues
    by (auto simp: new_service_def)
  have none: "filter (\<lambda>p. readQueueMetadata p \<noteq> None) ps' = []" using assms(4) by (simp add: filter_empty_conv)
  obtain scheduler where scheduler: "QueueRegistrar_bootstrap ps' (new_service c) = Inr scheduler" "qs_workers scheduler = []"
    using QueueRegistrar_finds [of "new_service c" ps' "[]"] assms(2,4) by (auto simp: new_service_def none filter_empty_conv)
  note outbox = registerWorkers_effect [of n drain prune scheduler ss]
  have all: "mset (map wk_name (qs_workers worker @ qs_workers (work OUTBOX_PRUNE prune (work OUTBOX_DRAIN drain scheduler))))
      = mset (map qd_name QUEUE_DEFINITIONS)"
    unfolding map_append mset_append worker(2) worker_queues
    by (simp add: work_def scheduler(2) QUEUE_DEFINITIONS_def queue_defaults_def maintenance_queue_def)
  have once: "count (mset (map qd_name QUEUE_DEFINITIONS)) q = 1" for q
    by (cases q) (simp_all add: QUEUE_DEFINITIONS_def queue_defaults_def maintenance_queue_def)
  show ?thesis using worker(1) scheduler(1) outbox all once by metis
qed

lemma decorated_listeners: "\<forall>p \<in> set worker_listeners. readQueueMetadata p \<noteq> None"
  by (auto simp: worker_listeners_def users_listeners_def audit_listeners_def billing_listeners_def auth_retention_listeners_def
    upload_listeners_def notification_listeners_def readQueueMetadata_listener)

section \<open>The end\<close>

definition in_time_rejection :: "nat \<Rightarrow> unit promise \<Rightarrow> bool" where
  "in_time_rejection timeoutMs p = (case p of Some (t, Inl _) \<Rightarrow> t < timeoutMs | _ \<Rightarrow> False)"

definition too_late :: "nat \<Rightarrow> unit promise \<Rightarrow> bool" where
  "too_late timeoutMs p = (case p of Some (t, _) \<Rightarrow> timeoutMs \<le> t | None \<Rightarrow> True)"

lemma completesWithin_cases:
  "isl (completesWithin T p) \<longleftrightarrow> in_time_rejection T p" "completesWithin T p = Inr False \<longleftrightarrow> too_late T p"
  by (auto simp: completesWithin_def in_time_rejection_def too_late_def split: option.splits sum.splits)

lemma closeWorker_spec:
  "isl (fst (closeWorker T p f w)) \<longleftrightarrow> in_time_rejection T p" "CloseWorker (wk_name w) \<in> set (snd (closeWorker T p f w))"
  "ForceCloseWorker (wk_name w) \<in> set (snd (closeWorker T p f w)) \<longleftrightarrow> too_late T p"
  "CloseQueue q \<notin> set (snd (closeWorker T p f w))"
  unfolding completesWithin_cases [symmetric] closeWorker_def quietly_def by (auto split: sum.splits bool.splits)

lemma closeQueue_spec:
  "isl (fst (closeQueue T p f q)) \<longleftrightarrow> in_time_rejection T p" "CloseQueue q \<in> set (snd (closeQueue T p f q))"
  "DisconnectQueue q \<in> set (snd (closeQueue T p f q)) \<longleftrightarrow> too_late T p"
  "CloseWorker w \<notin> set (snd (closeQueue T p f q))"
  unfolding completesWithin_cases [symmetric] closeQueue_def quietly_def by (auto split: sum.splits bool.splits)

lemma all_closed_spec:
  "isl (fst (all_closed rs)) \<longleftrightarrow> (\<exists>r \<in> set rs. isl (fst r))" "set (snd (all_closed rs)) = (\<Union>r \<in> set rs. set (snd r))"
proof -
  show "isl (fst (all_closed rs)) \<longleftrightarrow> (\<exists>r \<in> set rs. isl (fst r))"
    by (induction rs) (auto simp: all_closed_def isl_def split: option.splits sum.splits)
qed (simp add: all_closed_def)

text \<open>
  C14: shutdown ends, workers first. Every worker is asked to close, and one that misses the deadline is closed by
  force, whatever the forced close answers. Unless a worker rejects its close in time, every queue is then
  closed, or disconnected after the deadline, no queue before any worker, and with no rejection at all the
  shutdown succeeds. A close that rejects in time fails the shutdown, and when a worker did so, no queue is
  closed.\<close>

theorem queue_shutdown:
  assumes "onModuleDestroy closeW closeQ s = (r, calls)" and "T = qo_shutdownTimeoutMs (qs_options s)"
  shows "(\<forall>w \<in> set (qs_workers s). CloseWorker (wk_name w) \<in> set calls
            \<and> (too_late T (fst (closeW w)) \<longrightarrow> ForceCloseWorker (wk_name w) \<in> set calls))
    \<and> (if \<exists>w \<in> set (qs_workers s). in_time_rejection T (fst (closeW w))
       then isl r \<and> (\<forall>q. CloseQueue q \<notin> set calls)
       else (\<forall>q \<in> fst ` set (qs_queues s). CloseQueue q \<in> set calls \<and> (too_late T (fst (closeQ q)) \<longrightarrow> DisconnectQueue q \<in> set calls))
         \<and> (isl r \<longleftrightarrow> (\<exists>q \<in> fst ` set (qs_queues s). in_time_rejection T (fst (closeQ q))))
         \<and> (\<exists>cw cq. calls = cw @ cq \<and> (\<forall>q. CloseQueue q \<notin> set cw) \<and> (\<forall>w. CloseWorker w \<notin> set cq)))"
proof -
  define ws where "ws = map (\<lambda>w. closeWorker T (fst (closeW w)) (snd (closeW w)) w) (qs_workers s)"
  define qs where "qs = map (\<lambda>q. closeQueue T (fst (closeQ q)) (snd (closeQ q)) q) (map fst (qs_queues s))"
  have run: "(r, calls) = (if isl (fst (all_closed ws)) then all_closed ws else (fst (all_closed qs), snd (all_closed ws) @ snd (all_closed qs)))"
    using assms(1) unfolding onModuleDestroy_def assms(2) [symmetric] ws_def [symmetric] qs_def [symmetric] Let_def
    by (cases "all_closed ws") (auto simp: split_def split: sum.splits)
  have workers: "isl (fst (all_closed ws)) \<longleftrightarrow> (\<exists>w \<in> set (qs_workers s). in_time_rejection T (fst (closeW w)))"
    "\<forall>w \<in> set (qs_workers s). CloseWorker (wk_name w) \<in> set (snd (all_closed ws))
       \<and> (too_late T (fst (closeW w)) \<longrightarrow> ForceCloseWorker (wk_name w) \<in> set (snd (all_closed ws)))"
    "\<forall>q. CloseQueue q \<notin> set (snd (all_closed ws))"
    by (auto simp: all_closed_spec ws_def closeWorker_spec intro: closeWorker_spec(2) closeWorker_spec(3) [THEN iffD2])
  have queues: "isl (fst (all_closed qs)) \<longleftrightarrow> (\<exists>q \<in> fst ` set (qs_queues s). in_time_rejection T (fst (closeQ q)))"
    "\<forall>q \<in> fst ` set (qs_queues s). CloseQueue q \<in> set (snd (all_closed qs))
       \<and> (too_late T (fst (closeQ q)) \<longrightarrow> DisconnectQueue q \<in> set (snd (all_closed qs)))"
    "\<forall>w. CloseWorker w \<notin> set (snd (all_closed qs))"
    by (auto simp: all_closed_spec qs_def closeQueue_spec intro: closeQueue_spec(2) closeQueue_spec(3) [THEN iffD2])
  show ?thesis
  proof (cases "isl (fst (all_closed ws))")
    case True
    then show ?thesis using run workers by (auto simp: prod_eq_iff)
  next
    case False
    then have calls: "r = fst (all_closed qs)" "calls = snd (all_closed ws) @ snd (all_closed qs)" using run by simp_all
    have "\<exists>cw cq. calls = cw @ cq \<and> (\<forall>q. CloseQueue q \<notin> set cw) \<and> (\<forall>w. CloseWorker w \<notin> set cq)"
      using calls workers(3) queues(3) by blast
    then show ?thesis using False workers(1,2) queues(1,2) by (simp add: calls)
  qed
qed

theorem queue_shutdown_witness:
  "\<exists>r calls. onModuleDestroy (\<lambda>w. (None, Inl (PlainError ''socket''))) (\<lambda>q. (Some (5, Inr ()), Inr ())) (work OUTBOX_DRAIN () (new_service sample_queue_options)) = (r, calls)
     \<and> \<not> isl r \<and> ForceCloseWorker OUTBOX_DRAIN \<in> set calls \<and> CloseQueue OUTBOX_DRAIN \<in> set calls"
proof -
  let ?s = "work OUTBOX_DRAIN () (new_service sample_queue_options)"
  obtain r calls where run: "onModuleDestroy (\<lambda>w. (None, Inl (PlainError ''socket''))) (\<lambda>q. (Some (5, Inr ()), Inr ())) ?s = (r, calls)" by fastforce
  have "OUTBOX_DRAIN \<in> fst ` set (qs_queues ?s)"
    by (simp add: work_def new_service_def QUEUE_DEFINITIONS_def queue_defaults_def maintenance_queue_def)
  with queue_shutdown [OF run refl] have "\<not> isl r \<and> ForceCloseWorker OUTBOX_DRAIN \<in> set calls \<and> CloseQueue OUTBOX_DRAIN \<in> set calls"
    by (auto simp: work_def in_time_rejection_def too_late_def)
  with run show ?thesis by blast
qed

end
