(* ===== verification/Roles.thy ===== *)
theory Roles
  imports Config Storage Auth_Gateway Queue_Service
begin

text \<open>
  The processes of a deployment (\<open>src/src/bootstrap\<close>, \<open>src/src/main.*.ts\<close>): the options each role derives
  from its environment, what the API process mounts, the hooks every request passes, the Redis connection,
  and the process that runs all three roles with its shutdown.
\<close>

section \<open>Options of the platform modules\<close>

definition env_nat :: "env \<Rightarrow> string \<Rightarrow> nat" where
  "env_nat env k = nat \<lfloor>env_num env k\<rfloor>"

definition env_opt :: "env \<Rightarrow> string \<Rightarrow> string option" where
  "env_opt env k = (case map_of env k of Some (EStr s) \<Rightarrow> Some s | _ \<Rightarrow> None)"

record logger_options =
  lo_level :: string
  lo_role :: string
  lo_trustInboundRequestId :: bool
  lo_quietPaths :: "string list option"

record metrics_options =
  me_allowCidrs :: "string list"
  me_cacheTtlSeconds :: nat
  me_sharedStateTimeoutMs :: "nat option"

record prisma_input =
  pi_connectionString :: string
  pi_poolMax :: nat
  pi_applicationName :: string
  pi_transactionTimeoutMs :: "nat option"
  pi_transactionMaxWaitMs :: "nat option"
  pi_statementTimeoutMs :: "nat option"
  pi_idleTimeoutMs :: "nat option"
  pi_connectTimeoutMs :: "nat option"

record prisma_options =
  po_connectionString :: string
  po_poolMax :: nat
  po_applicationName :: string
  po_transactionTimeoutMs :: nat
  po_transactionMaxWaitMs :: nat
  po_statementTimeoutMs :: nat
  po_idleTimeoutMs :: nat
  po_connectTimeoutMs :: nat

definition or_default :: "'a option \<Rightarrow> 'a \<Rightarrow> 'a" where
  "or_default v d = (case v of Some x \<Rightarrow> x | None \<Rightarrow> d)"

definition PrismaModule_forRoot :: "prisma_input \<Rightarrow> prisma_options" where
  "PrismaModule_forRoot i =
     \<lparr>po_connectionString = pi_connectionString i, po_poolMax = pi_poolMax i, po_applicationName = pi_applicationName i,
      po_transactionTimeoutMs = or_default (pi_transactionTimeoutMs i) 10000,
      po_transactionMaxWaitMs = or_default (pi_transactionMaxWaitMs i) 5000,
      po_statementTimeoutMs = or_default (pi_statementTimeoutMs i) 30000,
      po_idleTimeoutMs = or_default (pi_idleTimeoutMs i) 10000,
      po_connectTimeoutMs = or_default (pi_connectTimeoutMs i) 5000\<rparr>"

record redis_options =
  rd_url :: string
  rd_maxRetriesPerRequest :: nat
  rd_connectTimeoutMs :: nat

definition RedisModule_forRoot :: "string \<Rightarrow> nat option \<Rightarrow> nat option \<Rightarrow> redis_options" where
  "RedisModule_forRoot url maxRetriesPerRequest connectTimeoutMs =
     \<lparr>rd_url = url, rd_maxRetriesPerRequest = or_default maxRetriesPerRequest 2,
      rd_connectTimeoutMs = or_default connectTimeoutMs 5000\<rparr>"

record auth_options =
  ap_secret :: string
  ap_baseUrl :: string
  ap_frontendBaseUrl :: string
  ap_trustedOrigins :: "string list"
  ap_useSecureCookies :: bool
  ap_requireEmailVerification :: bool

definition AuthRetentionModule_forRoot :: "nat option \<Rightarrow> nat option \<Rightarrow> auth_retention_options" where
  "AuthRetentionModule_forRoot graceHours batchSize =
     \<lparr>ro_expiredSessionGraceHours = or_default graceHours 24, ro_batchSize = or_default batchSize 5000\<rparr>"

definition UploadModule_forRoot :: "nat \<Rightarrow> nat option \<Rightarrow> nat option \<Rightarrow> upload_limits" where
  "UploadModule_forRoot bytes expiry ttl =
     \<lparr>maxFileBytes = bytes, presignExpirySeconds = or_default expiry 900, pendingTtlMinutes = or_default ttl 60\<rparr>"

text \<open>The driver the storage module binds to the port, and the billing verifier: none without a secret.\<close>

definition StorageModule_driver :: "storage_options \<Rightarrow> file_driver" where
  "StorageModule_driver options = (if st_driver options = Local then Local else S3_presigned)"

definition verifier_secret :: "string option \<Rightarrow> string option" where
  "verifier_secret secret = (case secret of None \<Rightarrow> None | Some s \<Rightarrow> if s = [] then None else Some s)"

definition storage_of :: "env \<Rightarrow> storage_options" where
  "storage_of env =
     \<lparr>st_driver = (if env_str env ''FILE_DRIVER'' = ''local'' then Local else S3_presigned), st_bucket = env_str env ''S3_BUCKET'',
      st_region = env_str env ''S3_REGION'', st_endpoint = env_str env ''S3_ENDPOINT'', st_accessKeyId = env_str env ''S3_ACCESS_KEY_ID'',
      st_secretAccessKey = env_str env ''S3_SECRET_ACCESS_KEY'', st_forcePathStyle = env_bool env ''S3_FORCE_PATH_STYLE'',
      st_connectionTimeoutMs = None, st_requestTimeoutMs = None, st_localRoot = None\<rparr>"

definition metrics_of :: "env \<Rightarrow> metrics_options" where
  "metrics_of env =
     \<lparr>me_allowCidrs = env_list env ''METRICS_ALLOW_CIDRS'', me_cacheTtlSeconds = env_nat env ''METRICS_CACHE_TTL_SECONDS'',
      me_sharedStateTimeoutMs = None\<rparr>"

definition prisma_of :: "env \<Rightarrow> string \<Rightarrow> nat option \<Rightarrow> prisma_options" where
  "prisma_of env name transactionTimeoutMs = PrismaModule_forRoot
     \<lparr>pi_connectionString = env_str env ''DATABASE_URL'', pi_poolMax = env_nat env ''DATABASE_POOL_MAX'', pi_applicationName = name,
      pi_transactionTimeoutMs = transactionTimeoutMs, pi_transactionMaxWaitMs = None, pi_statementTimeoutMs = None,
      pi_idleTimeoutMs = None, pi_connectTimeoutMs = None\<rparr>"

definition queue_of :: "env \<Rightarrow> string \<Rightarrow> nat \<Rightarrow> bool \<Rightarrow> bool option \<Rightarrow> queue_options" where
  "queue_of env name concurrency startWorkers registerSchedules = QueueModule_forRoot
     \<lparr>qi_redisUrl = env_str env ''REDIS_URL'', qi_applicationName = name, qi_concurrency = concurrency,
      qi_startWorkers = startWorkers, qi_registerSchedules = registerSchedules, qi_shutdownTimeoutMs = None\<rparr>"

section \<open>The roles\<close>

definition QUIET_PATHS :: "string list" where "QUIET_PATHS = [''/health'', ''/metrics'']"

record api_module =
  ax_logger :: logger_options
  ax_metrics :: metrics_options
  ax_prisma :: prisma_options
  ax_redis :: redis_options
  ax_queue :: queue_options
  ax_storage :: storage_options
  ax_auth :: auth_options
  ax_throttler :: "nat \<times> nat" \<comment> \<open>window in milliseconds, limit\<close>
  ax_readiness :: "readiness_check list"
  ax_billingVerifier :: "string option"
  ax_upload :: upload_limits
  ax_requestTimeoutMs :: nat

definition ApiModule_forRoot :: "env \<Rightarrow> api_module" where
  "ApiModule_forRoot env =
     \<lparr>ax_logger = \<lparr>lo_level = env_str env ''LOG_LEVEL'', lo_role = ''api'',
         lo_trustInboundRequestId = env_bool env ''TRUST_INBOUND_REQUEST_ID'', lo_quietPaths = Some QUIET_PATHS\<rparr>,
      ax_metrics = metrics_of env, ax_prisma = prisma_of env ''api'' None,
      ax_redis = RedisModule_forRoot (env_str env ''REDIS_URL'') None None,
      ax_queue = queue_of env ''api'' 1 False None, ax_storage = storage_of env,
      ax_auth = \<lparr>ap_secret = env_str env ''BETTER_AUTH_SECRET'', ap_baseUrl = env_str env ''BETTER_AUTH_URL'',
         ap_frontendBaseUrl = env_str env ''FRONTEND_BASE_URL'',
         ap_trustedOrigins = env_str env ''FRONTEND_BASE_URL'' # env_list env ''CORS_ORIGINS'',
         ap_useSecureCookies = (env_str env ''NODE_ENV'' = ''production''), ap_requireEmailVerification = True\<rparr>,
      ax_throttler = (env_nat env ''API_RATE_LIMIT_WINDOW_MS'', env_nat env ''API_RATE_LIMIT_MAX''),
      ax_readiness = API_READINESS, ax_billingVerifier = verifier_secret (env_opt env ''BILLING_WEBHOOK_SECRET''),
      ax_upload = UploadModule_forRoot (env_nat env ''UPLOAD_MAX_FILE_BYTES'') None None,
      ax_requestTimeoutMs = env_nat env ''HTTP_REQUEST_TIMEOUT_MS''\<rparr>"

record worker_module =
  wx_logger :: logger_options
  wx_metrics :: metrics_options
  wx_prisma :: prisma_options
  wx_queue :: queue_options
  wx_storage :: storage_options
  wx_mailer :: mailer_options
  wx_readiness :: "readiness_check list"
  wx_auditRetentionDays :: nat
  wx_authRetention :: auth_retention_options
  wx_upload :: upload_limits
  wx_frontendBaseUrl :: string

definition WorkerModule_forRoot :: "env \<Rightarrow> worker_module" where
  "WorkerModule_forRoot env =
     \<lparr>wx_logger = \<lparr>lo_level = env_str env ''LOG_LEVEL'', lo_role = ''worker'', lo_trustInboundRequestId = False,
         lo_quietPaths = Some QUIET_PATHS\<rparr>,
      wx_metrics = metrics_of env, wx_prisma = prisma_of env ''worker'' None,
      wx_queue = queue_of env ''worker'' (env_nat env ''QUEUE_CONCURRENCY'') True None, wx_storage = storage_of env,
      wx_mailer = \<lparr>mo_host = env_str env ''MAIL_HOST'', mo_port = env_nat env ''MAIL_PORT'', mo_user = env_opt env ''MAIL_USER'',
         mo_password = env_opt env ''MAIL_PASSWORD'', mo_from = env_str env ''MAIL_FROM'',
         mo_requireTls = Some (env_str env ''NODE_ENV'' = ''production''), mo_connectionTimeoutMs = None,
         mo_greetingTimeoutMs = None, mo_socketTimeoutMs = None\<rparr>,
      wx_readiness = WORKER_READINESS, wx_auditRetentionDays = env_nat env ''AUDIT_RETENTION_DAYS'',
      wx_authRetention = AuthRetentionModule_forRoot None None,
      wx_upload = UploadModule_forRoot (env_nat env ''UPLOAD_MAX_FILE_BYTES'') None None,
      wx_frontendBaseUrl = or_default (env_opt env ''FRONTEND_BASE_URL'') ''http://localhost:5173''\<rparr>"

definition DRAIN_TRANSACTION_TIMEOUT_MS :: nat where "DRAIN_TRANSACTION_TIMEOUT_MS = 30000"

record scheduler_module =
  sx_logger :: logger_options
  sx_metrics :: metrics_options
  sx_prisma :: prisma_options
  sx_queue :: queue_options
  sx_drainBatchSize :: nat
  sx_drainIntervalSeconds :: nat
  sx_retentionDays :: nat
  sx_readiness :: "readiness_check list"

definition SchedulerModule_forRoot :: "env \<Rightarrow> scheduler_module" where
  "SchedulerModule_forRoot env =
     \<lparr>sx_logger = \<lparr>lo_level = env_str env ''LOG_LEVEL'', lo_role = ''scheduler'', lo_trustInboundRequestId = False,
         lo_quietPaths = Some QUIET_PATHS\<rparr>,
      sx_metrics = metrics_of env, sx_prisma = prisma_of env ''scheduler'' (Some DRAIN_TRANSACTION_TIMEOUT_MS),
      sx_queue = queue_of env ''scheduler'' 1 True (Some True),
      sx_drainBatchSize = env_nat env ''OUTBOX_DRAIN_BATCH_SIZE'', sx_drainIntervalSeconds = env_nat env ''OUTBOX_DRAIN_INTERVAL_SECONDS'',
      sx_retentionDays = env_nat env ''OUTBOX_RETENTION_DAYS'', sx_readiness = SCHEDULER_READINESS\<rparr>"

section \<open>The API process\<close>

record rate = rt_max :: nat  rt_timeWindowMs :: nat

record api_app =
  aa_bodyLimit :: nat
  aa_trustProxy :: bool
  aa_module :: api_module
  aa_prefix :: string
  aa_unprefixed :: "string list"
  aa_corsOrigins :: "string list"
  aa_trustInboundRequestId :: bool
  aa_globalRateLimit :: rate
  aa_authBasePath :: string
  aa_authBaseUrl :: string
  aa_authTimeoutMs :: nat
  aa_strict :: rate
  aa_account :: rate
  aa_loose :: rate
  aa_localUploads :: "(string \<times> nat) option"
  aa_swagger :: bool

definition createApiApp :: "env \<Rightarrow> api_app" where
  "createApiApp env =
     \<lparr>aa_bodyLimit = env_nat env ''HTTP_BODY_LIMIT_BYTES'', aa_trustProxy = env_bool env ''TRUST_PROXY'',
      aa_module = ApiModule_forRoot env, aa_prefix = env_str env ''API_PREFIX'',
      aa_unprefixed = [''health/live'', ''health/ready'', ''health/dependencies'', ''metrics'', ''errors'', ''errors/:slug''],
      aa_corsOrigins = env_list env ''CORS_ORIGINS'', aa_trustInboundRequestId = env_bool env ''TRUST_INBOUND_REQUEST_ID'',
      aa_globalRateLimit = \<lparr>rt_max = env_nat env ''API_RATE_LIMIT_MAX'', rt_timeWindowMs = env_nat env ''API_RATE_LIMIT_WINDOW_MS''\<rparr>,
      aa_authBasePath = ''/'' @ env_str env ''API_PREFIX'' @ ''/auth'', aa_authBaseUrl = env_str env ''BETTER_AUTH_URL'',
      aa_authTimeoutMs = env_nat env ''HTTP_REQUEST_TIMEOUT_MS'',
      aa_strict = \<lparr>rt_max = env_nat env ''AUTH_RATE_LIMIT_MAX'', rt_timeWindowMs = env_nat env ''AUTH_RATE_LIMIT_WINDOW_MS''\<rparr>,
      aa_account = \<lparr>rt_max = env_nat env ''AUTH_ACCOUNT_RATE_LIMIT_MAX'', rt_timeWindowMs = env_nat env ''AUTH_ACCOUNT_RATE_LIMIT_WINDOW_MS''\<rparr>,
      aa_loose = \<lparr>rt_max = env_nat env ''AUTH_SESSION_RATE_LIMIT_MAX'', rt_timeWindowMs = env_nat env ''AUTH_SESSION_RATE_LIMIT_WINDOW_MS''\<rparr>,
      aa_localUploads = (if env_str env ''FILE_DRIVER'' = ''local'' then Some (env_str env ''S3_BUCKET'', env_nat env ''UPLOAD_MAX_FILE_BYTES'') else None),
      aa_swagger = (env_str env ''NODE_ENV'' \<noteq> ''production'')\<rparr>"

text \<open>What the plugins do to every request: the hook that stamps the ids, and the answer over the limit.\<close>

definition onRequest_hook :: "string \<Rightarrow> bool \<Rightarrow> http_request \<Rightarrow> (string \<times> string) list \<times> http_request" where
  "onRequest_hook newId trustInbound r =
     (let (ids, r') = ensureRequestIds newId trustInbound r
      in ([(REQUEST_ID_HEADER, ids_requestId ids), (CORRELATION_ID_HEADER, ids_correlationId ids)], r'))"

definition CSP_DIRECTIVES :: "(string \<times> string list) list" where
  "CSP_DIRECTIVES =
     (let self = [CHR 0x27] @ ''self'' @ [CHR 0x27]; none = [CHR 0x27] @ ''none'' @ [CHR 0x27] in
      [(''defaultSrc'', [self]), (''scriptSrc'', [self]), (''styleSrc'', [self]), (''imgSrc'', [self, ''data:'']),
       (''connectSrc'', [self]), (''objectSrc'', [none]), (''frameAncestors'', [none]), (''baseUri'', [self]), (''formAction'', [self])])"

record cors_options =
  co_origin :: "string list"
  co_credentials :: bool
  co_methods :: "string list"
  co_exposedHeaders :: "string list"
  co_allowedHeaders :: "string list"
  co_maxAge :: nat

definition cors_of :: "string list \<Rightarrow> cors_options" where
  "cors_of origins =
     \<lparr>co_origin = origins, co_credentials = True, co_methods = [''GET'', ''POST'', ''PATCH'', ''PUT'', ''DELETE'', ''OPTIONS''],
      co_exposedHeaders = [REQUEST_ID_HEADER, CORRELATION_ID_HEADER, ''retry-after''],
      co_allowedHeaders = [''content-type'', CORRELATION_ID_HEADER, ''x-organization-id''], co_maxAge = 600\<rparr>"

definition rate_limit_response :: "(nat \<rightharpoonup> string) \<Rightarrow> string \<Rightarrow> date \<Rightarrow> http_request \<Rightarrow> nat \<Rightarrow> problem_details" where
  "rate_limit_response phrases newId now r ttlMs =
     buildProblemDetails phrases now 429 (wire_code RATE_LIMITED)
       (''Rate limit exceeded. Retry in '' @ show_nat ((ttlMs + 999) div 1000) @ '' seconds.'')
       (instancePath (rq_url r)) (ids_requestId (fst (ensureRequestIds newId False r))) None None"

section \<open>Redis\<close>

definition RedisService_ping :: "failure + string \<Rightarrow> failure + bool" where
  "RedisService_ping reply = (case reply of Inl e \<Rightarrow> Inl e | Inr s \<Rightarrow> Inr (s = ''PONG''))"

definition CLOSED_STATUSES :: "string list" where "CLOSED_STATUSES = [''end'', ''close'']"

datatype redis_call = RedisQuit | RedisDisconnect

definition RedisService_destroy :: "string \<Rightarrow> failure + unit \<Rightarrow> redis_call list" where
  "RedisService_destroy status quit =
     (if status \<in> set CLOSED_STATUSES then []
      else (case quit of Inr _ \<Rightarrow> [RedisQuit] | Inl _ \<Rightarrow> [RedisQuit, RedisDisconnect]))"

section \<open>One process, three roles\<close>

text \<open>The ports, in the order the applications start listening.\<close>

definition all_ports :: "env \<Rightarrow> env \<Rightarrow> env \<Rightarrow> nat list" where
  "all_ports apiEnv workerEnv schedulerEnv =
     [env_nat apiEnv ''PORT'', env_nat workerEnv ''HEALTH_PORT'', env_nat schedulerEnv ''HEALTH_PORT'' + 1]"

fun listen_all :: "(nat \<Rightarrow> 'p \<Rightarrow> (failure + unit) \<times> 'p) \<Rightarrow> nat list \<Rightarrow> ('p, unit) action" where
  "listen_all listen [] p = (Inr (), p)"
| "listen_all listen (n # ns) p =
     (case listen n p of
        (Inl e, p') \<Rightarrow> (Inl e, p')
      | (Inr _, p') \<Rightarrow> listen_all listen ns p')"

text \<open>
  A signal: the first closes every application and ends the process with the number of failures as its
  verdict; later ones find \<open>closing\<close> set.
\<close>

record shutdown_state =
  sd_closing :: bool
  sd_closed :: "nat list" \<comment> \<open>the applications whose close was called\<close>
  sd_exit :: "nat option"

definition shutdown_signal :: "(failure + unit) list \<Rightarrow> shutdown_state \<Rightarrow> shutdown_state" where
  "shutdown_signal closes s =
     (if sd_closing s then s
      else s\<lparr>sd_closing := True, sd_closed := sd_closed s @ [0..<length closes],
             sd_exit := Some (if filter isl closes \<noteq> [] then 1 else 0)\<rparr>)"

section \<open>What the schemas give the options\<close>

lemma typed_field:
  assumes "env_typed z fs env" "(k, kind, presence) \<in> set fs"
  shows "case map_of env k of None \<Rightarrow> presence = Optional | Some v \<Rightarrow> value_ok z kind v"
  using assms by (fastforce simp: env_typed_def list_all_iff field_ok_def)

lemma typed_int:
  assumes "env_typed z fs env" "(k, KInt lo hi, Default v) \<in> set fs"
  shows "nat lo \<le> env_nat env k"
proof -
  obtain w where w: "map_of env k = Some w" "value_ok z (KInt lo hi) w"
    using typed_field [OF assms] by (auto split: option.splits)
  then obtain n where "w = ENum n" "of_int lo \<le> n" by (cases w) auto
  then show ?thesis using w(1) by (simp add: env_nat_def env_num_def nat_mono le_floor_iff)
qed

lemma api_fields:
  "(''HTTP_BODY_LIMIT_BYTES'', KInt 1024 None, Default (ENum 1048576)) \<in> set envApiSchema"
  "(''HTTP_REQUEST_TIMEOUT_MS'', KInt 1000 None, Default (ENum 30000)) \<in> set envApiSchema"
  "(''API_RATE_LIMIT_MAX'', KInt 1 None, Default (ENum 300)) \<in> set envApiSchema"
  "(''API_RATE_LIMIT_WINDOW_MS'', KInt 1000 None, Default (ENum 60000)) \<in> set envApiSchema"
  "(''AUTH_RATE_LIMIT_MAX'', KInt 1 None, Default (ENum 5)) \<in> set envApiSchema"
  "(''AUTH_RATE_LIMIT_WINDOW_MS'', KInt 1000 None, Default (ENum 900000)) \<in> set envApiSchema"
  "(''AUTH_ACCOUNT_RATE_LIMIT_MAX'', KInt 1 None, Default (ENum 5)) \<in> set envApiSchema"
  "(''AUTH_ACCOUNT_RATE_LIMIT_WINDOW_MS'', KInt 1000 None, Default (ENum 900000)) \<in> set envApiSchema"
  "(''AUTH_SESSION_RATE_LIMIT_MAX'', KInt 1 None, Default (ENum 60)) \<in> set envApiSchema"
  "(''AUTH_SESSION_RATE_LIMIT_WINDOW_MS'', KInt 1000 None, Default (ENum 60000)) \<in> set envApiSchema"
  "(''BETTER_AUTH_SECRET'', KString 32, Required) \<in> set envApiSchema"
  "(''BILLING_WEBHOOK_SECRET'', KSecretOrEmpty 32, Optional) \<in> set envApiSchema"
  by (simp_all add: envApiSchema_def)

definition rate_ok :: "rate \<Rightarrow> bool" where
  "rate_ok r \<longleftrightarrow> 1 \<le> rt_max r \<and> 1000 \<le> rt_timeWindowMs r"

lemma api_limits:
  assumes "env_typed z envApiSchema env"
  shows "rate_ok (aa_globalRateLimit (createApiApp env))" "rate_ok (aa_strict (createApiApp env))"
    "rate_ok (aa_account (createApiApp env))" "rate_ok (aa_loose (createApiApp env))"
    "1024 \<le> aa_bodyLimit (createApiApp env)" "1000 \<le> aa_authTimeoutMs (createApiApp env)"
  using assms [THEN typed_int, OF api_fields(1)] assms [THEN typed_int, OF api_fields(2)] assms [THEN typed_int, OF api_fields(3)]
    assms [THEN typed_int, OF api_fields(4)] assms [THEN typed_int, OF api_fields(5)] assms [THEN typed_int, OF api_fields(6)]
    assms [THEN typed_int, OF api_fields(7)] assms [THEN typed_int, OF api_fields(8)] assms [THEN typed_int, OF api_fields(9)]
    assms [THEN typed_int, OF api_fields(10)]
  by (simp_all add: createApiApp_def rate_ok_def)

lemma api_secrets:
  assumes "env_typed z envApiSchema env"
  shows "32 \<le> length (ap_secret (ax_auth (ApiModule_forRoot env)))"
    "case ax_billingVerifier (ApiModule_forRoot env) of None \<Rightarrow> True | Some s \<Rightarrow> 32 \<le> length s"
proof -
  obtain v where "map_of env ''BETTER_AUTH_SECRET'' = Some v" "value_ok z (KString 32) v"
    using typed_field [OF assms api_fields(11)] by (auto split: option.splits)
  then show "32 \<le> length (ap_secret (ax_auth (ApiModule_forRoot env)))"
    by (cases v) (simp_all add: ApiModule_forRoot_def env_str_def)
  have "case map_of env ''BILLING_WEBHOOK_SECRET'' of None \<Rightarrow> True | Some v \<Rightarrow> value_ok z (KSecretOrEmpty 32) v"
    using typed_field [OF assms api_fields(12)] by (auto split: option.splits)
  then have "case env_opt env ''BILLING_WEBHOOK_SECRET'' of None \<Rightarrow> True | Some s \<Rightarrow> 32 \<le> length s \<or> s = []"
    by (auto simp: env_opt_def split: option.splits env_value.splits)
  then show "case ax_billingVerifier (ApiModule_forRoot env) of None \<Rightarrow> True | Some s \<Rightarrow> 32 \<le> length s"
    by (auto simp: ApiModule_forRoot_def verifier_secret_def split: option.splits)
qed

section \<open>Properties\<close>

text \<open>
  C10: the API process that serves production is hardened. Whatever environment it loaded, session cookies are
  secure, email verification is required, the API documentation is not served, the signing secret has at
  least 32 characters and no placeholder word; every origin the browser may call from, and every origin the
  authentication library trusts, is https, and the front end is among them; forwarded addresses are
  believed exactly behind a proxy, inbound request ids only there; metrics have an allow-list; webhooks are
  verified with a secret of at least 32 characters or not at all; every limiter admits at least one request
  and has a window of at least a second; and the process consumes no queue and registers no schedule.\<close>

theorem production_api_hardened:
  assumes "\<forall>dsn pw url. with_password dsn pw = Inr url \<longrightarrow> url \<noteq> []"
    and "loadEnv z readFileSync with_password encode RoleApi source = Inr env"
    and "env_str env ''NODE_ENV'' = ''production''"
    and "app = createApiApp env" and "m = aa_module app"
  shows "ap_useSecureCookies (ax_auth m) \<and> ap_requireEmailVerification (ax_auth m) \<and> \<not> aa_swagger app
    \<and> 32 \<le> length (ap_secret (ax_auth m))
    \<and> (\<forall>w \<in> set FORBIDDEN_SECRET_SUBSTRINGS. \<not> sublist w (toLowerCase (ap_secret (ax_auth m))))
    \<and> (\<forall>origin \<in> set (co_origin (cors_of (aa_corsOrigins app))) \<union> set (ap_trustedOrigins (ax_auth m)). prefix HTTPS_SCHEME origin)
    \<and> ap_frontendBaseUrl (ax_auth m) \<in> set (aa_corsOrigins app) \<and> prefix HTTPS_SCHEME (aa_authBaseUrl app)
    \<and> (aa_trustProxy app \<longleftrightarrow> env_str env ''DEPLOYMENT_TOPOLOGY'' = ''behind-proxy'')
    \<and> (aa_trustInboundRequestId app \<longrightarrow> aa_trustProxy app)
    \<and> me_allowCidrs (ax_metrics m) \<noteq> []
    \<and> (case ax_billingVerifier m of None \<Rightarrow> True | Some s \<Rightarrow> 32 \<le> length s)
    \<and> rate_ok (aa_globalRateLimit app) \<and> rate_ok (aa_strict app) \<and> rate_ok (aa_account app) \<and> rate_ok (aa_loose app)
    \<and> \<not> qo_startWorkers (ax_queue m) \<and> \<not> qo_registerSchedules (ax_queue m)"
proof -
  have typed: "env_typed z envApiSchema env" and safe: "production_safe RoleApi env"
    using loadEnv_returns [OF assms(1,2)] assms(3) by (simp, blast)
  have m: "m = ApiModule_forRoot env" using assms(4,5) by (simp add: createApiApp_def)
  have modes: "ap_useSecureCookies (ax_auth m) \<and> ap_requireEmailVerification (ax_auth m) \<and> \<not> aa_swagger app
      \<and> \<not> qo_startWorkers (ax_queue m) \<and> \<not> qo_registerSchedules (ax_queue m)"
    using assms(3,4) by (simp add: m ApiModule_forRoot_def createApiApp_def queue_of_def QueueModule_forRoot_def)
  have origins: "(\<forall>origin \<in> set (co_origin (cors_of (aa_corsOrigins app))) \<union> set (ap_trustedOrigins (ax_auth m)). prefix HTTPS_SCHEME origin)
      \<and> ap_frontendBaseUrl (ax_auth m) \<in> set (aa_corsOrigins app) \<and> prefix HTTPS_SCHEME (aa_authBaseUrl app)"
    using safe assms(4) by (auto simp: m ApiModule_forRoot_def createApiApp_def cors_of_def)
  have rest: "(\<forall>w \<in> set FORBIDDEN_SECRET_SUBSTRINGS. \<not> sublist w (toLowerCase (ap_secret (ax_auth m))))
      \<and> (aa_trustProxy app \<longleftrightarrow> env_str env ''DEPLOYMENT_TOPOLOGY'' = ''behind-proxy'')
      \<and> (aa_trustInboundRequestId app \<longrightarrow> aa_trustProxy app) \<and> me_allowCidrs (ax_metrics m) \<noteq> []"
    using safe unfolding m assms(4) by (auto simp: ApiModule_forRoot_def createApiApp_def metrics_of_def)
  show ?thesis using modes origins rest api_limits [OF typed] api_secrets [OF typed] unfolding assms(4) m by blast
qed

lemma sample_topology:
  "\<exists>env. loadEnv sample_zod (\<lambda>_. Inr ''pw'') sample_with_password id RoleApi sample_source = Inr env
     \<and> env_str env ''NODE_ENV'' = ''production'' \<and> env_str env ''DEPLOYMENT_TOPOLOGY'' = ''behind-proxy''"
proof -
  have "case sample_load of Inr env \<Rightarrow> env_str env ''NODE_ENV'' = ''production'' \<and> env_str env ''DEPLOYMENT_TOPOLOGY'' = ''behind-proxy''
      | _ \<Rightarrow> False" by code_simp
  then show ?thesis unfolding sample_load_def by (simp only: sum.case_eq_if split: if_splits) (metis sum.collapse(2))
qed

theorem production_api_hardened_witness:
  "\<exists>env. sample_load = Inr env \<and> aa_trustProxy (createApiApp env) \<and> \<not> aa_swagger (createApiApp env)
     \<and> 32 \<le> length (ap_secret (ax_auth (aa_module (createApiApp env))))"
proof -
  obtain env where env: "loadEnv sample_zod (\<lambda>_. Inr ''pw'') sample_with_password id RoleApi sample_source = Inr env"
    "env_str env ''NODE_ENV'' = ''production''" "env_str env ''DEPLOYMENT_TOPOLOGY'' = ''behind-proxy''"
    using sample_topology by blast
  have printed: "\<forall>dsn pw url. sample_with_password dsn pw = Inr url \<longrightarrow> url \<noteq> []" by (auto simp: sample_with_password_def)
  from production_api_hardened [OF printed env(1,2) refl refl] env(1,3) show ?thesis by (auto simp: sample_load_def)
qed

text \<open>
  C12: every queue has exactly one consumer. Whatever the environments, and in whatever order the container lists
  the providers of the worker process, handler registration succeeds in every role; the workers of the worker
  process together with those of the scheduler process serve each declared queue once, so that no job waits
  for a handler that does not exist and none is taken by two; the API process serves none, and only the
  scheduler process registers schedules.\<close>

theorem every_queue_consumed:
  assumes "mset (filter (\<lambda>p. readQueueMetadata p \<noteq> None) ps) = mset worker_listeners"
    and "\<forall>p \<in> set ps'. readQueueMetadata p = None"
    and "m = SchedulerModule_forRoot c"
  shows "\<exists>worker scheduler scheduler' ss'.
     QueueRegistrar_bootstrap ps (new_service (wx_queue (WorkerModule_forRoot w))) = Inr worker
     \<and> QueueRegistrar_bootstrap ps' (new_service (sx_queue m)) = Inr scheduler
     \<and> registerWorkers (sx_drainIntervalSeconds m) drain prune (scheduler, ss) = Inr (scheduler', ss')
     \<and> (\<forall>q. count (mset (map wk_name (qs_workers worker @ qs_workers scheduler'))) q = 1)
     \<and> QueueRegistrar_bootstrap ps'' (new_service (ax_queue (ApiModule_forRoot a))) = Inr (new_service (ax_queue (ApiModule_forRoot a)))
     \<and> CronRegistrar_bootstrap (ax_queue (ApiModule_forRoot a)) ss = Inr ss
     \<and> CronRegistrar_bootstrap (wx_queue (WorkerModule_forRoot w)) ss = Inr ss"
proof -
  have modes: "qo_startWorkers (wx_queue (WorkerModule_forRoot w))" "qo_startWorkers (sx_queue m)"
    "\<not> qo_startWorkers (ax_queue (ApiModule_forRoot a))" "\<not> qo_registerSchedules (ax_queue (ApiModule_forRoot a))"
    "\<not> qo_registerSchedules (wx_queue (WorkerModule_forRoot w))"
    by (simp_all add: WorkerModule_forRoot_def SchedulerModule_forRoot_def ApiModule_forRoot_def queue_of_def QueueModule_forRoot_def assms(3))
  have idle: "QueueRegistrar_bootstrap ps'' (new_service (ax_queue (ApiModule_forRoot a))) = Inr (new_service (ax_queue (ApiModule_forRoot a)))"
    "CronRegistrar_bootstrap (ax_queue (ApiModule_forRoot a)) ss = Inr ss" "CronRegistrar_bootstrap (wx_queue (WorkerModule_forRoot w)) ss = Inr ss"
    using modes(3-5) by (simp_all add: QueueRegistrar_bootstrap_def CronRegistrar_bootstrap_def new_service_def)
  show ?thesis using queues_served [OF modes(1,2) assms(1,2), of "sx_drainIntervalSeconds m" drain prune ss] idle by blast
qed

theorem every_queue_consumed_witness:
  "\<exists>worker. QueueRegistrar_bootstrap (rev worker_listeners) (new_service (wx_queue (WorkerModule_forRoot []))) = Inr worker
     \<and> count (mset (map wk_name (qs_workers worker))) MAIL_SEND_AUTH_EMAIL \<le> 1"
proof -
  have "filter (\<lambda>p. readQueueMetadata p \<noteq> None) (rev worker_listeners) = rev worker_listeners"
    using decorated_listeners by (subst filter_id_conv) auto
  then have "mset (filter (\<lambda>p. readQueueMetadata p \<noteq> None) (rev worker_listeners)) = mset worker_listeners" by simp
  from every_queue_consumed [OF this, of "[]" _ "[]" "[]" "listener OUTBOX_DRAIN ''d''" "listener OUTBOX_PRUNE ''p''" "\<lambda>_. []" "[]" "[]", OF _ refl]
  obtain worker rest where worker: "QueueRegistrar_bootstrap (rev worker_listeners) (new_service (wx_queue (WorkerModule_forRoot []))) = Inr worker"
    and once: "\<forall>q. count (mset (map wk_name (qs_workers worker @ rest))) q = 1" by auto
  have "count (mset (map wk_name (qs_workers worker))) MAIL_SEND_AUTH_EMAIL \<le> 1"
    using spec [OF once, of MAIL_SEND_AUTH_EMAIL] by (simp del: mset_map)
  with worker show ?thesis by blast
qed

section \<open>Where the configuration says less than it means\<close>

text \<open>
  The quiet path \<open>/health\<close> silences none of the health routes, which all lie below it.
\<close>

lemma health_probes_logged:
  "\<forall>route \<in> {''/health/live'', ''/health/ready'', ''/health/dependencies''}. \<not> isQuietPath (Some route) QUIET_PATHS"
  by (simp add: isQuietPath_def QUIET_PATHS_def starts_with_def)

text \<open>A health port the schema accepts can leave the scheduler of the combined process without a port.\<close>

lemma scheduler_port_out_of_range:
  "value_ok z (KInt 1 (Some 65535)) (ENum 65535) \<and> 65535 < last (all_ports a w [(''HEALTH_PORT'', ENum 65535)])"
  by (simp add: safe_int_def all_ports_def env_nat_def env_num_def)

text \<open>Production accepts the local file driver, and then mounts its upload route.\<close>

definition sample_local_load :: "env_error + env" where
  "sample_local_load = loadEnv sample_zod (\<lambda>_. Inr ''pw'') sample_with_password id RoleApi
     (\<lambda>k. if k = ''FILE_DRIVER'' then Some ''local'' else sample_source k)"

lemma sample_local_loads:
  "case sample_local_load of Inr env \<Rightarrow> env_str env ''NODE_ENV'' = ''production'' \<and> env_str env ''FILE_DRIVER'' = ''local'' | _ \<Rightarrow> False"
  by code_simp

lemma production_allows_local_driver:
  "\<exists>env. sample_local_load = Inr env \<and> env_str env ''NODE_ENV'' = ''production'' \<and> aa_localUploads (createApiApp env) \<noteq> None"
proof -
  obtain env where "sample_local_load = Inr env" "env_str env ''NODE_ENV'' = ''production''" "env_str env ''FILE_DRIVER'' = ''local''"
    using sample_local_loads by (simp only: sum.case_eq_if split: if_splits) (metis sum.collapse(2))
  then show ?thesis by (intro exI [of _ env]) (simp add: createApiApp_def)
qed

section \<open>Request ids and shutdown\<close>

text \<open>The ids in the reply are the ones every later reader of the request sees.\<close>

lemma reply_ids_stable:
  assumes "onRequest_hook newId trust r = (headers, r')"
  shows "\<exists>ids. rq_ids r' = Some ids \<and> headers = [(REQUEST_ID_HEADER, ids_requestId ids), (CORRELATION_ID_HEADER, ids_correlationId ids)]
    \<and> (\<forall>n t. fst (ensureRequestIds n t r') = ids)"
  using assms by (auto simp: onRequest_hook_def ensureRequestIds_def Let_def split: option.splits prod.splits)

text \<open>However often the signals arrive, every application is closed once, and the exit code says whether all closed.\<close>

lemma shutdown_once:
  assumes "closes = c # cs"
  shows "fold shutdown_signal (closes # later) \<lparr>sd_closing = False, sd_closed = [], sd_exit = None\<rparr>
    = \<lparr>sd_closing = True, sd_closed = [0..<length closes], sd_exit = Some (if \<exists>r \<in> set closes. isl r then 1 else 0)\<rparr>"
proof -
  have stay: "sd_closing s \<Longrightarrow> fold shutdown_signal later s = s" for s
    by (induction later) (simp_all add: shutdown_signal_def)
  show ?thesis by (simp add: stay shutdown_signal_def filter_empty_conv)
qed

end
