(* ===== verification/Spec2Isabelle.thy ===== *)
theory Spec2Isabelle
  imports Ownership Roles
begin

text \<open>
  \<^bold>\<open>A verification library of the modular monolith\<close>

  The program is a multi-tenant backend: one code base that runs as an API process, a worker process and a
  scheduler process over one relational database, one Redis and an object store. Business modules
  (organizations, users, uploads, billing, audit log, notifications) own their tables and talk to each other
  through integration events: a module writes an event to the outbox in its transaction, the scheduler
  process relays the outbox to queues, and listeners in the worker process handle the jobs. The API process
  puts every request through the same guards, pipes and error filter.

  \<^bold>\<open>How the model is built.\<close> A table is a list of records in \<^verbatim>\<open>Database\<close>, a statement a function on the state,
  a use case a function from the state to a result and the state it leaves; a throw is a value of the type
  \<^verbatim>\<open>failure\<close> on the left of a sum. Time, fresh ids and tokens are arguments. Definitions keep the names of
  the source, with the class in front where a method name is not unique.

  \<^bold>\<open>Theories, in the order they build on each other\<close>

  \<^item> \<^verbatim>\<open>Prelude\<close>: lists as tables, strings as JavaScript treats them, the locales that several components
    implement. \<^verbatim>\<open>Errors\<close> (\<^verbatim>\<open>src/src/shared/errors\<close>): codes, catalog, domain exceptions. \<^verbatim>\<open>Js_Date\<close>: dates and
    their ISO form, with the round trip. \<^verbatim>\<open>Paths\<close>: Node's path functions, with what a resolved path can
    reach.
  \<^item> \<^verbatim>\<open>Events\<close> (\<^verbatim>\<open>contracts/events\<close>): envelope and payload schemas. \<^verbatim>\<open>Job_Queue\<close> (\<^verbatim>\<open>platform/queue\<close>): the queue table,
    job options, backoff, sending, schedules, handler discovery. \<^verbatim>\<open>Retention\<close>: the bounded batch deletion
    every retention job uses, as a locale. \<^verbatim>\<open>Database\<close>: the tables and the unit of work.
  \<^item> \<^verbatim>\<open>Outbox\<close> (\<^verbatim>\<open>platform/messaging\<close>, \<^verbatim>\<open>bullmq-event-publisher.ts\<close>): publishing and the relay, every statement of it,
    and the interleavings of any number of relays: the table invariant, fencing of lost claims, that no
    event is lost, that a run clears the backlog, and that a pass treats each row on its own.
  \<^item> \<^verbatim>\<open>Accounts\<close> (\<^verbatim>\<open>platform/auth\<close>, the triggers of the migration), \<^verbatim>\<open>Organizations\<close>, \<^verbatim>\<open>Users\<close>, \<^verbatim>\<open>Uploads\<close> and
    \<^verbatim>\<open>Upload_Lifecycle\<close>, \<^verbatim>\<open>Billing\<close>, \<^verbatim>\<open>Audit_Log\<close>, \<^verbatim>\<open>Notifications\<close> (\<^verbatim>\<open>modules/*\<close>), \<^verbatim>\<open>Pagination\<close>
    (\<^verbatim>\<open>shared/pagination\<close>): the use cases with their repositories and listeners. Each has its row invariant
    and that every command keeps it, its operations on every branch, and its interleavings where the
    code relies on them: owners of an organization, confirmed files and the sweep, claims of webhooks,
    one delivery per notification key.
  \<^item> \<^verbatim>\<open>Access\<close> and \<^verbatim>\<open>Api\<close> (guards, controllers, request bodies), \<^verbatim>\<open>Api_Security\<close> and \<^verbatim>\<open>Ownership\<close>: a request runs
    through the guard chain into its handler; who reaches it is exactly what the policy of the endpoint
    permits, a tenant endpoint touches only its tenant, and ownership comes only from owners.
    \<^verbatim>\<open>Http_Errors\<close> (\<^verbatim>\<open>bootstrap/http\<close>): what a client sees of every failure.
  \<^item> \<^verbatim>\<open>Redaction\<close> (\<^verbatim>\<open>platform/observability\<close>): what of a request is logged. \<^verbatim>\<open>Metrics\<close>: the shared-state collector,
    timeouts, the address allow-list, health. \<^verbatim>\<open>Storage\<close> (\<^verbatim>\<open>platform/storage\<close>, \<^verbatim>\<open>local-upload-routes.ts\<close>): both
    drivers behind one port, as a locale with two interpretations, and the upload route.
    \<^verbatim>\<open>Auth_Gateway\<close> (\<^verbatim>\<open>bootstrap/fastify/auth-*\<close>, \<^verbatim>\<open>platform/mailer\<close>): the scope in front of the
    authentication library, the limiter per account, the mail callbacks, SMTP, retention of sessions.
  \<^item> \<^verbatim>\<open>Config\<close> (\<^verbatim>\<open>bootstrap/config\<close>): the environment of a role. \<^verbatim>\<open>Queue_Service\<close> (\<^verbatim>\<open>bullmq.service.ts\<close>, the
    registrars): workers, schedules and shutdown of a process. \<^verbatim>\<open>Roles\<close> (\<^verbatim>\<open>bootstrap/*.module.ts\<close>,
    \<^verbatim>\<open>app-factory.ts\<close>, \<^verbatim>\<open>main.all.ts\<close>): the options each role derives, and what follows for a deployment.
  \<^item> This theory: four flows that cross components, each from the call that starts it to the effect it is
    for: a registration to its profile and audit entry, an invitation to its membership, the deletion of an
    account to the removal of its files, and a callback of the authentication library to the mail.

  \<^bold>\<open>Bounds and loops.\<close> The relay and the retention jobs run at most twenty passes, as in the source
  (\<^verbatim>\<open>MAX_PASSES_PER_RUN\<close>, \<^verbatim>\<open>MAX_PRUNE_PASSES\<close>); the passes are the only fuel of the model, and the theorems about a
  whole run say for which backlogs they are enough. Every other loop is structural, except the purge of a
  user's files, whose termination rests on the rows it deletes. Batch sizes, lease times and deadlines are
  the constants of the source.

  \<^bold>\<open>Parameters.\<close> Code outside the sources is an argument, and what is relied on is a hypothesis with a witness:
  the string formats zod decides, number coercion and boolean words of the environment, SHA-256 and HMAC,
  \<^verbatim>\<open>JSON.parse\<close>, the broker behind the queues, the authentication library and its sessions, the throttler and
  the limiter store, the URL class, HTTP status phrases, the Vietnamese message catalog, the S3 client and its
  signer, the IP address library, the health-check library, the SMTP transport. The file system of the local
  driver is a map from paths to nodes whose calls may also fail.

  \<^bold>\<open>Not modelled.\<close> The authentication library itself (only its routes, callbacks and hooks are in the sources);
  decorators read by the OpenAPI generator; declarations of metric series; connection handling of the
  database client; the Vietnamese catalog's text; the seed script; entry points that only load an environment
  and listen; integration tests and benchmarks, which have no behaviour of their own. Numbers of the source
  that are counts or sizes are natural numbers or integers: none of them reaches the range where a JavaScript
  number stops being exact, and where one could, in the environment, the schema's own bound is part of the
  model.
\<close>

section \<open>From the account table to the profile and the audit log\<close>

text \<open>A broker that keeps the jobs it is given, with their queues.\<close>

type_synonym jobs = "(string \<times> js) list"

definition record_add :: "jobs broker_add" where
  "record_add q data opts b = (Inr None, b @ [(q, data)])"

definition mailbox :: "outgoing_notification list sender" where
  "mailbox n s = (Inr (), s @ [n])"

lemma dispatch_to_records:
  "dispatch_to record_add e qs b = (Inr (), b @ map (\<lambda>q. (QUEUES q, event_to_js e)) qs)"
  by (induction qs arbitrary: b) (simp_all add: send_QUEUES record_add_def)

lemma dispatch_records:
  assumes "valid_event z e" "ie_name e = event_name n"
  shows "dispatch z record_add e b = (Inr (), b @ map (\<lambda>q. (QUEUES q, event_to_js e)) (EVENT_SUBSCRIBERS n))"
  using parse_event_to_js [OF assms(1)] assms(2)
  by (simp add: dispatch_def subscribersOf_def dispatch_to_records)

definition registered_event :: "uuid \<Rightarrow> date \<Rightarrow> auth_user \<Rightarrow> integration_event" where
  "registered_event i now u =
     createIntegrationEvent i now USER_REGISTERED
       (JsObj [(''userId'', JsStr (au_id u)), (''email'', JsStr (au_email u)),
               (''emailVerified'', JsBool (au_emailVerified u)),
               (''registeredAt'', JsStr (toISOString (au_createdAt u)))]) None"

lemma registered_event_valid:
  assumes "z_uuid7 z i" "z_uuid7 z (au_id u)" "z_email z (au_email u)" "\<forall>t. z_iso_datetime z (toISOString t)"
  shows "valid_event z (registered_event i now u)"
  unfolding registered_event_def
  by (rule createIntegrationEvent_valid)
    (use assms in \<open>simp_all add: userRegisteredPayloadSchema_def z_object_def is_bool_def\<close>)

lemma registered_event_fields [simp]:
  "ie_eventId (registered_event i now u) = i" "ie_name (registered_event i now u) = event_name USER_REGISTERED"
  "ie_correlationId (registered_event i now u) = None" "ie_occurredAt (registered_event i now u) = toISOString now"
  "payload_string (registered_event i now u) ''userId'' = au_id u"
  "payload_string (registered_event i now u) ''email'' = au_email u"
  by (simp_all add: registered_event_def createIntegrationEvent_def payload_string_def field_def str_of_def)

lemma registered_uncorrelated: "registered_event i now u\<lparr>ie_correlationId := None\<rparr> = registered_event i now u"
  by (simp add: registered_event_def createIntegrationEvent_def)

lemma registered_relayed:
  assumes "valid_event z (registered_event i now u)" "valid_date now"
  shows "parseOutboxEvent z (outbox_insert_row (registered_event i now u) (ie_payload (registered_event i now u)))
           = Some (registered_event i now u)"
  using parseOutboxEvent_insert [OF assms(1) _ assms(2)] by (simp add: registered_uncorrelated)

lemma insertUser_outbox:
  assumes "insertUser i now u d = (Inr (), d1)" "valid_date now"
  shows "outbox d1 = outbox d @ [outbox_insert_row (registered_event i now u) (ie_payload (registered_event i now u))]
         \<and> users d1 = users d @ [u] \<and> userProfiles d1 = userProfiles d \<and> auditLog d1 = auditLog d"
  using assms date_parse_toISOString [OF assms(2)]
  by (auto simp: insertUser_def insert_unique_Inr enqueue_auth_user_event_def auth_user_event_def registered_event_def
      createIntegrationEvent_def outbox_insert_row_def CURRENT_SCHEMA_VERSION_def split: sum.splits)

lemma registered_actor: "al_actorId (entry_of (registered_event i now u)) = Some (au_id u)"
  by (simp add: entry_of_def createAuditEntry_def audit_input_def registered_event_def createIntegrationEvent_def
      readString_def or_else_def Let_def)



section \<open>From an invitation to a membership\<close>

lemma sendInvitation_records:
  "sendInvitation sha record_add n b =
     (Inr (), b @ [(QUEUES ORGANIZATION_SEND_INVITATION,
        JsObj [(''email'', JsStr (in_email n)), (''organizationId'', JsStr (in_organizationId n)),
               (''organizationName'', JsStr (in_organizationName n)), (''token'', JsStr (in_token n)),
               (''expiresAt'', JsStr (toISOString (in_expiresAt n)))])])"
  unfolding sendInvitation_def send_QUEUES by (simp add: record_add_def)

lemma invite_writes:
  assumes "InviteMember_execute z sha record_add i token now g email role (d, b) = (Inr v, (d1, b1))"
  shows "\<exists>org iv. findById g d = Some org \<and> emailSchema z (toLowerCase (trim email)) \<and> role \<noteq> Owner
      \<and> iv = \<lparr>oi_id = i, oi_organizationId = g, oi_email = toLowerCase (trim email), oi_role = role,
               oi_tokenHash = sha token, oi_expiresAt = now + DEFAULT_TTL_DAYS * ms_per_day,
               oi_acceptedAt = None, oi_createdAt = now\<rparr>
      \<and> d1 = d\<lparr>invitations := invitations d @ [iv]\<rparr> \<and> sha token \<notin> oi_tokenHash ` set (invitations d)
      \<and> b1 = b @ [(QUEUES ORGANIZATION_SEND_INVITATION,
                   JsObj [(''email'', JsStr (toLowerCase (trim email))), (''organizationId'', JsStr (org_id org)),
                          (''organizationName'', JsStr (org_name org)), (''token'', JsStr token),
                          (''expiresAt'', JsStr (toISOString (now + DEFAULT_TTL_DAYS * ms_per_day)))])]"
  using assms
  by (auto simp: InviteMember_execute_def Invitation_issue_def save_invitation_def sendInvitation_records
      insert_unique_Inr Let_def split: option.splits if_splits sum.splits prod.splits)

lemma invitation_mailed:
  assumes "z_email z e" "z_uuid7 z g" "name \<noteq> []" "token \<noteq> []" "z_iso_datetime z (toISOString t)" "valid_date t"
  shows "SendInvitationEmail_handle z mailbox token_url sha base
           (JsObj [(''email'', JsStr e), (''organizationId'', JsStr g), (''organizationName'', JsStr name),
                   (''token'', JsStr token), (''expiresAt'', JsStr (toISOString t))]) s
         = (Inr (), s @ [notification_of e (invitationMessage name (token_url base ''/invitations/accept'' token) t) (sha token)])"
  using assms date_parse_toISOString [OF assms(6)]
  by (simp add: SendInvitationEmail_handle_def SendInvitationEmail_execute_def invitationJobSchema_def z_object_def
      nonempty_def field_def str_of_def mailbox_def Let_def)

lemma accept_pending:
  assumes d1: "d1 = d\<lparr>invitations := invitations d @ [iv]\<rparr>" and hash: "oi_tokenHash iv = sha token"
      "sha token \<notin> oi_tokenHash ` set (invitations d)" and id: "oi_id iv \<notin> oi_id ` set (invitations d)"
      and pending: "oi_acceptedAt iv = None" "now' < oi_expiresAt iv" and who: "toLowerCase (trim email') = oi_email iv"
      and refs: "oi_organizationId iv \<in> org_id ` set (organizations d)" "u \<in> au_id ` set (users d)"
      and new: "(oi_organizationId iv, u) \<notin> member_key ` set (members d)"
  shows "\<exists>d2. AcceptInvitation_execute sha j now' token u email' d1 = (Inr (oi_organizationId iv, role_name (oi_role iv)), d2)
     \<and> members d2 = members d @ [\<lparr>om_id = j, om_organizationId = oi_organizationId iv, om_userId = u, om_role = oi_role iv,
                                  om_createdAt = now'\<rparr>]"
proof -
  have found: "findPendingByTokenHash (sha token) d1 = Some iv"
  proof -
    have "find (\<lambda>i. oi_tokenHash i = sha token) (invitations d @ [iv]) = Some iv"
      using hash by (subst find_snoc) (auto simp: image_iff)
    then show ?thesis using pending by (simp add: findPendingByTokenHash_def d1)
  qed
  let ?p = "\<lambda>v. oi_id v = oi_id iv \<and> oi_acceptedAt v = None \<and> now' < oi_expiresAt v"
  have "filter ?p (invitations d) = []" using id by (auto simp: filter_empty_conv image_iff)
  then have marked: "fst (markAccepted (oi_id iv) now' d1)"
    using pending by (simp add: markAccepted_def d1 count_where_def Let_def)
  have rest: "members (snd (markAccepted (oi_id iv) now' d1)) = members d"
      "organizations (snd (markAccepted (oi_id iv) now' d1)) = organizations d"
      "users (snd (markAccepted (oi_id iv) now' d1)) = users d"
    by (simp_all add: markAccepted_def d1 Let_def)
  have "isRedeemableAt now' iv" "matchesRecipient email' iv"
    using pending who by (simp_all add: isRedeemableAt_def matchesRecipient_def constantTimeEquals_def)
  then show ?thesis using found marked rest refs new
    by (cases "markAccepted (oi_id iv) now' d1")
      (simp add: AcceptInvitation_execute_def transaction_def addMember_def insert_skip_def member_key_def
        require_reference_def Let_def)
qed



section \<open>From the deletion of an account to its files\<close>

definition deleted_event :: "uuid \<Rightarrow> date \<Rightarrow> uuid \<Rightarrow> integration_event" where
  "deleted_event i now userId =
     createIntegrationEvent i now USER_DELETED
       (JsObj [(''userId'', JsStr userId), (''deletedAt'', JsStr (toISOString now))]) None"

lemma deleted_event_valid:
  assumes "z_uuid7 z i" "z_uuid7 z userId" "\<forall>t. z_iso_datetime z (toISOString t)"
  shows "valid_event z (deleted_event i now userId)"
  unfolding deleted_event_def
  by (rule createIntegrationEvent_valid) (use assms in \<open>simp_all add: userDeletedPayloadSchema_def z_object_def\<close>)

lemma deleted_event_fields [simp]:
  "ie_eventId (deleted_event i now v) = i" "ie_name (deleted_event i now v) = event_name USER_DELETED"
  "ie_occurredAt (deleted_event i now v) = toISOString now"
  "payload_string (deleted_event i now v) ''userId'' = v"
  by (simp_all add: deleted_event_def createIntegrationEvent_def payload_string_def field_def str_of_def)

lemma deleted_relayed:
  assumes "valid_event z (deleted_event i now v)" "valid_date now"
  shows "parseOutboxEvent z (outbox_insert_row (deleted_event i now v) (ie_payload (deleted_event i now v)))
           = Some (deleted_event i now v)"
  using parseOutboxEvent_insert [OF assms(1) _ assms(2)]
  by (simp add: deleted_event_def createIntegrationEvent_def)

lemma deleted_actor: "al_actorId (entry_of (deleted_event i now v)) = Some v"
  by (simp add: entry_of_def createAuditEntry_def audit_input_def deleted_event_def createIntegrationEvent_def
      readString_def or_else_def Let_def)

lemma deleteUser_writes:
  assumes "deleteUser i now v d = (Inr (), d1)" "v \<in> au_id ` set (users d)" "valid_date now"
  shows "soleOwnedOrganizations v (members d) = []
    \<and> d1 = d\<lparr>users := delete_where (\<lambda>u. au_id u = v) (users d),
             sessions := delete_where (\<lambda>s. ar_userId s = Some v) (sessions d),
             members := delete_where (\<lambda>m. om_userId m = v) (members d),
             userProfiles := delete_where (\<lambda>p. up_userId p = v) (userProfiles d),
             outbox := outbox d @ [outbox_insert_row (deleted_event i now v) (ie_payload (deleted_event i now v))]\<rparr>"
proof -
  obtain old where old: "find (\<lambda>u. au_id u = v) (users d) = Some old" "au_id old = v"
    using assms(2) by (cases "find (\<lambda>u. au_id u = v) (users d)") (auto simp: find_None_iff find_Some_iff)
  have "refuse_last_owner_deletion old (members d) = Inr ()"
    using assms(1) old by (auto simp: deleteUser_def split: sum.splits)
  then have "soleOwnedOrganizations v (members d) = []"
    using old(2) by (auto simp: refuse_last_owner_deletion_def split: list.splits)
  then show ?thesis using assms(1) old date_parse_toISOString [OF assms(3)]
    by (auto simp: deleteUser_def refuse_last_owner_deletion_def enqueue_auth_user_event_def auth_user_event_def
        deleted_event_def createIntegrationEvent_def outbox_insert_row_def CURRENT_SCHEMA_VERSION_def)
qed

lemma owner_after_deletion:
  assumes "soleOwnedOrganizations v ms = []" "owns org u ms"
  shows "\<exists>w. owns org w (delete_where (\<lambda>m. om_userId m = v) ms)"
proof -
  obtain w where "w \<noteq> v" "owns org w ms"
    using assms by (cases "u = v") (auto simp: soleOwned_Nil)
  then show ?thesis by (auto simp: owns_def set_delete_where intro!: exI [of _ w])
qed



section \<open>From an authentication callback to the mailbox\<close>

text \<open>A mail server that takes every message, and one that rejects the recipient.\<close>

definition accept_mail :: "mail_message \<Rightarrow> mail_message list \<Rightarrow> (failure + string list) \<times> mail_message list" where
  "accept_mail msg m = (Inr [], m @ [msg])"

definition reject_mail :: "mail_message \<Rightarrow> mail_message list \<Rightarrow> (failure + string list) \<times> mail_message list" where
  "reject_mail msg m = (Inr [mm_to msg], m)"

lemma auth_callback_records:
  "auth_callback sha token_url record_add base kind email token b =
     (Inr (), b @ [(QUEUES MAIL_SEND_AUTH_EMAIL, auth_mail_js
        \<lparr>am_kind = kind, am_to = email, am_url = buildFrontendTokenUrl token_url base kind token, am_tokenDigest = digestAuthToken sha token\<rparr>)])"
  unfolding auth_callback_def AuthService_sendMail_def send_QUEUES by (simp add: record_add_def)

lemma auth_mail_handled:
  assumes "z_email z to" "z_url z url" "length digest = 64"
  shows "SendAuthEmail_handle z sender (auth_mail_js \<lparr>am_kind = kind, am_to = to, am_url = url, am_tokenDigest = digest\<rparr>) s
         = sender (notification_of to (render kind url) digest) s"
  using assms
  by (cases kind) (simp_all add: SendAuthEmail_handle_def SendAuthEmail_execute_def auth_mail_js_def authMailPayloadSchema_def z_object_def
      field_def str_of_def kind_of_name_def)

text \<open>
  C7: the mail behind a reset, a verification or a deletion of an account arrives once. The callback of the
  authentication library leaves exactly one job; its worker reads the job back, whatever the kind, and hands
  the mail server one message, addressed to the account, with the front-end link of that kind and the
  digest of the token as its key. If the server takes it, a redelivery of the job sends nothing; if it
  rejects the recipient, the job fails and leaves the ledger as it was, so that the retry sends again.\<close>

theorem auth_mail_flow:
  assumes "z_email z email" "z_url z (buildFrontendTokenUrl token_url base kind token)" "length (digestAuthToken sha token) = 64"
    and fresh: "digestAuthToken sha token \<notin> ledger_keys rows"
  shows "\<exists>data rows'.
     auth_callback sha token_url record_add base kind email token b = (Inr (), b @ [(QUEUES MAIL_SEND_AUTH_EMAIL, data)])
     \<and> SendAuthEmail_handle z (IdempotentNotificationSender_send (SmtpMailer_send accept_mail options) rf now) data (rows, m)
         = (Inr (), (rows', m @ [\<lparr>mm_from = mo_from options, mm_to = email,
              mm_subject = rm_subject (render kind (buildFrontendTokenUrl token_url base kind token)),
              mm_text = rm_text (render kind (buildFrontendTokenUrl token_url base kind token)), mm_html = None,
              mm_headers = Some [(''X-Idempotency-Key'', digestAuthToken sha token)]\<rparr>]))
     \<and> (\<forall>now' m'. SendAuthEmail_handle z (IdempotentNotificationSender_send (SmtpMailer_send accept_mail options) rf now') data (rows', m')
         = (Inr (), (rows', m')))
     \<and> (\<exists>e. SendAuthEmail_handle z (IdempotentNotificationSender_send (SmtpMailer_send reject_mail options) False now) data (rows, m)
         = (Inl e, (rows, m)))"
proof -
  let ?url = "buildFrontendTokenUrl token_url base kind token" and ?key = "digestAuthToken sha token"
  let ?n = "notification_of email (render kind ?url) ?key"
  have key: "on_idempotencyKey ?n = Some ?key" by (simp add: notification_of_def)
  have sent: "SmtpMailer_send accept_mail options ?n m = (Inr (), m @ [toMailOptions options ?n])"
    by (simp add: SmtpMailer_send_def accept_mail_def)
  obtain e where refused: "SmtpMailer_send reject_mail options ?n m = (Inl e, m)"
    by (simp add: SmtpMailer_send_def reject_mail_def)
  obtain rows' where rows': "IdempotentNotificationSender_send (SmtpMailer_send accept_mail options) rf now ?n (rows, m)
      = (Inr (), (rows', m @ [toMailOptions options ?n]))" "?key \<in> ledger_keys rows'"
    using idempotent_sent [where mailer = "SmtpMailer_send accept_mail options", OF key fresh sent] .
  have retry: "IdempotentNotificationSender_send (SmtpMailer_send reject_mail options) False now ?n (rows, m) = (Inl e, (rows, m))"
    using idempotent_refused [where mailer = "SmtpMailer_send reject_mail options", OF key fresh refused, of False now] by auto
  note handled = auth_mail_handled [OF assms(1-3)]
  show ?thesis
    using rows' retry unfolding auth_callback_records
    by (intro exI [of _ "auth_mail_js \<lparr>am_kind = kind, am_to = email, am_url = ?url, am_tokenDigest = ?key\<rparr>"] exI [of _ rows'])
      (simp add: handled idempotent_skip [OF key rows'(2)], simp add: toMailOptions_def notification_of_def)
qed

definition sample_mailer :: mailer_options where
  "sample_mailer = \<lparr>mo_host = ''mail'', mo_port = 25, mo_user = None, mo_password = None, mo_from = ''no-reply@x.io'',
     mo_requireTls = None, mo_connectionTimeoutMs = None, mo_greetingTimeoutMs = None, mo_socketTimeoutMs = None\<rparr>"

theorem auth_mail_flow_witness:
  "\<exists>data rows' msg. sendResetPassword (\<lambda>_. replicate 64 CHR ''a'') (\<lambda>base path token. base @ path @ token) record_add ''https://x.io'' ''ann@x.io'' ''tok'' []
       = (Inr (), [(QUEUES MAIL_SEND_AUTH_EMAIL, data)])
     \<and> SendAuthEmail_handle any_zod (IdempotentNotificationSender_send (SmtpMailer_send accept_mail sample_mailer) False 5) data ([], [])
         = (Inr (), (rows', [msg])) \<and> mm_to msg = ''ann@x.io''"
  using auth_mail_flow [of any_zod "''ann@x.io''" "\<lambda>base path token. base @ path @ token" "''https://x.io''" ResetPassword "''tok''"
      "\<lambda>_. replicate 64 CHR ''a''" "[]" "[]" sample_mailer False 5 "[]"]
  by (fastforce simp: any_zod_def digestAuthToken_def ledger_keys_def sendResetPassword_def)

end
